(* ===== verification/Prelude.thy ===== *)
theory Prelude
  imports
    "HOL-Library.Word"
    "HOL-Library.Char_ord"
    "HOL-Library.List_Lexorder"
begin

text \<open>
  Shared vocabulary of the development: the machine integer types of the C sources, the
  loop shapes the code uses over its client array (update the first match, remove an
  entry by shifting), facts about folds, and the collections of simplification rules the
  component theories fill:
  \<^item> \<open>frame\<close>: what an operation leaves unchanged;
  \<^item> \<open>layout\<close>: sizes and offsets of the packet image.
\<close>

named_theorems frame "components of the state an operation leaves unchanged"
named_theorems layout "sizes and offsets of the packet image"

type_synonym byte = "8 word"
type_synonym i32 = "32 word"
type_synonym i64 = "64 word"

text \<open>
  A C cast from a 64-bit to a 32-bit signed integer keeps the low 32 bits; the promotion
  of a 32-bit value for a comparison with a 64-bit one extends the sign.
\<close>

abbreviation to_i32 :: "i64 \<Rightarrow> i32" where
  "to_i32 x \<equiv> ucast x"

abbreviation to_i64 :: "i32 \<Rightarrow> i64" where
  "to_i64 x \<equiv> scast x"

text \<open>\<open>for (i...) if (P (a[i])) { a[i] = f (a[i]); break; }\<close>\<close>

fun upd_first :: "('a \<Rightarrow> bool) \<Rightarrow> ('a \<Rightarrow> 'a) \<Rightarrow> 'a list \<Rightarrow> 'a list" where
  "upd_first P f [] = []"
| "upd_first P f (x # xs) = (if P x then f x # xs else x # upd_first P f xs)"

text \<open>\<open>for (j = i; j < n - 1; j++) a[j] = a[j + 1]; n--\<close>\<close>

definition remove_at :: "nat \<Rightarrow> 'a list \<Rightarrow> 'a list" where
  "remove_at i xs = take i xs @ drop (Suc i) xs"

text \<open>\<open>strncpy (dst, src, n)\<close> into a zeroed array of more than \<open>n\<close> bytes.\<close>

definition strncpy0 :: "nat \<Rightarrow> string \<Rightarrow> string" where
  "strncpy0 n src = take n src"

section \<open>Lists\<close>

lemma length_upd_first [simp]: "length (upd_first P f xs) = length xs"
  by (induction xs) auto

lemma upd_first_none: "\<forall>x \<in> set xs. \<not> P x \<Longrightarrow> upd_first P f xs = xs"
  by (induction xs) auto

lemma map_upd_first:
  assumes "\<And>x. g (f x) = g x"
  shows "map g (upd_first P f xs) = map g xs"
  by (induction xs) (auto simp: assms)

lemma set_upd_firstD:
  "y \<in> set (upd_first P f xs) \<Longrightarrow> y \<in> set xs \<or> (\<exists>x \<in> set xs. P x \<and> y = f x)"
  by (induction xs) (auto split: if_splits)

text \<open>On an array whose entries have distinct keys the first match is the only match.\<close>

lemma upd_first_distinct:
  assumes "distinct (map k xs)"
  shows "upd_first (\<lambda>x. k x = a) f xs = map (\<lambda>x. if k x = a then f x else x) xs"
  using assms
proof (induction xs)
  case Nil
  then show ?case by simp
next
  case (Cons x xs)
  have "map (\<lambda>y. if k y = a then f y else y) xs = xs" if "k x = a"
  proof (rule map_idI)
    fix y assume "y \<in> set xs"
    then have "k y \<in> set (map k xs)" by simp
    moreover have "k x \<notin> set (map k xs)" using Cons.prems by simp
    ultimately have "k y \<noteq> a" using that by metis
    then show "(if k y = a then f y else y) = y" by simp
  qed
  with Cons show ?case by auto
qed

lemma length_remove_at [simp]: "i < length xs \<Longrightarrow> length (remove_at i xs) = length xs - 1"
  by (auto simp: remove_at_def)

lemma map_remove_at: "map f (remove_at i xs) = remove_at i (map f xs)"
  by (simp add: remove_at_def take_map drop_map)

lemma set_remove_at: "set (remove_at i xs) \<subseteq> set xs"
  by (auto simp: remove_at_def dest: in_set_takeD in_set_dropD)

lemma distinct_remove_at: "distinct xs \<Longrightarrow> distinct (remove_at i xs)"
proof -
  assume d: "distinct xs"
  have "distinct (take i xs @ drop i xs)" using d by simp
  then have "set (take i xs) \<inter> set (drop i xs) = {}" by (simp only: distinct_append)
  moreover have "set (drop (Suc i) xs) \<subseteq> set (drop i xs)"
    by (rule set_drop_subset_set_drop) simp
  ultimately show ?thesis using d by (auto simp: remove_at_def)
qed

lemma length_strncpy0: "length (strncpy0 n s) \<le> n"
  by (simp add: strncpy0_def)

lemma strncpy0_short [simp]: "length s \<le> n \<Longrightarrow> strncpy0 n s = s"
  by (simp add: strncpy0_def)

section \<open>Folds\<close>

text \<open>
  A C loop over the client array or over the rows of a query is a \<open>fold\<close> of its body.
  An invariant of the body is one of the loop, and what the body leaves alone the loop
  leaves alone.
\<close>

lemma fold_invariant_list:
  assumes "P s" and "\<And>x s. x \<in> set xs \<Longrightarrow> P s \<Longrightarrow> P (f x s)"
  shows "P (fold f xs s)"
  using assms
proof (induction xs arbitrary: s)
  case Nil
  then show ?case by simp
next
  case (Cons x xs)
  then show ?case by simp
qed

lemma fold_frame:
  assumes "\<And>x s. g (f x s) = g s"
  shows "g (fold f xs s) = g s"
  using fold_invariant_list [where P = "\<lambda>t. g t = g s"] assms by metis

end
