(* ===== verification/Bytes.thy ===== *)
theory Bytes
  imports Prelude
begin

text \<open>
  Bytes of memory: how a host of either byte order stores the integers of a C struct,
  \<open>htonl\<close>, reading and writing integers and character arrays at an offset of a memory
  image (a list of bytes). The packet code of \<^verbatim>\<open>shared/packet_helper.c\<close> runs over these.
\<close>

unbundle bit_operations_syntax

section \<open>Integers as bytes\<close>

datatype endian = Little | Big

text \<open>The \<open>n\<close> low bytes of a word, least significant first, and back.\<close>

primrec le_bytes :: "nat \<Rightarrow> 'a::len word \<Rightarrow> byte list" where
  "le_bytes 0 w = []"
| "le_bytes (Suc n) w = ucast w # le_bytes n (drop_bit 8 w)"

primrec le_word :: "byte list \<Rightarrow> 'a::len word" where
  "le_word [] = 0"
| "le_word (b # bs) = ucast b OR push_bit 8 (le_word bs)"

fun bytes_of :: "endian \<Rightarrow> nat \<Rightarrow> 'a::len word \<Rightarrow> byte list" where
  "bytes_of Little n w = le_bytes n w"
| "bytes_of Big n w = rev (le_bytes n w)"

fun word_of :: "endian \<Rightarrow> byte list \<Rightarrow> 'a::len word" where
  "word_of Little bs = le_word bs"
| "word_of Big bs = le_word (rev bs)"

lemma length_le_bytes [simp]: "length (le_bytes n w) = n"
  by (induction n arbitrary: w) auto

lemma length_bytes_of [simp]: "length (bytes_of e n w) = n"
  by (cases e) auto

lemma bit_le_word:
  "bit (le_word bs :: 'a::len word) k \<longleftrightarrow>
     k < LENGTH('a) \<and> k < 8 * length bs \<and> bit (bs ! (k div 8)) (k mod 8)"
proof (induction bs arbitrary: k)
  case Nil
  then show ?case by simp
next
  case (Cons b bs)
  show ?case
  proof (cases "k < 8")
    case True
    then show ?thesis
      by (auto simp: bit_or_iff bit_push_bit_iff bit_unsigned_iff dest: bit_imp_le_length)
  next
    case False
    then have "k div 8 = Suc ((k - 8) div 8)" and "k mod 8 = (k - 8) mod 8"
      by (simp_all add: le_div_geq le_mod_geq)
    with False Cons.IH [of "k - 8"] show ?thesis
      by (auto simp: bit_or_iff bit_push_bit_iff bit_unsigned_iff
          dest: bit_imp_le_length)
  qed
qed

lemma nth_le_bytes:
  "i < n \<Longrightarrow> le_bytes n w ! i = ucast (drop_bit (8 * i) w)"
proof (induction n arbitrary: w i)
  case 0
  then show ?case by simp
next
  case (Suc n)
  then show ?case
    by (cases i) (auto simp: drop_bit_drop_bit add.commute)
qed

lemma le_word_le_bytes:
  assumes "LENGTH('a) \<le> 8 * n"
  shows "le_word (le_bytes n w) = (w :: 'a::len word)"
proof (rule bit_word_eqI)
  fix k assume k: "k < LENGTH('a)"
  then have "k div 8 < n" using assms by simp
  then have "bit (le_word (le_bytes n w) :: 'a word) k \<longleftrightarrow>
      bit (ucast (drop_bit (8 * (k div 8)) w) :: byte) (k mod 8)"
    using k assms by (simp add: bit_le_word nth_le_bytes)
  also have "\<dots> \<longleftrightarrow> bit w (8 * (k div 8) + k mod 8)"
    by (simp add: bit_unsigned_iff bit_drop_bit_eq)
  also have "8 * (k div 8) + k mod 8 = k" by simp
  finally show "bit (le_word (le_bytes n w) :: 'a word) k \<longleftrightarrow> bit w k" .
qed

lemma le_bytes_le_word:
  assumes "8 * length bs \<le> LENGTH('a)" and "length bs = n"
  shows "le_bytes n (le_word bs :: 'a::len word) = bs"
proof (rule nth_equalityI)
  show "length (le_bytes n (le_word bs :: 'a word)) = length bs" using assms by simp
  fix i assume "i < length (le_bytes n (le_word bs :: 'a word))"
  then have i: "i < n" by simp
  show "le_bytes n (le_word bs :: 'a word) ! i = bs ! i"
  proof (rule bit_word_eqI)
    fix k assume "k < LENGTH(8)"
    then have "k < 8" by simp
    moreover from this have "(8 * i + k) div 8 = i" and "(8 * i + k) mod 8 = k" by simp_all
    ultimately show "bit (le_bytes n (le_word bs :: 'a word) ! i) k \<longleftrightarrow> bit (bs ! i) k"
      using i assms
      by (simp add: nth_le_bytes bit_unsigned_iff bit_drop_bit_eq bit_le_word)
  qed
qed

lemma word_of_bytes_of:
  "LENGTH('a) \<le> 8 * n \<Longrightarrow> word_of e (bytes_of e n w) = (w :: 'a::len word)"
  by (cases e) (simp_all add: le_word_le_bytes)

lemma bytes_of_word_of:
  "8 * length bs \<le> LENGTH('a) \<Longrightarrow> length bs = n \<Longrightarrow>
   bytes_of e n (word_of e bs :: 'a::len word) = bs"
  by (cases e) (simp_all add: le_bytes_le_word)

section \<open>Network byte order\<close>

text \<open>
  \<open>htonl\<close> of the host: the identity on a big-endian host, a byte swap on a little-endian
  one. \<open>network64\<close> is the source's 64-bit version, built from two \<open>htonl\<close>s after a test
  of the host's byte order.
\<close>

definition htonl :: "endian \<Rightarrow> i32 \<Rightarrow> i32" where
  "htonl e w = (case e of Big \<Rightarrow> w | Little \<Rightarrow> le_word (rev (le_bytes 4 w)))"

definition network64 :: "endian \<Rightarrow> i64 \<Rightarrow> i64" where
  "network64 e value =
     (if e = Big then value
      else push_bit 32 (ucast (htonl e (ucast value)))
           OR ucast (htonl e (ucast (drop_bit 32 value))))"

lemma bytes_htonl: "bytes_of e 4 (htonl e w) = bytes_of Big 4 w"
  by (cases e) (simp_all add: htonl_def le_bytes_le_word)

lemma le_word_append:
  "le_word (xs @ ys) = (le_word xs OR push_bit (8 * length xs) (le_word ys) :: 'a::len word)"
  by (induction xs) (simp_all add: push_bit_or or.assoc push_bit_push_bit add.commute)

lemma ucast_le_word:
  "8 * length bs \<le> LENGTH('b) \<Longrightarrow>
   ucast (le_word bs :: 'b::len word) = (le_word bs :: 'a::len word)"
  by (rule bit_word_eqI) (auto simp: bit_unsigned_iff bit_le_word)

lemma le_bytes_ucast:
  assumes "8 * n \<le> LENGTH('b)"
  shows "le_bytes n (ucast w :: 'b::len word) = le_bytes n (w :: 'a::len word)"
proof (rule nth_equalityI)
  fix i assume "i < length (le_bytes n (ucast w :: 'b word))"
  then have "8 * i + 7 < LENGTH('b)" using assms by simp
  then show "le_bytes n (ucast w :: 'b word) ! i = le_bytes n w ! i"
    using \<open>i < length (le_bytes n (ucast w :: 'b word))\<close>
    by (auto intro!: bit_word_eqI simp: nth_le_bytes bit_unsigned_iff bit_drop_bit_eq
        dest: bit_imp_le_length)
qed simp

lemma le_bytes_add:
  "le_bytes (m + n) w = le_bytes m w @ le_bytes n (drop_bit (8 * m) w)"
  by (induction m arbitrary: w) (simp_all add: drop_bit_drop_bit add.commute)

text \<open>The two halves put together are the eight bytes reversed.\<close>

lemma network64_Little: "network64 Little v = le_word (rev (le_bytes 8 v))"
proof -
  have split: "le_bytes 8 v = le_bytes 4 v @ le_bytes 4 (drop_bit 32 v)"
    using le_bytes_add [of 4 4 v] by simp
  have "network64 Little v =
      push_bit 32 (le_word (rev (le_bytes 4 v))) OR le_word (rev (le_bytes 4 (drop_bit 32 v)))"
    by (simp add: network64_def htonl_def ucast_le_word le_bytes_ucast)
  also have "\<dots> = le_word (rev (le_bytes 8 v))"
    by (simp add: split le_word_append or.commute)
  finally show ?thesis .
qed

lemma bytes_network64: "bytes_of e 8 (network64 e w) = bytes_of Big 8 w"
proof (cases e)
  case Little
  then show ?thesis by (simp add: network64_Little le_bytes_le_word)
next
  case Big
  then show ?thesis by (simp add: network64_def)
qed

section \<open>Reading and writing at an offset\<close>

definition get_bytes :: "nat \<Rightarrow> nat \<Rightarrow> byte list \<Rightarrow> byte list" where
  "get_bytes off n img = take n (drop off img)"

definition put_bytes :: "nat \<Rightarrow> byte list \<Rightarrow> byte list \<Rightarrow> byte list" where
  "put_bytes off bs img = take off img @ bs @ drop (off + length bs) img"

definition get32 :: "endian \<Rightarrow> nat \<Rightarrow> byte list \<Rightarrow> i32" where
  "get32 e off img = word_of e (get_bytes off 4 img)"

definition get64 :: "endian \<Rightarrow> nat \<Rightarrow> byte list \<Rightarrow> i64" where
  "get64 e off img = word_of e (get_bytes off 8 img)"

definition put32 :: "endian \<Rightarrow> nat \<Rightarrow> i32 \<Rightarrow> byte list \<Rightarrow> byte list" where
  "put32 e off w img = put_bytes off (bytes_of e 4 w) img"

definition put64 :: "endian \<Rightarrow> nat \<Rightarrow> i64 \<Rightarrow> byte list \<Rightarrow> byte list" where
  "put64 e off w img = put_bytes off (bytes_of e 8 w) img"

lemma length_put_bytes [simp]:
  "off + length bs \<le> length img \<Longrightarrow> length (put_bytes off bs img) = length img"
  by (simp add: put_bytes_def)

lemma nth_put_bytes:
  assumes "off + length bs \<le> length img" and "i < length img"
  shows "put_bytes off bs img ! i =
    (if off \<le> i \<and> i < off + length bs then bs ! (i - off) else img ! i)"
  using assms by (auto simp: put_bytes_def nth_append min_def)

section \<open>Character arrays\<close>

text \<open>
  A \<open>char\<close> array of \<open>n\<close> bytes is modelled by the string it holds: the characters before
  its first NUL, or all \<open>n\<close> of them when it has none. In memory the array is that string
  padded with NULs, as \<open>memset\<close> and \<open>strncpy\<close> leave it.
\<close>

definition byte_of_char :: "char \<Rightarrow> byte" where
  "byte_of_char c = word_of_nat (of_char c)"

definition char_of_byte :: "byte \<Rightarrow> char" where
  "char_of_byte b = char_of (unat b)"

definition pad_chars :: "nat \<Rightarrow> string \<Rightarrow> byte list" where
  "pad_chars n s = take n (map byte_of_char s @ replicate n 0)"

definition chars_of :: "byte list \<Rightarrow> string" where
  "chars_of bs = map char_of_byte (takeWhile (\<lambda>b. b \<noteq> 0) bs)"

text \<open>A string an array of \<open>n\<close> bytes can hold.\<close>

definition fits :: "nat \<Rightarrow> string \<Rightarrow> bool" where
  "fits n s \<longleftrightarrow> length s \<le> n \<and> CHR 0x00 \<notin> set s"

lemma char_of_byte_of_char [simp]: "char_of_byte (byte_of_char c) = c"
proof -
  have "char_of ((of_char c :: nat) mod 256) = c" by simp
  then show ?thesis by (simp add: char_of_byte_def byte_of_char_def unat_of_nat)
qed

lemma char_of_byte_0: "char_of_byte 0 = CHR 0x00"
  by (simp add: char_of_byte_def char_of_def)

lemma byte_of_char_0: "byte_of_char c = 0 \<longleftrightarrow> c = CHR 0x00"
proof
  assume "byte_of_char c = 0"
  then have "char_of_byte (byte_of_char c) = CHR 0x00" by (simp only: char_of_byte_0)
  then show "c = CHR 0x00" by (simp only: char_of_byte_of_char)
qed (simp add: byte_of_char_def)

lemma length_pad_chars [simp]: "length (pad_chars n s) = n"
  by (simp add: pad_chars_def)

lemma chars_of_pad_chars: "fits n s \<Longrightarrow> chars_of (pad_chars n s) = s"
proof -
  assume f: "fits n s"
  then have nz: "\<forall>b \<in> set (map byte_of_char s). b \<noteq> 0"
    by (auto simp: fits_def byte_of_char_0)
  have "pad_chars n s = map byte_of_char s @ replicate (n - length s) 0"
    using f by (simp add: pad_chars_def fits_def)
  moreover have "takeWhile (\<lambda>b. b \<noteq> 0) (map byte_of_char s @ replicate (n - length s) 0)
      = map byte_of_char s @ takeWhile (\<lambda>b. b \<noteq> 0) (replicate (n - length s) 0)"
    using nz by (intro takeWhile_append2) blast
  ultimately have "takeWhile (\<lambda>b. b \<noteq> 0) (pad_chars n s) = map byte_of_char s"
    by simp
  then show ?thesis by (simp add: chars_of_def comp_def)
qed

lemma fits_strncpy0 [intro]:
  "CHR 0x00 \<notin> set s \<Longrightarrow> n \<le> m \<Longrightarrow> fits m (strncpy0 n s)"
  by (auto simp: fits_def strncpy0_def dest: in_set_takeD)

end
