(* ===== verification/Protocol.thy ===== *)
theory Protocol
  imports Bytes
begin

text \<open>
  The data of \<^verbatim>\<open>shared/protocol.h\<close>: the enumerations with the integers C gives them, the
  payload structs as records, and the packet. The union of payloads, whose live member
  the packet's \<open>type\<close> field names, is a datatype with one constructor per member; the
  \<open>type\<close> field is then a function of the constructor (\<open>packet_type\<close>). Enum fields are
  raw 32-bit integers, as on the wire, where any value can arrive; a \<open>switch\<close> decodes
  them. Character arrays are the strings they hold.
\<close>

section \<open>Constants\<close>

abbreviation (input) MAX_NAME_LEN :: nat where "MAX_NAME_LEN \<equiv> 32"
abbreviation (input) PASSWORD_LEN :: nat where "PASSWORD_LEN \<equiv> 64"
abbreviation (input) MESSAGE_LEN :: nat where "MESSAGE_LEN \<equiv> 512"
abbreviation (input) SYSTEM_MESSAGE_LEN :: nat where "SYSTEM_MESSAGE_LEN \<equiv> 256"
abbreviation (input) PROFILE_STATUS_LEN :: nat where "PROFILE_STATUS_LEN \<equiv> 64"

section \<open>Enumerations\<close>

text \<open>
  Every C enum here is a finite list of constants with an integer each. A \<open>switch\<close> over
  a field looks the field's value up among them and takes \<open>default\<close> when none matches.
\<close>

definition enum_of :: "'e list \<Rightarrow> ('e \<Rightarrow> i32) \<Rightarrow> i32 \<Rightarrow> 'e option" where
  "enum_of es code w = find (\<lambda>a. code a = w) es"

locale c_enum =
  fixes es :: "'e list" and code :: "'e \<Rightarrow> i32"
  assumes complete: "e \<in> set es"
    and distinct_codes: "distinct (map code es)"
begin

lemma code_inject: "code a = code b \<longleftrightarrow> a = b"
  using complete distinct_codes by (metis distinct_map inj_onD)

lemma enum_of_code: "enum_of es code (code a) = Some a"
proof -
  have "\<exists>b. enum_of es code (code a) = Some b"
    using complete [of a] unfolding enum_of_def
    by (metis (mono_tags, lifting) find_None_iff option.exhaust)
  then obtain b where b: "enum_of es code (code a) = Some b" by blast
  then have "code b = code a" unfolding enum_of_def
    by (metis (mono_tags, lifting) find_Some_iff)
  with b show ?thesis by (simp add: code_inject)
qed

lemma enum_of_Some: "enum_of es code w = Some a \<longleftrightarrow> w = code a"
proof
  assume "enum_of es code w = Some a"
  then show "w = code a" unfolding enum_of_def
    by (metis (mono_tags, lifting) find_Some_iff)
qed (simp add: enum_of_code)

lemma enum_of_None: "enum_of es code w = None \<longleftrightarrow> w \<notin> range code"
  using enum_of_code by (metis enum_of_Some not_Some_eq rangeE rangeI)

end

datatype packet_kind = PACKET_AUTH | PACKET_DM | PACKET_SERVER | PACKET_CHANNEL | PACKET_SOCIAL

fun packet_kind_code :: "packet_kind \<Rightarrow> i32" where
  "packet_kind_code PACKET_AUTH = 0"
| "packet_kind_code PACKET_DM = 1"
| "packet_kind_code PACKET_SERVER = 2"
| "packet_kind_code PACKET_CHANNEL = 3"
| "packet_kind_code PACKET_SOCIAL = 4"

abbreviation packet_kind_of :: "i32 \<Rightarrow> packet_kind option" where
  "packet_kind_of \<equiv>
     enum_of [PACKET_AUTH, PACKET_DM, PACKET_SERVER, PACKET_CHANNEL, PACKET_SOCIAL] packet_kind_code"

interpretation kindE: c_enum
  "[PACKET_AUTH, PACKET_DM, PACKET_SERVER, PACKET_CHANNEL, PACKET_SOCIAL]" packet_kind_code
  by unfold_locales (use packet_kind.exhaust in auto)

datatype user_presence = STATUS_ONLINE | STATUS_OFFLINE

fun presence_code :: "user_presence \<Rightarrow> i32" where
  "presence_code STATUS_ONLINE = 0"
| "presence_code STATUS_OFFLINE = 1"

datatype response_code = RESP_OK | RESP_DONE | RESP_ERR_INVALID | RESP_ERR_UNAUTHORIZED
  | RESP_ERR_NOT_FOUND | RESP_ERR_CONFLICT | RESP_ERR_DB | RESP_ERR_INTERNAL

fun resp :: "response_code \<Rightarrow> i32" where
  "resp RESP_OK = 0"
| "resp RESP_DONE = 1"
| "resp RESP_ERR_INVALID = -1"
| "resp RESP_ERR_UNAUTHORIZED = -2"
| "resp RESP_ERR_NOT_FOUND = -3"
| "resp RESP_ERR_CONFLICT = -4"
| "resp RESP_ERR_DB = -5"
| "resp RESP_ERR_INTERNAL = -6"

interpretation respE: c_enum
  "[RESP_OK, RESP_DONE, RESP_ERR_INVALID, RESP_ERR_UNAUTHORIZED, RESP_ERR_NOT_FOUND,
    RESP_ERR_CONFLICT, RESP_ERR_DB, RESP_ERR_INTERNAL]" resp
  by unfold_locales (use response_code.exhaust in auto)

datatype list_frame_type = LIST_FRAME_SINGLE | LIST_FRAME_START | LIST_FRAME_MIDDLE | LIST_FRAME_END

fun frame_code :: "list_frame_type \<Rightarrow> i32" where
  "frame_code LIST_FRAME_SINGLE = 0"
| "frame_code LIST_FRAME_START = 1"
| "frame_code LIST_FRAME_MIDDLE = 2"
| "frame_code LIST_FRAME_END = 3"

interpretation frameE: c_enum
  "[LIST_FRAME_SINGLE, LIST_FRAME_START, LIST_FRAME_MIDDLE, LIST_FRAME_END]" frame_code
  by unfold_locales (use list_frame_type.exhaust in auto)

datatype auth_action = AUTH_LOGIN | AUTH_REGISTER | AUTH_LOGOUT

fun auth_code :: "auth_action \<Rightarrow> i32" where
  "auth_code AUTH_LOGIN = 0"
| "auth_code AUTH_REGISTER = 1"
| "auth_code AUTH_LOGOUT = 2"

abbreviation auth_action_of :: "i32 \<Rightarrow> auth_action option" where
  "auth_action_of \<equiv> enum_of [AUTH_LOGIN, AUTH_REGISTER, AUTH_LOGOUT] auth_code"

interpretation authE: c_enum "[AUTH_LOGIN, AUTH_REGISTER, AUTH_LOGOUT]" auth_code
  by unfold_locales (use auth_action.exhaust in auto)

datatype dm_action = DM_MESSAGE | DM_HISTORY_REQUEST

fun dm_code :: "dm_action \<Rightarrow> i32" where
  "dm_code DM_MESSAGE = 0"
| "dm_code DM_HISTORY_REQUEST = 1"

abbreviation dm_action_of :: "i32 \<Rightarrow> dm_action option" where
  "dm_action_of \<equiv> enum_of [DM_MESSAGE, DM_HISTORY_REQUEST] dm_code"

interpretation dmE: c_enum "[DM_MESSAGE, DM_HISTORY_REQUEST]" dm_code
  by unfold_locales (use dm_action.exhaust in auto)

datatype server_action = SERVER_JOIN | SERVER_LEAVE | SERVER_CREATE | SERVER_DELETE
  | SERVER_LIST | SERVER_LIST_CHANNELS | SERVER_LIST_MEMBERS | SERVER_LIST_JOINED
  | SERVER_KICK_MEMBER

fun server_code :: "server_action \<Rightarrow> i32" where
  "server_code SERVER_JOIN = 0"
| "server_code SERVER_LEAVE = 1"
| "server_code SERVER_CREATE = 2"
| "server_code SERVER_DELETE = 3"
| "server_code SERVER_LIST = 4"
| "server_code SERVER_LIST_CHANNELS = 5"
| "server_code SERVER_LIST_MEMBERS = 6"
| "server_code SERVER_LIST_JOINED = 7"
| "server_code SERVER_KICK_MEMBER = 8"

abbreviation server_action_of :: "i32 \<Rightarrow> server_action option" where
  "server_action_of \<equiv> enum_of [SERVER_JOIN, SERVER_LEAVE, SERVER_CREATE, SERVER_DELETE,
     SERVER_LIST, SERVER_LIST_CHANNELS, SERVER_LIST_MEMBERS, SERVER_LIST_JOINED,
     SERVER_KICK_MEMBER] server_code"

interpretation serverE: c_enum
  "[SERVER_JOIN, SERVER_LEAVE, SERVER_CREATE, SERVER_DELETE, SERVER_LIST, SERVER_LIST_CHANNELS,
    SERVER_LIST_MEMBERS, SERVER_LIST_JOINED, SERVER_KICK_MEMBER]" server_code
  by unfold_locales (use server_action.exhaust in auto)

datatype channel_action = CHANNEL_CREATE | CHANNEL_DELETE | CHANNEL_MESSAGE | CHANNEL_HISTORY_REQUEST

fun channel_code :: "channel_action \<Rightarrow> i32" where
  "channel_code CHANNEL_CREATE = 0"
| "channel_code CHANNEL_DELETE = 1"
| "channel_code CHANNEL_MESSAGE = 2"
| "channel_code CHANNEL_HISTORY_REQUEST = 3"

abbreviation channel_action_of :: "i32 \<Rightarrow> channel_action option" where
  "channel_action_of \<equiv> enum_of [CHANNEL_CREATE, CHANNEL_DELETE, CHANNEL_MESSAGE,
     CHANNEL_HISTORY_REQUEST] channel_code"

interpretation channelE: c_enum
  "[CHANNEL_CREATE, CHANNEL_DELETE, CHANNEL_MESSAGE, CHANNEL_HISTORY_REQUEST]" channel_code
  by unfold_locales (use channel_action.exhaust in auto)

datatype social_action = SOCIAL_FRIEND_REQUEST | SOCIAL_FRIEND_ACCEPT | SOCIAL_FRIEND_REJECT
  | SOCIAL_FRIEND_REMOVE | SOCIAL_LIST_FRIENDS | SOCIAL_LIST_USERS | SOCIAL_UPDATE_STATUS

fun social_code :: "social_action \<Rightarrow> i32" where
  "social_code SOCIAL_FRIEND_REQUEST = 0"
| "social_code SOCIAL_FRIEND_ACCEPT = 1"
| "social_code SOCIAL_FRIEND_REJECT = 2"
| "social_code SOCIAL_FRIEND_REMOVE = 3"
| "social_code SOCIAL_LIST_FRIENDS = 4"
| "social_code SOCIAL_LIST_USERS = 5"
| "social_code SOCIAL_UPDATE_STATUS = 6"

abbreviation social_action_of :: "i32 \<Rightarrow> social_action option" where
  "social_action_of \<equiv> enum_of [SOCIAL_FRIEND_REQUEST, SOCIAL_FRIEND_ACCEPT,
     SOCIAL_FRIEND_REJECT, SOCIAL_FRIEND_REMOVE, SOCIAL_LIST_FRIENDS, SOCIAL_LIST_USERS,
     SOCIAL_UPDATE_STATUS] social_code"

interpretation socialE: c_enum
  "[SOCIAL_FRIEND_REQUEST, SOCIAL_FRIEND_ACCEPT, SOCIAL_FRIEND_REJECT, SOCIAL_FRIEND_REMOVE,
    SOCIAL_LIST_FRIENDS, SOCIAL_LIST_USERS, SOCIAL_UPDATE_STATUS]" social_code
  by unfold_locales (use social_action.exhaust in auto)

section \<open>Payloads\<close>

record system_payload =
  sys_action :: i32
  sys_status :: i32
  sys_message :: string

record auth_payload =
  auth_action :: i32
  auth_status :: i32
  auth_username :: string
  auth_password :: string

record dm_payload =
  dm_action :: i32
  dm_status :: i32
  dm_recipient :: i32
  dm_message_id :: i64
  dm_message :: string

record server_payload =
  srv_action :: i32
  srv_server_id :: i64
  srv_target :: i64
  srv_status :: i32
  srv_member_count :: i32
  srv_name :: string

record channel_payload =
  ch_action :: i32
  ch_server_id :: i64
  ch_status :: i32
  ch_channel_id :: i64
  ch_name :: string
  ch_message_id :: i64
  ch_message :: string

record social_payload =
  soc_presence :: i32
  soc_action :: i32
  soc_status_code :: i32
  soc_target :: i64
  soc_username :: string
  soc_status_text :: string

text \<open>
  The union. A packet whose type is none of the five kinds uses the \<open>system\<close> member, so
  that constructor carries the type's value.
\<close>

datatype payload =
    Auth auth_payload
  | Dm dm_payload
  | Server server_payload
  | Channel channel_payload
  | Social social_payload
  | System i32 system_payload

record packet =
  sender_id :: i64
  list_id :: i32
  list_index :: i32
  list_total :: i32
  list_frame :: i32
  payload :: payload
  timestamp :: i64

fun payload_type :: "payload \<Rightarrow> i32" where
  "payload_type (Auth _) = packet_kind_code PACKET_AUTH"
| "payload_type (Dm _) = packet_kind_code PACKET_DM"
| "payload_type (Server _) = packet_kind_code PACKET_SERVER"
| "payload_type (Channel _) = packet_kind_code PACKET_CHANNEL"
| "payload_type (Social _) = packet_kind_code PACKET_SOCIAL"
| "payload_type (System t _) = t"

definition packet_type :: "packet \<Rightarrow> i32" where
  "packet_type p = payload_type (payload p)"

section \<open>Zeroed packets\<close>

text \<open>\<open>memset (&packet, 0, sizeof packet)\<close>, with the type set afterwards.\<close>

definition zero_system :: system_payload where
  "zero_system = \<lparr>sys_action = 0, sys_status = 0, sys_message = []\<rparr>"

definition zero_auth :: auth_payload where
  "zero_auth = \<lparr>auth_action = 0, auth_status = 0, auth_username = [], auth_password = []\<rparr>"

definition zero_dm :: dm_payload where
  "zero_dm = \<lparr>dm_action = 0, dm_status = 0, dm_recipient = 0, dm_message_id = 0, dm_message = []\<rparr>"

definition zero_server :: server_payload where
  "zero_server = \<lparr>srv_action = 0, srv_server_id = 0, srv_target = 0, srv_status = 0,
     srv_member_count = 0, srv_name = []\<rparr>"

definition zero_channel :: channel_payload where
  "zero_channel = \<lparr>ch_action = 0, ch_server_id = 0, ch_status = 0, ch_channel_id = 0,
     ch_name = [], ch_message_id = 0, ch_message = []\<rparr>"

definition zero_social :: social_payload where
  "zero_social = \<lparr>soc_presence = 0, soc_action = 0, soc_status_code = 0, soc_target = 0,
     soc_username = [], soc_status_text = []\<rparr>"

text \<open>The zeroed payload of a kind is the zeroed member of the union.\<close>

fun zero_payload :: "packet_kind \<Rightarrow> payload" where
  "zero_payload PACKET_AUTH = Auth zero_auth"
| "zero_payload PACKET_DM = Dm zero_dm"
| "zero_payload PACKET_SERVER = Server zero_server"
| "zero_payload PACKET_CHANNEL = Channel zero_channel"
| "zero_payload PACKET_SOCIAL = Social zero_social"

definition zero_packet :: "packet_kind \<Rightarrow> packet" where
  "zero_packet k = \<lparr>sender_id = 0, list_id = 0, list_index = 0, list_total = 0,
     list_frame = 0, payload = zero_payload k, timestamp = 0\<rparr>"

text \<open>\<open>create_base_packet\<close>: a zeroed packet of the given kind, stamped with the time.\<close>

definition create_base_packet :: "i64 \<Rightarrow> packet_kind \<Rightarrow> packet" where
  "create_base_packet now k = (zero_packet k)\<lparr>timestamp := now\<rparr>"

lemma packet_type_base: "packet_type (create_base_packet now k) = packet_kind_code k"
  by (cases k) (simp_all add: packet_type_def create_base_packet_def zero_packet_def)

lemmas zero_defs = zero_system_def zero_auth_def zero_dm_def zero_server_def zero_channel_def
  zero_social_def zero_packet_def

section \<open>Packets whose strings fit their arrays\<close>

fun payload_fits :: "payload \<Rightarrow> bool" where
  "payload_fits (Auth a) \<longleftrightarrow>
     fits MAX_NAME_LEN (auth_username a) \<and> fits PASSWORD_LEN (auth_password a)"
| "payload_fits (Dm d) \<longleftrightarrow> fits MESSAGE_LEN (dm_message d)"
| "payload_fits (Server v) \<longleftrightarrow> fits MAX_NAME_LEN (srv_name v)"
| "payload_fits (Channel c) \<longleftrightarrow>
     fits MAX_NAME_LEN (ch_name c) \<and> fits MESSAGE_LEN (ch_message c)"
| "payload_fits (Social v) \<longleftrightarrow>
     fits MAX_NAME_LEN (soc_username v) \<and> fits (PROFILE_STATUS_LEN + 1) (soc_status_text v)"
| "payload_fits (System t y) \<longleftrightarrow>
     fits SYSTEM_MESSAGE_LEN (sys_message y) \<and> t \<notin> range packet_kind_code"

definition packet_fits :: "packet \<Rightarrow> bool" where
  "packet_fits p \<longleftrightarrow> payload_fits (payload p)"

end
