(* ===== verification/Database.thy ===== *)
theory Database
  imports Protocol
begin

text \<open>
  The tables of \<^verbatim>\<open>db/schema.sql\<close> and the statements of \<^verbatim>\<open>server/db.c\<close>. A table is the list
  of its rows in scan order; the columns no statement reads (\<open>created_at\<close> of most tables,
  the unused table \<open>sessions\<close>) are left out. A write checks the constraints of the schema
  (UNIQUE, CHECK, foreign keys, which \<open>db_connect\<close> turns on) and cascades deletions.

  SQLite and the other libraries are an argument, the record \<open>env\<close>: whether a statement can
  be prepared, after how many rows its execution fails, the row id of the next insert, the
  time. A statement that fails leaves the tables as they were. Functions that can fail
  without an effect return an option; the others return their C result with the tables.
\<close>

section \<open>The world outside\<close>

datatype sql = SELECT_ADMIN | INSERT_USER | SELECT_HASH | SELECT_USER_ID | INSERT_MESSAGE
  | INSERT_DM | SELECT_DMS | SELECT_SERVER | INSERT_SERVER | INSERT_MEMBER | DELETE_MEMBER
  | DELETE_SERVER | SELECT_SERVERS | SELECT_CHANNELS | SELECT_MEMBERS | SELECT_JOINED
  | KICK_MEMBER | SELECT_FRIENDS | INSERT_FRIEND | SELECT_ACCEPTED | UPDATE_ACCEPTED
  | DELETE_RECIPROCAL | SELECT_FRIENDSHIP | DELETE_FRIENDSHIP | SELECT_PENDING
  | DELETE_PENDING | SELECT_REQUESTS | SELECT_MESSAGES | INSERT_CHANNEL | SELECT_CHANNEL_ID
  | DELETE_CHANNEL | SELECT_CHANNEL_SERVER | SELECT_USERS | UPDATE_STATUS

text \<open>
  \<open>fault env st = Some k\<close>: executing the statement fails once it has delivered \<open>k\<close> rows.
  \<open>send_ok env log fd\<close>: whether \<open>packet_send\<close> to a socket succeeds after the packets of
  the log. \<open>gensalt\<close> and \<open>crypt\<close> are the functions of \<^verbatim>\<open>crypt.h\<close>, \<open>None\<close> their NULL.
  \<open>local_time t\<close> is the hour and minute that \<open>localtime\<close> and \<open>strftime\<close> make of a time in the
  host's time zone, \<open>None\<close> the NULL of \<open>localtime\<close> for a time that no calendar year holds.
\<close>

record env =
  now :: i64
  prepare_ok :: "sql \<Rightarrow> bool"
  fault :: "sql \<Rightarrow> nat option"
  new_rowid :: "i64 list \<Rightarrow> i64"
  send_ok :: "(int \<times> packet) list \<Rightarrow> int \<Rightarrow> bool"
  gensalt :: "string option"
  crypt :: "string \<Rightarrow> string \<Rightarrow> string option"
  local_time :: "i64 \<Rightarrow> string option"

section \<open>Tables\<close>

record user_row =
  u_id :: i64
  u_name :: string
  u_email :: string
  u_hash :: string
  u_status :: string

record friend_row =
  f_id :: i64
  f_user :: i64
  f_friend :: i64
  f_accepted :: bool

record server_row =
  s_id :: i64
  s_name :: string

record member_row =
  m_id :: i64
  m_server :: i64
  m_user :: i64
  m_admin :: bool

record channel_row =
  c_id :: i64
  c_server :: i64
  c_name :: string

record message_row =
  g_id :: i64
  g_channel :: i64
  g_user :: i64
  g_content :: string
  g_created :: i64

record dm_row =
  d_id :: i64
  d_sender :: i64
  d_receiver :: i64
  d_content :: string
  d_created :: i64

record db =
  users :: "user_row list"
  friends :: "friend_row list"
  servers :: "server_row list"
  members :: "member_row list"
  channels :: "channel_row list"
  messages :: "message_row list"
  dms :: "dm_row list"

definition empty_db :: db where
  "empty_db = \<lparr>users = [], friends = [], servers = [], members = [], channels = [],
     messages = [], dms = []\<rparr>"

section \<open>Executing statements\<close>

text \<open>The rows a SELECT delivers before it ends, and whether it ends with \<open>SQLITE_DONE\<close>.\<close>

definition step_rows :: "env \<Rightarrow> sql \<Rightarrow> 'r list \<Rightarrow> 'r list \<times> bool" where
  "step_rows env st rows =
     (case fault env st of None \<Rightarrow> (rows, True) | Some k \<Rightarrow> (take k rows, False))"

text \<open>The first row, where the C code makes a single \<open>sqlite3_step\<close>.\<close>

definition first_row :: "env \<Rightarrow> sql \<Rightarrow> 'r list \<Rightarrow> 'r option" where
  "first_row env st rows =
     (if prepare_ok env st then (case fst (step_rows env st rows) of [] \<Rightarrow> None | r # _ \<Rightarrow> Some r)
      else None)"

text \<open>A write statement takes effect, or fails and has none.\<close>

definition write_ok :: "env \<Rightarrow> sql \<Rightarrow> bool" where
  "write_ok env st \<longleftrightarrow> prepare_ok env st \<and> fault env st = None"

text \<open>
  An INSERT that meets its constraints gets a fresh positive row id; when SQLite finds none
  (\<open>SQLITE_FULL\<close>), it fails.
\<close>

definition insert_id :: "env \<Rightarrow> sql \<Rightarrow> bool \<Rightarrow> i64 list \<Rightarrow> i64 option" where
  "insert_id env st constraints ids =
     (let r = new_rowid env ids in
      if write_ok env st \<and> constraints \<and> r \<notin> set ids \<and> 0 <s r then Some r else None)"

section \<open>Users\<close>

definition db_create_user :: "env \<Rightarrow> db \<Rightarrow> string \<Rightarrow> string \<Rightarrow> i64 option \<times> db" where
  "db_create_user env db username password_hash =
     (let email = take 255 (username @ ''@dummy.com'') in
      case insert_id env INSERT_USER
             (username \<notin> set (map u_name (users db)) \<and> email \<notin> set (map u_email (users db)))
             (map u_id (users db)) of
        None \<Rightarrow> (None, db)
      | Some r \<Rightarrow> (Some r, db\<lparr>users := users db @ [\<lparr>u_id = r, u_name = username, u_email = email,
          u_hash = password_hash, u_status = []\<rparr>]\<rparr>))"

text \<open>The id and the stored hash of a user.\<close>

definition db_get_password_hash :: "env \<Rightarrow> db \<Rightarrow> string \<Rightarrow> (i64 \<times> string) option" where
  "db_get_password_hash env db username =
     map_option (\<lambda>u. (u_id u, u_hash u))
       (first_row env SELECT_HASH (filter (\<lambda>u. u_name u = username) (users db)))"

definition db_get_user_id_by_name :: "env \<Rightarrow> db \<Rightarrow> string \<Rightarrow> i64 option" where
  "db_get_user_id_by_name env db username =
     map_option u_id (first_row env SELECT_USER_ID (filter (\<lambda>u. u_name u = username) (users db)))"

text \<open>\<open>ORDER BY username ASC\<close> compares bytes.\<close>

definition db_list_all_users :: "env \<Rightarrow> db \<Rightarrow> int \<times> (i64 \<times> string \<times> string) list" where
  "db_list_all_users env db =
     (if \<not> prepare_ok env SELECT_USERS then (-1, [])
      else case step_rows env SELECT_USERS
             (map (\<lambda>u. (u_id u, u_name u, u_status u)) (sort_key u_name (users db))) of
        (rows, ok) \<Rightarrow> (if ok then 0 else -1, rows))"

definition db_update_user_status :: "env \<Rightarrow> db \<Rightarrow> i64 \<Rightarrow> string \<Rightarrow> int \<times> db" where
  "db_update_user_status env db user_id status =
     (if write_ok env UPDATE_STATUS \<and> (length status \<le> 64 \<or> user_id \<notin> set (map u_id (users db)))
      then (if user_id \<in> set (map u_id (users db)) then 0 else -1,
            db\<lparr>users := map (\<lambda>u. if u_id u = user_id then u\<lparr>u_status := status\<rparr> else u) (users db)\<rparr>)
      else (-1, db))"

section \<open>Messages\<close>

definition db_save_message :: "env \<Rightarrow> db \<Rightarrow> i64 \<Rightarrow> i64 \<Rightarrow> string \<Rightarrow> int \<times> db" where
  "db_save_message env db channel_id user_id content =
     (case insert_id env INSERT_MESSAGE
             (channel_id \<in> set (map c_id (channels db)) \<and> user_id \<in> set (map u_id (users db)))
             (map g_id (messages db)) of
        None \<Rightarrow> (-1, db)
      | Some r \<Rightarrow> (0, db\<lparr>messages := messages db @ [\<lparr>g_id = r, g_channel = channel_id,
          g_user = user_id, g_content = content, g_created = now env\<rparr>]\<rparr>))"

definition db_save_direct_message :: "env \<Rightarrow> db \<Rightarrow> i64 \<Rightarrow> i64 \<Rightarrow> string \<Rightarrow> int \<times> db" where
  "db_save_direct_message env db sender receiver content =
     (case insert_id env INSERT_DM
             (sender \<in> set (map u_id (users db)) \<and> receiver \<in> set (map u_id (users db)))
             (map d_id (dms db)) of
        None \<Rightarrow> (-1, db)
      | Some r \<Rightarrow> (0, db\<lparr>dms := dms db @ [\<lparr>d_id = r, d_sender = sender, d_receiver = receiver,
          d_content = content, d_created = now env\<rparr>]\<rparr>))"

text \<open>
  The conversation of two users: the joined rows, the last 50 by id, in ascending order.
  A row is the message id, the two names, the content and the time.
\<close>

definition conversation :: "db \<Rightarrow> i64 \<Rightarrow> i64 \<Rightarrow> (i64 \<times> string \<times> string \<times> string \<times> i64) list" where
  "conversation db a b =
     [(d_id d, u_name s, u_name r, d_content d, d_created d).
        d \<leftarrow> dms db, s \<leftarrow> users db, d_sender d = u_id s, r \<leftarrow> users db, d_receiver d = u_id r,
        d_sender d = a \<and> d_receiver d = b \<or> d_sender d = b \<and> d_receiver d = a]"

definition db_list_direct_messages ::
  "env \<Rightarrow> db \<Rightarrow> i64 \<Rightarrow> i64 \<Rightarrow> int \<times> (i64 \<times> string \<times> string \<times> string \<times> i64) list" where
  "db_list_direct_messages env db sender receiver =
     (if \<not> prepare_ok env SELECT_DMS then (-1, [])
      else (0, fst (step_rows env SELECT_DMS
             (sort_key (\<lambda>r. sint (fst r))
               (take 50 (sort_key (\<lambda>r. - sint (fst r)) (conversation db sender receiver)))))))"

text \<open>
  The whole history of a channel: the joined rows (the message id, the author, the content,
  the time), ordered as the nested query says.
\<close>

definition message_rows :: "user_row list \<Rightarrow> i64 \<Rightarrow> message_row \<Rightarrow> (i64 \<times> string \<times> string \<times> i64) list" where
  "message_rows us channel_id g =
     [(g_id g, u_name u, g_content g, g_created g). u \<leftarrow> us, g_user g = u_id u, g_channel g = channel_id]"

definition channel_log :: "db \<Rightarrow> i64 \<Rightarrow> (i64 \<times> string \<times> string \<times> i64) list" where
  "channel_log db channel_id = concat (map (message_rows (users db) channel_id) (messages db))"

definition db_list_channel_messages ::
  "env \<Rightarrow> db \<Rightarrow> i64 \<Rightarrow> int \<times> (i64 \<times> string \<times> string \<times> i64) list" where
  "db_list_channel_messages env db channel_id =
     (if \<not> prepare_ok env SELECT_MESSAGES then (-1, [])
      else (0, fst (step_rows env SELECT_MESSAGES
             (sort_key (\<lambda>(_, _, _, t). sint t)
               (sort_key (\<lambda>(_, _, _, t). - sint t) (channel_log db channel_id))))))"

section \<open>Servers and their members\<close>

definition db_user_is_server_admin :: "env \<Rightarrow> db \<Rightarrow> i64 \<Rightarrow> i64 \<Rightarrow> bool option" where
  "db_user_is_server_admin env db server_id user_id =
     map_option m_admin (first_row env SELECT_ADMIN
       (filter (\<lambda>m. m_server m = server_id \<and> m_user m = user_id) (members db)))"

definition db_get_server :: "env \<Rightarrow> db \<Rightarrow> string \<Rightarrow> i64 option" where
  "db_get_server env db name =
     map_option s_id (first_row env SELECT_SERVER (filter (\<lambda>s. s_name s = name) (servers db)))"

definition db_join_server :: "env \<Rightarrow> db \<Rightarrow> i64 \<Rightarrow> i64 \<Rightarrow> bool \<Rightarrow> int \<times> db" where
  "db_join_server env db server_id user_id is_admin =
     (case insert_id env INSERT_MEMBER
             ((server_id, user_id) \<notin> set (map (\<lambda>m. (m_server m, m_user m)) (members db)) \<and>
              server_id \<in> set (map s_id (servers db)) \<and> user_id \<in> set (map u_id (users db)))
             (map m_id (members db)) of
        None \<Rightarrow> (-1, db)
      | Some r \<Rightarrow> (0, db\<lparr>members := members db @ [\<lparr>m_id = r, m_server = server_id,
          m_user = user_id, m_admin = is_admin\<rparr>]\<rparr>))"

text \<open>Two statements without a transaction: when the second fails, the new server stays.\<close>

definition db_create_server :: "env \<Rightarrow> db \<Rightarrow> string \<Rightarrow> i64 \<Rightarrow> int \<times> db" where
  "db_create_server env db name user_id =
     (case insert_id env INSERT_SERVER (name \<notin> set (map s_name (servers db)))
             (map s_id (servers db)) of
        None \<Rightarrow> (-1, db)
      | Some r \<Rightarrow> db_join_server env
          (db\<lparr>servers := servers db @ [\<lparr>s_id = r, s_name = name\<rparr>]\<rparr>) r user_id True)"

definition delete_members :: "i64 \<Rightarrow> i64 \<Rightarrow> db \<Rightarrow> db" where
  "delete_members server_id user_id db =
     db\<lparr>members := filter (\<lambda>m. \<not> (m_server m = server_id \<and> m_user m = user_id)) (members db)\<rparr>"

definition db_leave_server :: "env \<Rightarrow> db \<Rightarrow> i64 \<Rightarrow> i64 \<Rightarrow> int \<times> db" where
  "db_leave_server env db server_id user_id =
     (if write_ok env DELETE_MEMBER then (0, delete_members server_id user_id db) else (-1, db))"

text \<open>\<open>ON DELETE CASCADE\<close>: the members, the channels and their messages go with a server.\<close>

definition delete_server_rows :: "i64 \<Rightarrow> db \<Rightarrow> db" where
  "delete_server_rows server_id db =
     (let gone = map c_id (filter (\<lambda>c. c_server c = server_id) (channels db)) in
      db\<lparr>servers := filter (\<lambda>s. s_id s \<noteq> server_id) (servers db),
         members := filter (\<lambda>m. m_server m \<noteq> server_id) (members db),
         channels := filter (\<lambda>c. c_server c \<noteq> server_id) (channels db),
         messages := filter (\<lambda>g. g_channel g \<notin> set gone) (messages db)\<rparr>)"

definition db_delete_server :: "env \<Rightarrow> db \<Rightarrow> i64 \<Rightarrow> i64 \<Rightarrow> int \<times> db" where
  "db_delete_server env db server_id user_id =
     (if db_user_is_server_admin env db server_id user_id = None then (-1, db)
      else if write_ok env DELETE_SERVER then (0, delete_server_rows server_id db)
      else (-1, db))"

text \<open>The number of a server's members, read with \<open>sqlite3_column_int\<close>.\<close>

definition member_count :: "db \<Rightarrow> i64 \<Rightarrow> i32" where
  "member_count db server_id = of_nat (length (filter (\<lambda>m. m_server m = server_id) (members db)))"

definition db_list_servers :: "env \<Rightarrow> db \<Rightarrow> int \<times> (i64 \<times> string \<times> i32) list" where
  "db_list_servers env db =
     (if \<not> prepare_ok env SELECT_SERVERS then (-1, [])
      else (0, fst (step_rows env SELECT_SERVERS
             (map (\<lambda>s. (s_id s, s_name s, member_count db (s_id s)))
               (sort_key s_name (servers db))))))"

definition db_list_server_channels :: "env \<Rightarrow> db \<Rightarrow> i64 \<Rightarrow> int \<times> (i64 \<times> string) list" where
  "db_list_server_channels env db server_id =
     (if \<not> prepare_ok env SELECT_CHANNELS then (-1, [])
      else case step_rows env SELECT_CHANNELS
             (map (\<lambda>c. (c_id c, c_name c))
               (sort_key c_name (filter (\<lambda>c. c_server c = server_id) (channels db)))) of
        (rows, ok) \<Rightarrow> (if ok then 0 else -1, rows))"

definition db_list_server_members :: "env \<Rightarrow> db \<Rightarrow> i64 \<Rightarrow> int \<times> (i64 \<times> string \<times> bool) list" where
  "db_list_server_members env db server_id =
     (if \<not> prepare_ok env SELECT_MEMBERS then (-1, [])
      else case step_rows env SELECT_MEMBERS
             (sort_key (\<lambda>(_, name, _). name)
               [(u_id u, u_name u, m_admin m).
                  m \<leftarrow> members db, u \<leftarrow> users db, u_id u = m_user m, m_server m = server_id]) of
        (rows, ok) \<Rightarrow> (if ok then 0 else -1, rows))"

definition db_list_joined_servers :: "env \<Rightarrow> db \<Rightarrow> i64 \<Rightarrow> int \<times> (i64 \<times> string \<times> i32) list" where
  "db_list_joined_servers env db user_id =
     (if \<not> prepare_ok env SELECT_JOINED then (-1, [])
      else case step_rows env SELECT_JOINED
             (sort_key (\<lambda>(_, name, _). name)
               [(s_id s, s_name s, member_count db (s_id s)).
                  m \<leftarrow> members db, s \<leftarrow> servers db, s_id s = m_server m, m_user m = user_id]) of
        (rows, ok) \<Rightarrow> (if ok then 0 else -1, rows))"

definition db_kick_server_member :: "env \<Rightarrow> db \<Rightarrow> i64 \<Rightarrow> i64 \<Rightarrow> int \<times> db" where
  "db_kick_server_member env db server_id user_id =
     (if db_user_is_server_admin env db server_id user_id = None then (-1, db)
      else if write_ok env KICK_MEMBER
      then (if (server_id, user_id) \<in> set (map (\<lambda>m. (m_server m, m_user m)) (members db)) then 0 else -1,
            delete_members server_id user_id db)
      else (-1, db))"

section \<open>Channels\<close>

definition db_create_channel :: "env \<Rightarrow> db \<Rightarrow> i64 \<Rightarrow> string \<Rightarrow> i64 option \<times> db" where
  "db_create_channel env db server_id name =
     (case insert_id env INSERT_CHANNEL
             ((server_id, name) \<notin> set (map (\<lambda>c. (c_server c, c_name c)) (channels db)) \<and>
              server_id \<in> set (map s_id (servers db)))
             (map c_id (channels db)) of
        None \<Rightarrow> (None, db)
      | Some r \<Rightarrow> (Some r, db\<lparr>channels := channels db @
          [\<lparr>c_id = r, c_server = server_id, c_name = name\<rparr>]\<rparr>))"

definition db_get_channel_id :: "env \<Rightarrow> db \<Rightarrow> i64 \<Rightarrow> string \<Rightarrow> i64 option" where
  "db_get_channel_id env db server_id name =
     map_option c_id (first_row env SELECT_CHANNEL_ID
       (filter (\<lambda>c. c_server c = server_id \<and> c_name c = name) (channels db)))"

definition delete_channel_rows :: "i64 \<Rightarrow> db \<Rightarrow> db" where
  "delete_channel_rows channel_id db =
     db\<lparr>channels := filter (\<lambda>c. c_id c \<noteq> channel_id) (channels db),
        messages := filter (\<lambda>g. g_channel g \<noteq> channel_id) (messages db)\<rparr>"

definition db_delete_channel :: "env \<Rightarrow> db \<Rightarrow> i64 \<Rightarrow> int \<times> db" where
  "db_delete_channel env db channel_id =
     (if write_ok env DELETE_CHANNEL then (0, delete_channel_rows channel_id db) else (-1, db))"

definition db_get_channel_server_id :: "env \<Rightarrow> db \<Rightarrow> i64 \<Rightarrow> i64 option" where
  "db_get_channel_server_id env db channel_id =
     map_option c_server (first_row env SELECT_CHANNEL_SERVER
       (filter (\<lambda>c. c_id c = channel_id) (channels db)))"

section \<open>A concrete world\<close>

text \<open>
  The examples of the development run in a world where everything works, row ids count up
  and a password hash is the password behind a dollar sign, on a database with two users, a
  server administered by the first, and its one channel.
\<close>

definition sample_env :: env where
  "sample_env = \<lparr>now = 7, prepare_ok = (\<lambda>_. True), fault = (\<lambda>_. None),
     new_rowid = (\<lambda>ids. of_nat (length ids) + 1), send_ok = (\<lambda>_ _. True),
     gensalt = Some ''$'', crypt = (\<lambda>password setting. Some (take 1 setting @ password)),
     local_time = (\<lambda>_. Some ''12:00'')\<rparr>"

definition sample_db :: db where
  "sample_db = empty_db\<lparr>
     users := [\<lparr>u_id = 1, u_name = ''ann'', u_email = ''ann@dummy.com'', u_hash = ''$pw'', u_status = []\<rparr>,
               \<lparr>u_id = 2, u_name = ''bob'', u_email = ''bob@dummy.com'', u_hash = ''$pw'', u_status = []\<rparr>],
     servers := [\<lparr>s_id = 1, s_name = ''home''\<rparr>],
     members := [\<lparr>m_id = 1, m_server = 1, m_user = 1, m_admin = True\<rparr>],
     channels := [\<lparr>c_id = 1, c_server = 1, c_name = ''talk''\<rparr>]\<rparr>"

lemmas sample_defs = sample_env_def sample_db_def empty_db_def

end
