(* ===== verification/Client.thy ===== *)
theory Client
  imports Database
begin

text \<open>
  The requests of the client, \<^verbatim>\<open>client/client.c\<close>: every function builds one packet from its
  arguments and hands it to \<open>packet_send\<close>. The state is the global \<open>client_socket\<close> and the log
  of the packets handed over; it is extensible, the user interface adds its own globals.
\<close>

section \<open>The connection\<close>

record conn =
  client_socket :: int
  requests :: "(int \<times> packet) list"

text \<open>What opening the connection comes to: the system calls in the order they are made.\<close>

datatype connect_event = Socket_fails | Bad_address | Connect_fails | Connected int

fun connect_to_server :: "connect_event \<Rightarrow> 'a conn_scheme \<Rightarrow> 'a conn_scheme" where
  "connect_to_server (Connected fd) c = c\<lparr>client_socket := fd\<rparr>"
| "connect_to_server _ c = c\<lparr>client_socket := -1\<rparr>"

definition hand_over :: "env \<Rightarrow> int \<Rightarrow> packet \<Rightarrow> 'a conn_scheme \<Rightarrow> int \<times> 'a conn_scheme" where
  "hand_over env fd p c = (if send_ok env (requests c) fd then 0 else -1, c\<lparr>requests := requests c @ [(fd, p)]\<rparr>)"

definition safe_send_packet :: "env \<Rightarrow> int \<Rightarrow> packet \<Rightarrow> 'a conn_scheme \<Rightarrow> int \<times> 'a conn_scheme" where
  "safe_send_packet env fd p c =
     (if fd < 0 then (-1, c)
      else case hand_over env fd p c of (r, c') \<Rightarrow> (if r \<noteq> 0 then -1 else 0, c'))"

text \<open>The call whose result is not used, for a packet with the given payload.\<close>

definition base_request :: "env \<Rightarrow> packet_kind \<Rightarrow> payload \<Rightarrow> packet" where
  "base_request env k pl = (create_base_packet (now env) k)\<lparr>payload := pl\<rparr>"

definition submit :: "env \<Rightarrow> packet \<Rightarrow> 'a conn_scheme \<Rightarrow> 'a conn_scheme" where
  "submit env p c = snd (safe_send_packet env (client_socket c) p c)"

section \<open>Accounts\<close>

definition credentials :: "auth_action \<Rightarrow> string \<Rightarrow> string \<Rightarrow> payload" where
  "credentials a name password = Auth (zero_auth\<lparr>auth_action := auth_code a,
     auth_username := strncpy0 (MAX_NAME_LEN - 1) name, auth_password := strncpy0 (PASSWORD_LEN - 1) password\<rparr>)"

definition send_register :: "env \<Rightarrow> string \<Rightarrow> string \<Rightarrow> 'a conn_scheme \<Rightarrow> int \<times> 'a conn_scheme" where
  "send_register env name password c =
     safe_send_packet env (client_socket c) (base_request env PACKET_AUTH (credentials AUTH_REGISTER name password)) c"

definition send_login :: "env \<Rightarrow> string \<Rightarrow> string \<Rightarrow> 'a conn_scheme \<Rightarrow> int \<times> 'a conn_scheme" where
  "send_login env name password c =
     (0, submit env (base_request env PACKET_AUTH (credentials AUTH_LOGIN name password)) c)"

text \<open>The one request that goes to \<open>packet_send\<close> without a look at the socket.\<close>

definition send_logout :: "env \<Rightarrow> 'a conn_scheme \<Rightarrow> 'a conn_scheme" where
  "send_logout env c = snd (hand_over env (client_socket c)
     (base_request env PACKET_AUTH (Auth (zero_auth\<lparr>auth_action := auth_code AUTH_LOGOUT\<rparr>))) c)"

section \<open>Servers\<close>

definition server_request :: "env \<Rightarrow> server_action \<Rightarrow> i64 \<Rightarrow> i64 \<Rightarrow> string \<Rightarrow> packet" where
  "server_request env a server_id target name = base_request env PACKET_SERVER
     (Server (zero_server\<lparr>srv_action := server_code a, srv_server_id := server_id, srv_target := target,
        srv_name := strncpy0 (MAX_NAME_LEN - 1) name\<rparr>))"

definition create_server :: "env \<Rightarrow> string \<Rightarrow> 'a conn_scheme \<Rightarrow> 'a conn_scheme" where
  "create_server env name = submit env (server_request env SERVER_CREATE 0 0 name)"

text \<open>Two functions take the server's id as an \<open>int\<close>; the field of the packet has 64 bits.\<close>

definition leave_server :: "env \<Rightarrow> i32 \<Rightarrow> 'a conn_scheme \<Rightarrow> 'a conn_scheme" where
  "leave_server env server_id = submit env (server_request env SERVER_LEAVE (to_i64 server_id) 0 [])"

definition kick_member_request :: "env \<Rightarrow> i64 \<Rightarrow> i64 \<Rightarrow> 'a conn_scheme \<Rightarrow> 'a conn_scheme" where
  "kick_member_request env server_id target =
     submit env (server_request env SERVER_KICK_MEMBER server_id target [])"

definition delete_server :: "env \<Rightarrow> i64 \<Rightarrow> 'a conn_scheme \<Rightarrow> 'a conn_scheme" where
  "delete_server env server_id = submit env (server_request env SERVER_DELETE server_id 0 [])"

definition join_server :: "env \<Rightarrow> i64 \<Rightarrow> 'a conn_scheme \<Rightarrow> 'a conn_scheme" where
  "join_server env server_id = submit env (server_request env SERVER_JOIN server_id 0 [])"

definition list_joined_servers_request :: "env \<Rightarrow> 'a conn_scheme \<Rightarrow> 'a conn_scheme" where
  "list_joined_servers_request env = submit env (server_request env SERVER_LIST_JOINED 0 0 [])"

definition list_all_servers_request :: "env \<Rightarrow> 'a conn_scheme \<Rightarrow> 'a conn_scheme" where
  "list_all_servers_request env = submit env (server_request env SERVER_LIST 0 0 [])"

definition request_server_channels :: "env \<Rightarrow> i64 \<Rightarrow> 'a conn_scheme \<Rightarrow> 'a conn_scheme" where
  "request_server_channels env server_id = submit env (server_request env SERVER_LIST_CHANNELS server_id 0 [])"

definition request_server_members :: "env \<Rightarrow> i64 \<Rightarrow> 'a conn_scheme \<Rightarrow> 'a conn_scheme" where
  "request_server_members env server_id = submit env (server_request env SERVER_LIST_MEMBERS server_id 0 [])"

section \<open>Channels\<close>

definition channel_request :: "env \<Rightarrow> channel_payload \<Rightarrow> packet" where
  "channel_request env c = base_request env PACKET_CHANNEL (Channel c)"

definition create_channel :: "env \<Rightarrow> i32 \<Rightarrow> string \<Rightarrow> 'a conn_scheme \<Rightarrow> 'a conn_scheme" where
  "create_channel env server_id name = submit env (channel_request env
     (zero_channel\<lparr>ch_action := channel_code CHANNEL_CREATE, ch_server_id := to_i64 server_id,
        ch_name := strncpy0 (MAX_NAME_LEN - 1) name\<rparr>))"

definition delete_channel :: "env \<Rightarrow> i64 \<Rightarrow> 'a conn_scheme \<Rightarrow> 'a conn_scheme" where
  "delete_channel env channel_id = submit env (channel_request env
     (zero_channel\<lparr>ch_action := channel_code CHANNEL_DELETE, ch_channel_id := channel_id\<rparr>))"

definition request_channel_history :: "env \<Rightarrow> i64 \<Rightarrow> 'a conn_scheme \<Rightarrow> 'a conn_scheme" where
  "request_channel_history env channel_id = submit env (channel_request env
     (zero_channel\<lparr>ch_action := channel_code CHANNEL_HISTORY_REQUEST, ch_channel_id := channel_id\<rparr>))"

definition send_channel_message :: "env \<Rightarrow> i64 \<Rightarrow> string \<Rightarrow> 'a conn_scheme \<Rightarrow> 'a conn_scheme" where
  "send_channel_message env channel_id message = submit env (channel_request env
     (zero_channel\<lparr>ch_action := channel_code CHANNEL_MESSAGE, ch_channel_id := channel_id,
        ch_message := strncpy0 (MESSAGE_LEN - 1) message\<rparr>))"

section \<open>Friends and profiles\<close>

definition social_request :: "env \<Rightarrow> social_action \<Rightarrow> string \<Rightarrow> string \<Rightarrow> packet" where
  "social_request env a name status_text = base_request env PACKET_SOCIAL
     (Social (zero_social\<lparr>soc_action := social_code a, soc_username := strncpy0 (MAX_NAME_LEN - 1) name,
        soc_status_text := strncpy0 PROFILE_STATUS_LEN status_text\<rparr>))"

definition send_friend_request :: "env \<Rightarrow> string \<Rightarrow> 'a conn_scheme \<Rightarrow> 'a conn_scheme" where
  "send_friend_request env name = submit env (social_request env SOCIAL_FRIEND_REQUEST name [])"

definition accept_friend_request :: "env \<Rightarrow> string \<Rightarrow> 'a conn_scheme \<Rightarrow> 'a conn_scheme" where
  "accept_friend_request env name = submit env (social_request env SOCIAL_FRIEND_ACCEPT name [])"

definition unfriend_request :: "env \<Rightarrow> string \<Rightarrow> 'a conn_scheme \<Rightarrow> 'a conn_scheme" where
  "unfriend_request env name = submit env (social_request env SOCIAL_FRIEND_REMOVE name [])"

definition reject_friend_request :: "env \<Rightarrow> string \<Rightarrow> 'a conn_scheme \<Rightarrow> 'a conn_scheme" where
  "reject_friend_request env name = submit env (social_request env SOCIAL_FRIEND_REJECT name [])"

definition send_status_update :: "env \<Rightarrow> string \<Rightarrow> 'a conn_scheme \<Rightarrow> 'a conn_scheme" where
  "send_status_update env status_text = submit env (social_request env SOCIAL_UPDATE_STATUS [] status_text)"

definition request_friend_list :: "env \<Rightarrow> 'a conn_scheme \<Rightarrow> 'a conn_scheme" where
  "request_friend_list env = submit env (social_request env SOCIAL_LIST_FRIENDS [] [])"

definition request_user_list :: "env \<Rightarrow> 'a conn_scheme \<Rightarrow> 'a conn_scheme" where
  "request_user_list env = submit env (social_request env SOCIAL_LIST_USERS [] [])"

section \<open>Direct messages\<close>

text \<open>The recipient's field has 32 bits; the ids of users have 64.\<close>

definition dm_request :: "env \<Rightarrow> dm_action \<Rightarrow> i64 \<Rightarrow> string \<Rightarrow> packet" where
  "dm_request env a recipient message = base_request env PACKET_DM (Dm (zero_dm\<lparr>dm_action := dm_code a,
     dm_recipient := to_i32 recipient, dm_message := strncpy0 (MESSAGE_LEN - 1) message\<rparr>))"

definition send_dm_message :: "env \<Rightarrow> i64 \<Rightarrow> string \<Rightarrow> 'a conn_scheme \<Rightarrow> 'a conn_scheme" where
  "send_dm_message env recipient message = submit env (dm_request env DM_MESSAGE recipient message)"

definition request_dm_history :: "env \<Rightarrow> i64 \<Rightarrow> 'a conn_scheme \<Rightarrow> 'a conn_scheme" where
  "request_dm_history env friend_id c =
     (if client_socket c < 0 then c else submit env (dm_request env DM_HISTORY_REQUEST friend_id []) c)"

section \<open>What a request does\<close>

text \<open>Connected, a request is one more packet in the log; not connected, it is nothing.\<close>

lemma submit_eq:
  "submit env p c = c\<lparr>requests := requests c @ (if client_socket c < 0 then [] else [(client_socket c, p)])\<rparr>"
  by (simp add: submit_def safe_send_packet_def hand_over_def)

lemma send_register_eq:
  "snd (send_register env name password c) =
     submit env (base_request env PACKET_AUTH (credentials AUTH_REGISTER name password)) c"
  by (simp add: send_register_def submit_def)

lemma send_login_eq:
  "snd (send_login env name password c) =
     submit env (base_request env PACKET_AUTH (credentials AUTH_LOGIN name password)) c"
  by (simp add: send_login_def)

lemma send_logout_eq:
  "send_logout env c = c\<lparr>requests := requests c @ [(client_socket c,
     base_request env PACKET_AUTH (Auth (zero_auth\<lparr>auth_action := auth_code AUTH_LOGOUT\<rparr>)))]\<rparr>"
  by (simp add: send_logout_def hand_over_def)

lemmas request_defs = create_server_def leave_server_def kick_member_request_def delete_server_def
  join_server_def list_joined_servers_request_def list_all_servers_request_def
  request_server_channels_def request_server_members_def create_channel_def delete_channel_def
  request_channel_history_def send_channel_message_def send_friend_request_def
  accept_friend_request_def unfriend_request_def reject_friend_request_def send_status_update_def
  request_friend_list_def request_user_list_def send_dm_message_def request_dm_history_def

end
