(* ===== verification/UiState.thy ===== *)
theory UiState
  imports Client
begin

text \<open>
  The data of the client's user interface, \<^verbatim>\<open>client/ui.c\<close>: its structs and its global
  variables. Arrays are lists of their declared length next to the counts the code keeps;
  two kinds of arrays whose unused part is never read are lists of the used part: the
  messages of a channel or friend (\<open>msg_count\<close> is their number) and the text fields whose
  length is kept with them. The command line is the exception, its array is kept whole:
  its functions leave bytes behind that later become text again.

  What C leaves undefined, an access outside an array, a division by zero, the use of a NULL
  pointer, and a loop that never ends are values: the result of an operation is \<open>Inl\<close> the reason or \<open>Inr\<close> the state.
\<close>

section \<open>Constants and types\<close>

abbreviation (input) MAX_USERS :: nat where "MAX_USERS \<equiv> 16"
abbreviation (input) UI_MAX_SERVERS :: nat where "UI_MAX_SERVERS \<equiv> 8"
abbreviation (input) UI_MAX_CHANNELS :: nat where "UI_MAX_CHANNELS \<equiv> 5"
abbreviation (input) MAX_MESSAGES :: nat where "MAX_MESSAGES \<equiv> 64"
abbreviation (input) MAX_MSG_LEN :: nat where "MAX_MSG_LEN \<equiv> 240"
abbreviation (input) MAX_PASS_LEN :: nat where "MAX_PASS_LEN \<equiv> 32"
abbreviation (input) MAX_FRIENDS :: nat where "MAX_FRIENDS \<equiv> 64"
abbreviation (input) MAX_ALL_USERS :: nat where "MAX_ALL_USERS \<equiv> 128"

datatype screen = SCREEN_LOGIN | SCREEN_SIGNUP | SCREEN_SERVERS | SCREEN_FRIENDS | SCREEN_CHAT
  | SCREEN_COMMAND | SCREEN_DMS | SCREEN_USERS

record login_user =
  lu_name :: string
  lu_password :: string
  lu_server :: int

record ui_message =
  msg_sender :: string
  msg_body :: string
  msg_ts :: i64

record ui_channel =
  uc_name :: string
  uc_messages :: "ui_message list"
  uc_id :: i64

text \<open>The four parallel member arrays of \<open>UIServer\<close> are one array of entries.\<close>

record ui_member =
  mb_name :: string
  mb_admin :: bool
  mb_online :: bool
  mb_id :: i64

record ui_server =
  us_id :: i32
  us_name :: string
  us_description :: string
  us_icon :: string
  us_member_count :: i32
  us_members :: "ui_member list"
  us_channels :: "ui_channel list"
  us_channel_count :: nat

record ui_friend =
  fr_id :: i64
  fr_name :: string
  fr_type :: i32
  fr_messages :: "ui_message list"

record ui_user =
  al_id :: i64
  al_name :: string
  al_status :: string
  al_online :: i32

definition zero_ui_channel :: ui_channel where
  "zero_ui_channel = \<lparr>uc_name = [], uc_messages = [], uc_id = 0\<rparr>"

definition zero_ui_member :: ui_member where
  "zero_ui_member = \<lparr>mb_name = [], mb_admin = False, mb_online = False, mb_id = 0\<rparr>"

definition zero_ui_server :: ui_server where
  "zero_ui_server = \<lparr>us_id = 0, us_name = [], us_description = [], us_icon = [], us_member_count = 0,
     us_members = replicate MAX_USERS zero_ui_member,
     us_channels = replicate UI_MAX_CHANNELS zero_ui_channel, us_channel_count = 0\<rparr>"

section \<open>The global variables\<close>

record ui = conn +
  ui_users :: "login_user list"
  user_count :: nat
  current_user :: int
  ui_servers :: "ui_server list"
  server_count :: nat
  current_screen :: screen
  active_server :: int
  active_channel :: nat
  ui_friends :: "ui_friend list"
  friend_count :: nat
  friend_cursor :: nat
  active_dm_friend :: int
  dm_input :: string
  previous_screen :: screen
  cmd_input :: string
  cmd_input_len :: nat
  command_status_msg :: string
  show_help :: bool
  all_users :: "ui_user list"
  all_user_count :: nat
  user_list_cursor :: nat
  form_username :: string
  form_password :: string
  form_field :: nat
  form_error :: string
  form_success :: string
  server_cursor :: nat
  chat_input :: string

text \<open>The variables as the program starts, with a socket.\<close>

definition initial_ui :: "int \<Rightarrow> ui" where
  "initial_ui fd = \<lparr>client_socket = fd, requests = [],
     ui_users = replicate MAX_USERS \<lparr>lu_name = [], lu_password = [], lu_server = 0\<rparr>,
     user_count = 0, current_user = -1,
     ui_servers = replicate UI_MAX_SERVERS zero_ui_server, server_count = 0,
     current_screen = SCREEN_LOGIN, active_server = -1, active_channel = 0,
     ui_friends = replicate MAX_FRIENDS \<lparr>fr_id = 0, fr_name = [], fr_type = 0, fr_messages = []\<rparr>,
     friend_count = 0, friend_cursor = 0, active_dm_friend = -1, dm_input = [],
     previous_screen = SCREEN_LOGIN, cmd_input = replicate MAX_MSG_LEN (CHR 0x00), cmd_input_len = 0,
     command_status_msg = [], show_help = False,
     all_users = replicate MAX_ALL_USERS \<lparr>al_id = 0, al_name = [], al_status = [], al_online = 0\<rparr>,
     all_user_count = 0, user_list_cursor = 0,
     form_username = [], form_password = [], form_field = 0, form_error = [], form_success = [],
     server_cursor = 0, chat_input = []\<rparr>"

section \<open>Failure\<close>

datatype stuck = Out_of_bounds | Division_by_zero | No_return | Null_pointer

type_synonym 'a result = "stuck + 'a"

text \<open>Sequencing, array accesses and updates.\<close>

definition and_then :: "'a result \<Rightarrow> ('a \<Rightarrow> 'b result) \<Rightarrow> 'b result" where
  "and_then r f = (case r of Inl e \<Rightarrow> Inl e | Inr x \<Rightarrow> f x)"

definition entry_at :: "'a list \<Rightarrow> int \<Rightarrow> 'a result" where
  "entry_at xs i = (if 0 \<le> i \<and> i < int (length xs) then Inr (xs ! nat i) else Inl Out_of_bounds)"

definition set_at :: "'a list \<Rightarrow> int \<Rightarrow> ('a \<Rightarrow> 'a) \<Rightarrow> 'a list result" where
  "set_at xs i f =
     (if 0 \<le> i \<and> i < int (length xs) then Inr (xs[nat i := f (xs ! nat i)]) else Inl Out_of_bounds)"

text \<open>
  \<open>for (i = 0; i < n; i++) if (P (a[i])) { ...; break; }\<close> over an array that may be shorter
  than the count: the entry found, if any.
\<close>

definition scan_array :: "('a \<Rightarrow> bool) \<Rightarrow> 'a list \<Rightarrow> int \<Rightarrow> 'a option result" where
  "scan_array P xs n =
     (case find P (take (nat n) xs) of
        Some x \<Rightarrow> Inr (Some x)
      | None \<Rightarrow> if n \<le> int (length xs) then Inr None else Inl Out_of_bounds)"

lemma and_then_simps [simp]: "and_then (Inl e) f = Inl e" "and_then (Inr x) f = f x"
  by (simp_all add: and_then_def)

lemma and_then_Inr: "and_then r f = Inr y \<longleftrightarrow> (\<exists>x. r = Inr x \<and> f x = Inr y)"
  by (cases r) simp_all

lemma and_then_Inl: "and_then r f = Inl e \<longleftrightarrow> r = Inl e \<or> (\<exists>x. r = Inr x \<and> f x = Inl e)"
  by (cases r) simp_all

lemma entry_at_simps [simp]:
  "0 \<le> i \<Longrightarrow> i < int (length xs) \<Longrightarrow> entry_at xs i = Inr (xs ! nat i)"
  "\<not> (0 \<le> i \<and> i < int (length xs)) \<Longrightarrow> entry_at xs i = Inl Out_of_bounds"
  by (auto simp: entry_at_def)

lemma set_at_simps [simp]:
  "0 \<le> i \<Longrightarrow> i < int (length xs) \<Longrightarrow> set_at xs i f = Inr (xs[nat i := f (xs ! nat i)])"
  "\<not> (0 \<le> i \<and> i < int (length xs)) \<Longrightarrow> set_at xs i f = Inl Out_of_bounds"
  by (auto simp: set_at_def)

section \<open>Text\<close>

text \<open>The C string an array holds: up to its first NUL.\<close>

definition cstr :: "string \<Rightarrow> string" where
  "cstr buf = takeWhile (\<lambda>c. c \<noteq> CHR 0x00) buf"

text \<open>The decimal digits \<open>printf\<close> writes for an integer.\<close>

fun digits :: "nat \<Rightarrow> string" where
  "digits n = (if n < 10 then [char_of (48 + n)] else digits (n div 10) @ [char_of (48 + n mod 10)])"

definition decimal :: "int \<Rightarrow> string" where
  "decimal i = (if i < 0 then CHR ''-'' # digits (nat (- i)) else digits (nat i))"

declare digits.simps [simp del]

section \<open>Keys\<close>

text \<open>
  What \<open>getch\<close> delivers: the keys the code tells apart and character codes; any other key
  of \<^verbatim>\<open>ncurses.h\<close> is \<open>Key_other\<close>.
\<close>

datatype key = Key_up | Key_down | Key_backspace | Key_enter | Key_f nat | Key_char nat | Key_other

definition is_return :: "key \<Rightarrow> bool" where "is_return k \<longleftrightarrow> k = Key_char 10 \<or> k = Key_enter"
definition is_erase :: "key \<Rightarrow> bool" where "is_erase k \<longleftrightarrow> k = Key_backspace \<or> k = Key_char 127"
definition is_tab :: "key \<Rightarrow> bool" where "is_tab k \<longleftrightarrow> k = Key_char 9"
definition is_escape :: "key \<Rightarrow> bool" where "is_escape k \<longleftrightarrow> k = Key_char 27"

text \<open>\<open>ch >= 32 && ch < 127\<close>, and the character.\<close>

fun printable :: "key \<Rightarrow> char option" where
  "printable (Key_char c) = (if 32 \<le> c \<and> c < 127 then Some (char_of c) else None)"
| "printable _ = None"

lemmas key_defs = is_return_def is_erase_def is_tab_def is_escape_def

end
