(* ===== verification/UiInput.thy ===== *)
theory UiInput
  imports UiState
begin

text \<open>
  The keyboard handlers of \<^verbatim>\<open>client/ui.c\<close> for every screen but the command line: the form of
  the login and signup screens, the lists of servers, friends and users, the chat of a
  server's channel, and direct messages.
\<close>

section \<open>Login and signup\<close>

definition put_field :: "string \<Rightarrow> ui \<Rightarrow> ui" where
  "put_field s u = (if form_field u = 0 then u\<lparr>form_username := s\<rparr> else u\<lparr>form_password := s\<rparr>)"

definition submit_form :: "env \<Rightarrow> bool \<Rightarrow> ui \<Rightarrow> ui" where
  "submit_form env is_signup u =
     (if form_username u = [] then u\<lparr>form_error := ''Username required.''\<rparr>
      else if form_password u = [] then u\<lparr>form_error := ''Password required.''\<rparr>
      else if is_signup
      then (snd (send_register env (form_username u) (form_password u) u))
             \<lparr>form_success := ''Waiting for server...'', form_error := []\<rparr>
      else (snd (send_login env (form_username u) (form_password u) u))
             \<lparr>form_success := ''Authenticating...'', form_error := []\<rparr>)"

definition handle_auth_input :: "env \<Rightarrow> key \<Rightarrow> bool \<Rightarrow> ui \<Rightarrow> ui" where
  "handle_auth_input env k is_signup u =
     (let target = (if form_field u = 0 then form_username u else form_password u);
          maxlen = (if form_field u = 0 then MAX_NAME_LEN - 1 else MAX_PASS_LEN - 1);
          u = u\<lparr>form_error := [], form_success := []\<rparr> in
      if is_tab k \<or> k = Key_down \<or> k = Key_up then u\<lparr>form_field := 1 - form_field u\<rparr>
      else if is_erase k then (if target \<noteq> [] then put_field (butlast target) u else u)
      else if is_return k then submit_form env is_signup u
      else if k = Key_f 2
      then u\<lparr>form_username := [], form_password := [], form_field := 0, form_error := [],
             current_screen := (if is_signup then SCREEN_LOGIN else SCREEN_SIGNUP)\<rparr>
      else case printable k of
        Some c \<Rightarrow> (if length target < maxlen then put_field (target @ [c]) u else u)
      | None \<Rightarrow> u)"

section \<open>The command line opens\<close>

text \<open>
  The four lines every screen has for F1. The first byte of the array is set, the length is
  set, the rest of the array stays what it was.
\<close>

definition open_command :: "ui \<Rightarrow> ui" where
  "open_command u = u\<lparr>previous_screen := current_screen u, current_screen := SCREEN_COMMAND,
     cmd_input := (cmd_input u)[0 := CHR ''/''], cmd_input_len := 1\<rparr>"

section \<open>Lists\<close>

definition move_cursor :: "key \<Rightarrow> nat \<Rightarrow> nat \<Rightarrow> nat" where
  "move_cursor k count cursor =
     (if k = Key_up then (if 0 < cursor then cursor - 1 else cursor)
      else if Suc cursor < count then Suc cursor else cursor)"

definition enter_server :: "env \<Rightarrow> ui \<Rightarrow> ui result" where
  "enter_server env u =
     (if server_count u = 0 then Inr u
      else and_then (set_at (ui_users u) (current_user u) (\<lambda>a. a\<lparr>lu_server := int (server_cursor u)\<rparr>)) (\<lambda>us.
           and_then (entry_at (ui_servers u) (int (server_cursor u))) (\<lambda>sv.
           let sid = to_i64 (us_id sv);
               u1 = u\<lparr>active_server := int (server_cursor u), active_channel := 0, ui_users := us,
                      current_screen := SCREEN_CHAT\<rparr>
           in Inr (request_server_members env sid (request_server_channels env sid (join_server env sid u1))))))"

definition handle_server_input :: "env \<Rightarrow> key \<Rightarrow> ui \<Rightarrow> ui result" where
  "handle_server_input env k u =
     (if k = Key_f 2 then Inr (request_friend_list env (u\<lparr>current_screen := SCREEN_FRIENDS\<rparr>))
      else if k = Key_f 1 then Inr (open_command u)
      else if k = Key_up \<or> k = Key_down
      then Inr (u\<lparr>server_cursor := move_cursor k (server_count u) (server_cursor u)\<rparr>)
      else if is_return k then enter_server env u
      else if is_escape k then Inr (send_logout env u)
      else if k = Key_f 4 then Inr (request_friend_list env (u\<lparr>current_screen := SCREEN_DMS\<rparr>))
      else if k = Key_f 3 then Inr (request_user_list env (u\<lparr>current_screen := SCREEN_USERS\<rparr>))
      else Inr u)"

definition handle_friends_input :: "env \<Rightarrow> key \<Rightarrow> ui \<Rightarrow> ui" where
  "handle_friends_input env k u =
     (if k = Key_f 2 then list_all_servers_request env (u\<lparr>current_screen := SCREEN_SERVERS\<rparr>)
      else if k = Key_f 1 then open_command u
      else if k = Key_up \<or> k = Key_down
      then u\<lparr>friend_cursor := move_cursor k (friend_count u) (friend_cursor u)\<rparr>
      else if is_escape k then send_logout env u
      else if k = Key_f 3 then request_user_list env (u\<lparr>current_screen := SCREEN_USERS\<rparr>)
      else u)"

definition handle_users_input :: "env \<Rightarrow> key \<Rightarrow> ui \<Rightarrow> ui" where
  "handle_users_input env k u =
     (if k = Key_f 2 then list_all_servers_request env (u\<lparr>current_screen := SCREEN_SERVERS\<rparr>)
      else if k = Key_f 1 then open_command u
      else if k = Key_up \<or> k = Key_down
      then u\<lparr>user_list_cursor := move_cursor k (all_user_count u) (user_list_cursor u)\<rparr>
      else if is_escape k then send_logout env u
      else u)"

section \<open>The chat of a channel\<close>

definition type_char :: "key \<Rightarrow> string \<Rightarrow> string" where
  "type_char k s = (case printable k of
     Some c \<Rightarrow> (if length s < MAX_MSG_LEN - 1 then s @ [c] else s) | None \<Rightarrow> s)"

definition handle_chat_input :: "env \<Rightarrow> key \<Rightarrow> ui \<Rightarrow> ui result" where
  "handle_chat_input env k u =
     and_then (entry_at (ui_servers u) (active_server u)) (\<lambda>sv.
       if is_tab k then
         if us_channel_count sv = 0 then Inl Division_by_zero
         else let n = (active_channel u + 1) mod us_channel_count sv in
           and_then (entry_at (us_channels sv) (int n)) (\<lambda>c.
             Inr (request_channel_history env (uc_id c) (u\<lparr>active_channel := n, chat_input := []\<rparr>)))
       else if is_return k then
         if chat_input u \<noteq> []
         then and_then (entry_at (us_channels sv) (int (active_channel u))) (\<lambda>c.
           Inr ((send_channel_message env (uc_id c) (chat_input u) u)\<lparr>chat_input := []\<rparr>))
         else Inr u
       else if is_erase k then Inr (u\<lparr>chat_input := butlast (chat_input u)\<rparr>)
       else if k = Key_f 2 then
         let u1 = u\<lparr>chat_input := [], current_screen := SCREEN_SERVERS\<rparr> in
         if 0 \<le> active_server u \<and> active_server u < int (server_count u) then Inr u1
         else and_then (set_at (ui_users u) (current_user u) (\<lambda>a. a\<lparr>lu_server := -1\<rparr>)) (\<lambda>us.
           Inr (u1\<lparr>active_server := -1, ui_users := us\<rparr>))
       else if k = Key_f 1 \<and> chat_input u = [] then Inr (open_command u)
       else Inr (u\<lparr>chat_input := type_char k (chat_input u)\<rparr>))"

section \<open>Direct messages\<close>

text \<open>
  \<open>do { i = (i + 1) % n; } while (friends[i].type != 2 && n > 0)\<close>, for a positive \<open>n\<close>. The
  loop ends only at an accepted friend; \<open>None\<close> is not ending.
\<close>

partial_function (option) next_accepted :: "ui_friend list \<Rightarrow> nat \<Rightarrow> nat \<Rightarrow> nat option" where
  "next_accepted fs n i =
     (let j = (i + 1) mod n in if fr_type (fs ! j) \<noteq> 2 then next_accepted fs n j else Some j)"

definition next_dm :: "env \<Rightarrow> ui \<Rightarrow> ui result" where
  "next_dm env u =
     (if friend_count u = 0 then Inl Division_by_zero
      else case next_accepted (ui_friends u) (friend_count u) (nat (active_dm_friend u)) of
        None \<Rightarrow> Inl No_return
      | Some j \<Rightarrow> and_then (entry_at (ui_friends u) (int j)) (\<lambda>f.
          Inr (request_dm_history env (fr_id f) (u\<lparr>active_dm_friend := int j, dm_input := []\<rparr>))))"

text \<open>Sending a direct message also shows it, while there is room.\<close>

definition send_dm :: "env \<Rightarrow> ui_friend \<Rightarrow> ui \<Rightarrow> ui result" where
  "send_dm env f u =
     (let u1 = (send_dm_message env (fr_id f) (dm_input u) u)\<lparr>dm_input := []\<rparr> in
      if length (fr_messages f) < MAX_MESSAGES
      then and_then (entry_at (ui_users u) (current_user u)) (\<lambda>me.
        Inr (u1\<lparr>ui_friends := (ui_friends u)[nat (active_dm_friend u) := f\<lparr>fr_messages := fr_messages f @
          [\<lparr>msg_sender = strncpy0 (MAX_NAME_LEN - 1) (lu_name me),
            msg_body = strncpy0 (MAX_MSG_LEN - 1) (dm_input u), msg_ts = now env\<rparr>]\<rparr>]\<rparr>))
      else Inr u1)"

definition handle_dms_input :: "env \<Rightarrow> key \<Rightarrow> ui \<Rightarrow> ui result" where
  "handle_dms_input env k u =
     (if active_dm_friend u = -1 then Inr (if k = Key_f 2 then u\<lparr>current_screen := SCREEN_SERVERS\<rparr> else u)
      else and_then (entry_at (ui_friends u) (active_dm_friend u)) (\<lambda>f.
        if is_tab k then next_dm env u
        else if k = Key_f 2 then Inr (u\<lparr>current_screen := SCREEN_SERVERS\<rparr>)
        else if is_return k then (if dm_input u \<noteq> [] then send_dm env f u else Inr u)
        else if is_erase k then Inr (u\<lparr>dm_input := butlast (dm_input u)\<rparr>)
        else Inr (u\<lparr>dm_input := type_char k (dm_input u)\<rparr>)))"

end
