(* ===== verification/UiCommand.thy ===== *)
theory UiCommand
  imports UiInput
begin

text \<open>
  The command line of the client, \<open>handle_command_input\<close> of \<^verbatim>\<open>client/ui.c\<close>: editing the line
  and the commands. A command tells whether the window closes at once.
\<close>

section \<open>Arguments\<close>

text \<open>The loop that strips trailing blanks of a copied argument.\<close>

function strip_spaces :: "string \<Rightarrow> string" where
  "strip_spaces s = (if s \<noteq> [] \<and> last s = CHR '' '' then strip_spaces (butlast s) else s)"
  by pat_completeness auto
termination by (relation "measure length") auto

declare strip_spaces.simps [simp del]

definition argument :: "nat \<Rightarrow> string \<Rightarrow> string" where
  "argument n cmd = strip_spaces (strncpy0 (MAX_NAME_LEN - 1) (drop n cmd))"

abbreviation starts :: "string \<Rightarrow> string \<Rightarrow> bool" where
  "starts prefix cmd \<equiv> take (length prefix) cmd = prefix"

lemma starts_append: "starts p c \<longleftrightarrow> (\<exists>t. c = p @ t)"
  by (metis append_eq_conv_conj append_take_drop_id)

section \<open>Commands\<close>

definition status_msg :: "string \<Rightarrow> ui \<Rightarrow> ui" where
  "status_msg s u = u\<lparr>command_status_msg := s\<rparr>"

text \<open>The four commands on a friend, and creating a server.\<close>

definition friend_command :: "env \<Rightarrow> (env \<Rightarrow> string \<Rightarrow> ui \<Rightarrow> ui) \<Rightarrow> string \<Rightarrow> ui \<Rightarrow> ui" where
  "friend_command env ask target u = (if target \<noteq> [] then request_friend_list env (ask env target u) else u)"

definition create_server_command :: "env \<Rightarrow> string \<Rightarrow> ui \<Rightarrow> ui" where
  "create_server_command env name u = (if name \<noteq> [] then create_server env name u else u)"

definition leave_command :: "env \<Rightarrow> ui \<Rightarrow> (bool \<times> ui) result" where
  "leave_command env u =
     (if active_server u \<noteq> -1 \<and> current_user u \<noteq> -1
      then and_then (entry_at (ui_servers u) (active_server u)) (\<lambda>sv. Inr (True, leave_server env (us_id sv) u))
      else Inr (False, status_msg ''Error: You're not in a server.'' u))"

definition in_active_server :: "ui \<Rightarrow> bool" where
  "in_active_server u \<longleftrightarrow> 0 \<le> active_server u \<and> active_server u < int (server_count u)"

definition kick_command :: "env \<Rightarrow> string \<Rightarrow> ui \<Rightarrow> ui result" where
  "kick_command env target u =
     (if previous_screen u \<noteq> SCREEN_CHAT
      then Inr (status_msg ''Error: You must enter the server to kick members.'' u)
      else if \<not> in_active_server u \<or> target = [] then Inr u
      else and_then (entry_at (ui_servers u) (active_server u)) (\<lambda>sv.
           and_then (scan_array (\<lambda>m. mb_name m = target) (us_members sv) (sint (us_member_count sv))) (\<lambda>found.
           let target_id = (case found of None \<Rightarrow> -1 | Some m \<Rightarrow> mb_id m) in
           if target_id \<noteq> -1
           then Inr (status_msg ''Sending kick request...'' (kick_member_request env (to_i64 (us_id sv)) target_id u))
           else Inr (status_msg ''Error: User not found in server.'' u))))"

definition create_channel_command :: "env \<Rightarrow> string \<Rightarrow> ui \<Rightarrow> ui result" where
  "create_channel_command env name u =
     (if previous_screen u \<noteq> SCREEN_CHAT
      then Inr (status_msg ''Error: You must enter the server to create channels.'' u)
      else if \<not> in_active_server u then Inr u
      else if name = [] then Inr (status_msg ''Error: Channel name cannot be empty.'' u)
      else and_then (entry_at (ui_servers u) (active_server u)) (\<lambda>sv.
           Inr (status_msg ''Sending create request...'' (create_channel env (us_id sv) name u))))"

definition delete_server_command :: "env \<Rightarrow> string \<Rightarrow> ui \<Rightarrow> ui result" where
  "delete_server_command env target u =
     and_then (scan_array (\<lambda>sv. us_name sv = target) (ui_servers u) (int (server_count u))) (\<lambda>found.
       let target_id = (case found of None \<Rightarrow> -1 | Some sv \<Rightarrow> to_i64 (us_id sv)) in
       if target_id \<noteq> -1
       then Inr (status_msg ''Sending delete request...'' (delete_server env target_id u))
       else Inr (status_msg ''Error: Server not found in your list.'' u))"

definition delete_channel_command :: "env \<Rightarrow> string \<Rightarrow> ui \<Rightarrow> ui result" where
  "delete_channel_command env target u =
     (if previous_screen u \<noteq> SCREEN_CHAT
      then Inr (status_msg ''Error: You must enter the server to delete channels.'' u)
      else if \<not> in_active_server u
      then Inr (status_msg ''Error: You must join a server to delete its channels.'' u)
      else and_then (entry_at (ui_servers u) (active_server u)) (\<lambda>sv.
           and_then (scan_array (\<lambda>c. uc_name c = target) (us_channels sv) (int (us_channel_count sv))) (\<lambda>found.
           let target_id = (case found of None \<Rightarrow> -1 | Some c \<Rightarrow> uc_id c) in
           if target_id \<noteq> -1
           then Inr (status_msg ''Sending delete request...'' (delete_channel env target_id u))
           else Inr (status_msg ''Error: Channel not found in this server.'' u))))"

text \<open>The text after \<open>/setstatus\<close> without blanks around it; it is sent when it has 1 to 64 bytes.\<close>

definition status_text :: "string \<Rightarrow> string" where
  "status_text cmd = strip_spaces (dropWhile (\<lambda>c. c = CHR '' '') (drop 10 cmd))"

definition status_command :: "env \<Rightarrow> string \<Rightarrow> ui \<Rightarrow> ui" where
  "status_command env new_status u =
     (if new_status = []
      then status_msg ''Error: Status cannot be empty. Use /setstatus <1-64 characters>.'' u
      else if PROFILE_STATUS_LEN < length new_status
      then status_msg (take 127 (''Error: Status is '' @ decimal (int (length new_status)) @
             '' characters. Maximum is '' @ decimal (int PROFILE_STATUS_LEN) @ ''.'')) u
      else status_msg ''Updating status...'' (send_status_update env new_status u))"

definition run_command :: "env \<Rightarrow> string \<Rightarrow> ui \<Rightarrow> (bool \<times> ui) result" where
  "run_command env cmd u =
     (let stay = (\<lambda>r. and_then r (\<lambda>u. Inr (False, u))) in
      if cmd = ''/help'' then Inr (False, u\<lparr>show_help := True, command_status_msg := []\<rparr>)
      else if starts ''/friend '' cmd then Inr (True, friend_command env send_friend_request (argument 8 cmd) u)
      else if starts ''/accept '' cmd then Inr (True, friend_command env accept_friend_request (argument 8 cmd) u)
      else if starts ''/unfriend '' cmd then Inr (True, friend_command env unfriend_request (argument 10 cmd) u)
      else if starts ''/reject '' cmd then Inr (True, friend_command env reject_friend_request (argument 8 cmd) u)
      else if starts ''/createserver '' cmd then Inr (True, create_server_command env (argument 14 cmd) u)
      else if cmd = ''/leaveserver'' then leave_command env u
      else if starts ''/kick '' cmd then stay (kick_command env (argument 6 cmd) u)
      else if starts ''/createchannel '' cmd then stay (create_channel_command env (argument 15 cmd) u)
      else if starts ''/deleteserver '' cmd then stay (delete_server_command env (drop 14 cmd) u)
      else if starts ''/deletechannel '' cmd then stay (delete_channel_command env (drop 15 cmd) u)
      else if cmd = ''/setstatus'' \<or> starts ''/setstatus '' cmd
      then Inr (False, status_command env (status_text cmd) u)
      else Inr (False, status_msg ''Error: Unknown command.'' u))"

section \<open>Editing the line\<close>

text \<open>The two assignments that empty the line, and leaving the window.\<close>

definition clear_command :: "ui \<Rightarrow> ui" where
  "clear_command u = u\<lparr>cmd_input := (cmd_input u)[0 := CHR 0x00], cmd_input_len := 0\<rparr>"

definition close_command :: "ui \<Rightarrow> ui" where
  "close_command u = (clear_command u)\<lparr>current_screen := previous_screen u\<rparr>"

definition handle_command_input :: "env \<Rightarrow> key \<Rightarrow> ui \<Rightarrow> ui result" where
  "handle_command_input env k u =
     (if is_escape k then Inr (u\<lparr>current_screen := previous_screen u, show_help := False\<rparr>)
      else if is_return k then
        and_then (run_command env (cstr (cmd_input u)) u) (\<lambda>(should_close, u1).
          Inr (if should_close then (close_command u1)\<lparr>command_status_msg := [], show_help := False\<rparr> else u1))
      else if is_erase k then
        Inr ((if 0 < cmd_input_len u
              then u\<lparr>cmd_input := (cmd_input u)[cmd_input_len u - 1 := CHR 0x00], cmd_input_len := cmd_input_len u - 1\<rparr>
              else u)\<lparr>show_help := False\<rparr>)
      else case printable k of
        Some c \<Rightarrow> Inr (if cmd_input_len u < MAX_MSG_LEN - 1
          then u\<lparr>cmd_input := (cmd_input u)[cmd_input_len u := c, Suc (cmd_input_len u) := CHR 0x00],
                 cmd_input_len := Suc (cmd_input_len u), command_status_msg := [], show_help := False\<rparr>
          else u)
      | None \<Rightarrow> Inr u)"

end
