(* ===== verification/UiNet.thy ===== *)
theory UiNet
  imports UiCommand
begin

unbundle bit_operations_syntax

text \<open>
  What the client does with the packets it receives: \<open>process_network_packet\<close> of
  \<^verbatim>\<open>client/ui.c\<close> and the callbacks it calls.
\<close>

section \<open>Accounts\<close>

definition auth_success :: "env \<Rightarrow> ui \<Rightarrow> ui result" where
  "auth_success env u =
     and_then (set_at (ui_users u) (int (user_count u)) (\<lambda>_.
        \<lparr>lu_name = strncpy0 (MAX_NAME_LEN - 1) (form_username u),
         lu_password = strncpy0 (MAX_PASS_LEN - 1) (form_password u), lu_server = -1\<rparr>)) (\<lambda>us.
     Inr ((list_all_servers_request env (u\<lparr>ui_users := us, current_user := int (user_count u),
         user_count := Suc (user_count u), form_username := [], form_password := [], form_field := 0,
         current_screen := SCREEN_SERVERS\<rparr>))
       \<lparr>form_success := ''Authentication Successful!'', form_error := []\<rparr>))"

definition sign_out :: "i32 \<Rightarrow> ui \<Rightarrow> ui" where
  "sign_out status u = u\<lparr>current_user := -1, active_server := -1, active_channel := 0, active_dm_friend := -1,
     previous_screen := SCREEN_LOGIN, current_screen := SCREEN_LOGIN, server_count := 0, server_cursor := 0,
     friend_count := 0, friend_cursor := 0, all_user_count := 0, user_list_cursor := 0, show_help := False,
     chat_input := [], dm_input := [], cmd_input := (cmd_input u)[0 := CHR 0x00], cmd_input_len := 0,
     command_status_msg := [], form_username := [], form_password := [], form_field := 0, form_success := [],
     form_error := (if status = resp RESP_DONE then ''Signed out.'' else ''Signed out: logged in elsewhere'')\<rparr>"

definition ui_handle_auth_response :: "env \<Rightarrow> auth_payload \<Rightarrow> ui \<Rightarrow> ui result" where
  "ui_handle_auth_response env a u =
     (if auth_action a = auth_code AUTH_REGISTER \<or> auth_action a = auth_code AUTH_LOGIN then
        if auth_status a = resp RESP_OK then auth_success env u
        else Inr (u\<lparr>form_error := ''Invalid Username or Password.'', form_success := []\<rparr>)
      else if auth_action a = auth_code AUTH_LOGOUT then Inr (sign_out (auth_status a) u)
      else Inr u)"

section \<open>Messages\<close>

text \<open>
  START empties a list of messages, END changes nothing, any other packet is a message for
  which there may be room.
\<close>

definition show_message :: "packet \<Rightarrow> string \<Rightarrow> string \<Rightarrow> ui_message list \<Rightarrow> ui_message list" where
  "show_message p sender body ms =
     (if list_frame p = frame_code LIST_FRAME_START then []
      else if list_frame p = frame_code LIST_FRAME_END then ms
      else if length ms < MAX_MESSAGES
      then ms @ [\<lparr>msg_sender = sender, msg_body = strncpy0 (MAX_MSG_LEN - 1) body, msg_ts = timestamp p\<rparr>]
      else ms)"

definition channel_sender :: "packet \<Rightarrow> channel_payload \<Rightarrow> string" where
  "channel_sender p c = (if ch_name c \<noteq> [] then strncpy0 (MAX_NAME_LEN - 1) (ch_name c)
     else take (MAX_NAME_LEN - 1) (decimal (sint (sender_id p))))"

definition upd_channel :: "nat \<Rightarrow> (ui_channel \<Rightarrow> ui_channel) \<Rightarrow> ui_server \<Rightarrow> ui_server" where
  "upd_channel i f sv = sv\<lparr>us_channels := (us_channels sv)[i := f (us_channels sv ! i)]\<rparr>"

definition upd_server :: "nat \<Rightarrow> (ui_server \<Rightarrow> ui_server) \<Rightarrow> ui \<Rightarrow> ui" where
  "upd_server i f u = u\<lparr>ui_servers := (ui_servers u)[i := f (ui_servers u ! i)]\<rparr>"

text \<open>The channel id of the packet plays no part.\<close>

definition ui_receive_channel_message :: "packet \<Rightarrow> channel_payload \<Rightarrow> ui \<Rightarrow> ui result" where
  "ui_receive_channel_message p c u =
     (if \<not> in_active_server u then Inr u
      else and_then (entry_at (ui_servers u) (active_server u)) (\<lambda>sv.
        if us_channel_count sv \<le> active_channel u then Inr u
        else and_then (entry_at (us_channels sv) (int (active_channel u))) (\<lambda>_.
          Inr (upd_server (nat (active_server u)) (upd_channel (active_channel u)
            (\<lambda>ch. ch\<lparr>uc_messages := show_message p (channel_sender p c) (ch_message c) (uc_messages ch)\<rparr>)) u))))"

text \<open>The first friend whose id is the sender's or the recipient's.\<close>

definition dm_friend :: "packet \<Rightarrow> dm_payload \<Rightarrow> ui \<Rightarrow> nat option" where
  "dm_friend p d u = find (\<lambda>i. fr_id (ui_friends u ! i) = sender_id p \<or>
     fr_id (ui_friends u ! i) = to_i64 (dm_recipient d)) [0..<friend_count u]"

definition own_name :: "ui \<Rightarrow> string result" where
  "own_name u = (if 0 \<le> current_user u
     then and_then (entry_at (ui_users u) (current_user u)) (\<lambda>me. Inr (strncpy0 (MAX_NAME_LEN - 1) (lu_name me)))
     else Inr ''Me'')"

definition ui_receive_dm_message :: "packet \<Rightarrow> dm_payload \<Rightarrow> ui \<Rightarrow> ui result" where
  "ui_receive_dm_message p d u =
     (case dm_friend p d u of
        None \<Rightarrow> Inr u
      | Some i \<Rightarrow> and_then (entry_at (ui_friends u) (int i)) (\<lambda>f.
          and_then (if sender_id p = fr_id f then Inr (strncpy0 (MAX_NAME_LEN - 1) (fr_name f)) else own_name u) (\<lambda>name.
            Inr (u\<lparr>ui_friends := (ui_friends u)[i :=
              f\<lparr>fr_messages := show_message p name (dm_message d) (fr_messages f)\<rparr>]\<rparr>))))"

section \<open>Servers, channels, members\<close>

text \<open>What several replies do: the command window closes and its message goes.\<close>

definition command_done :: "ui \<Rightarrow> ui" where
  "command_done u = (if current_screen u = SCREEN_COMMAND then close_command u else u)\<lparr>command_status_msg := []\<rparr>"

definition permission_denied :: "ui \<Rightarrow> ui" where
  "permission_denied u = status_msg ''Permission Denied: You are not an admin of this server.'' u"

definition leave_reply :: "env \<Rightarrow> ui \<Rightarrow> ui result" where
  "leave_reply env u =
     and_then (if current_user u \<noteq> -1 then set_at (ui_users u) (current_user u) (\<lambda>a. a\<lparr>lu_server := -1\<rparr>)
               else Inr (ui_users u)) (\<lambda>us.
     Inr (list_all_servers_request env (u\<lparr>command_status_msg := [], active_server := -1, active_channel := 0,
       ui_users := us, current_screen := SCREEN_SERVERS\<rparr>)))"

definition delete_reply :: "env \<Rightarrow> i64 \<Rightarrow> ui \<Rightarrow> ui result" where
  "delete_reply env server_id u =
     (let u1 = list_all_servers_request env (command_done u) in
      if active_server u1 < 0 then Inr u1
      else and_then (entry_at (ui_servers u1) (active_server u1)) (\<lambda>sv.
        if to_i64 (us_id sv) \<noteq> server_id then Inr u1
        else and_then (set_at (ui_users u1) (current_user u1) (\<lambda>a. a\<lparr>lu_server := -1\<rparr>)) (\<lambda>us.
          Inr (u1\<lparr>active_server := -1, ui_users := us, current_screen := SCREEN_SERVERS\<rparr>))))"

text \<open>A list begins with START or SINGLE.\<close>

definition starts_list :: "packet \<Rightarrow> bool" where
  "starts_list p \<longleftrightarrow> list_frame p = frame_code LIST_FRAME_START \<or> list_frame p = frame_code LIST_FRAME_SINGLE"

definition ends_list :: "packet \<Rightarrow> bool" where
  "ends_list p \<longleftrightarrow> list_frame p = frame_code LIST_FRAME_END \<or> list_frame p = frame_code LIST_FRAME_SINGLE"

definition server_item :: "packet \<Rightarrow> server_payload \<Rightarrow> ui \<Rightarrow> ui" where
  "server_item p v u =
     (let n = (if starts_list p then 0 else server_count u) in
      if 0 <s list_total p \<and> n < UI_MAX_SERVERS
      then u\<lparr>server_count := Suc n, ui_servers := (ui_servers u)[n := zero_ui_server
          \<lparr>us_id := to_i32 (srv_server_id v), us_member_count := srv_member_count v,
           us_name := strncpy0 (MAX_NAME_LEN - 1) (srv_name v), us_description := ''Public Server'',
           us_icon := ''[]''\<rparr>]\<rparr>
      else u\<lparr>server_count := n\<rparr>)"

text \<open>The packets of a channel or member list carry the item's id in the field \<open>server_id\<close>.\<close>

definition channel_item :: "packet \<Rightarrow> server_payload \<Rightarrow> ui_server \<Rightarrow> ui_server" where
  "channel_item p v sv =
     (let n = (if starts_list p then 0 else us_channel_count sv) in
      if 0 <s list_total p \<and> n < UI_MAX_CHANNELS
      then sv\<lparr>us_channel_count := Suc n, us_channels := (us_channels sv)[n :=
          \<lparr>uc_name = strncpy0 (MAX_NAME_LEN - 1) (srv_name v), uc_messages = [], uc_id = srv_server_id v\<rparr>]\<rparr>
      else sv\<lparr>us_channel_count := n\<rparr>)"

definition channel_list_reply :: "env \<Rightarrow> packet \<Rightarrow> server_payload \<Rightarrow> ui \<Rightarrow> ui result" where
  "channel_list_reply env p v u =
     (if \<not> in_active_server u then Inr u
      else and_then (entry_at (ui_servers u) (active_server u)) (\<lambda>old.
        let sv = channel_item p v old; u1 = upd_server (nat (active_server u)) (channel_item p v) u in
        if ends_list p \<and> 0 < us_channel_count sv \<and> active_channel u1 < us_channel_count sv
        then and_then (entry_at (us_channels sv) (int (active_channel u1))) (\<lambda>c.
          Inr (request_channel_history env (uc_id c) u1))
        else Inr u1))"

abbreviation (input) MEMBER_ADMIN :: i32 where "MEMBER_ADMIN \<equiv> 1"
abbreviation (input) MEMBER_ONLINE :: i32 where "MEMBER_ONLINE \<equiv> 2"

definition member_item :: "packet \<Rightarrow> server_payload \<Rightarrow> ui_server \<Rightarrow> ui_server result" where
  "member_item p v sv =
     (let n = (if starts_list p then 0 else us_member_count sv) in
      if 0 <s list_total p \<and> n <s of_nat MAX_USERS
      then and_then (set_at (us_members sv) (sint n) (\<lambda>_.
          \<lparr>mb_name = strncpy0 (MAX_NAME_LEN - 1) (srv_name v),
           mb_admin = (srv_member_count v AND MEMBER_ADMIN \<noteq> 0),
           mb_online = (srv_member_count v AND MEMBER_ONLINE \<noteq> 0),
           mb_id = srv_server_id v\<rparr>)) (\<lambda>ms. Inr (sv\<lparr>us_member_count := n + 1, us_members := ms\<rparr>))
      else Inr (sv\<lparr>us_member_count := n\<rparr>))"

definition member_list_reply :: "packet \<Rightarrow> server_payload \<Rightarrow> ui \<Rightarrow> ui result" where
  "member_list_reply p v u =
     (if \<not> in_active_server u then Inr u
      else and_then (entry_at (ui_servers u) (active_server u)) (\<lambda>old.
        and_then (member_item p v old) (\<lambda>sv. Inr (upd_server (nat (active_server u)) (\<lambda>_. sv) u))))"

definition kick_reply :: "env \<Rightarrow> server_payload \<Rightarrow> ui \<Rightarrow> ui result" where
  "kick_reply env v u =
     (if srv_status v = resp RESP_OK then
        let u1 = command_done u in
        if 0 \<le> active_server u1
        then and_then (entry_at (ui_servers u1) (active_server u1)) (\<lambda>sv.
          Inr (request_server_members env (to_i64 (us_id sv)) u1))
        else Inr u1
      else Inr (permission_denied u))"

definition ui_update_server_state :: "env \<Rightarrow> packet \<Rightarrow> server_payload \<Rightarrow> ui \<Rightarrow> ui result" where
  "ui_update_server_state env p v u =
     (let ok = (srv_status v = resp RESP_OK) in
      case server_action_of (srv_action v) of
        Some SERVER_CREATE \<Rightarrow> Inr (if ok then list_all_servers_request env u else u)
      | Some SERVER_LEAVE \<Rightarrow> if ok then leave_reply env u else Inr u
      | Some SERVER_DELETE \<Rightarrow> if ok then delete_reply env (srv_server_id v) u else Inr (permission_denied u)
      | Some SERVER_LIST_JOINED \<Rightarrow> Inr (server_item p v u)
      | Some SERVER_LIST \<Rightarrow> Inr (server_item p v u)
      | Some SERVER_LIST_CHANNELS \<Rightarrow> channel_list_reply env p v u
      | Some SERVER_LIST_MEMBERS \<Rightarrow> member_list_reply p v u
      | Some SERVER_KICK_MEMBER \<Rightarrow> kick_reply env v u
      | _ \<Rightarrow> Inr u)"

text \<open>The reply to creating or deleting a channel; deleting also goes back to the first one.\<close>

definition channel_reply :: "env \<Rightarrow> bool \<Rightarrow> channel_payload \<Rightarrow> ui \<Rightarrow> ui result" where
  "channel_reply env deleted c u =
     (if ch_status c = resp RESP_OK then
        let u1 = command_done u in
        if 0 \<le> active_server u1
        then and_then (entry_at (ui_servers u1) (active_server u1)) (\<lambda>sv.
          Inr (request_server_channels env (to_i64 (us_id sv))
            (if deleted then u1\<lparr>active_channel := 0\<rparr> else u1)))
        else Inr u1
      else Inr (permission_denied u))"

section \<open>Friends and users\<close>

definition friend_item :: "social_payload \<Rightarrow> ui \<Rightarrow> ui" where
  "friend_item v u = u\<lparr>ui_friends := (ui_friends u)[friend_count u := (ui_friends u ! friend_count u)
       \<lparr>fr_id := soc_target v, fr_name := strncpy0 (MAX_NAME_LEN - 1) (soc_username v),
        fr_type := soc_status_code v\<rparr>], friend_count := Suc (friend_count u)\<rparr>"

definition select_first_friend :: "env \<Rightarrow> ui \<Rightarrow> ui" where
  "select_first_friend env u =
     (if current_screen u = SCREEN_DMS then
        (case find (\<lambda>i. fr_type (ui_friends u ! i) = 2) [0..<friend_count u] of
           None \<Rightarrow> u
         | Some i \<Rightarrow> request_dm_history env (fr_id (ui_friends u ! i)) (u\<lparr>active_dm_friend := int i\<rparr>))
      else u)"

definition friend_list_packet :: "env \<Rightarrow> packet \<Rightarrow> social_payload \<Rightarrow> ui \<Rightarrow> ui" where
  "friend_list_packet env p v u =
     (if list_frame p = frame_code LIST_FRAME_START then u\<lparr>friend_count := 0, friend_cursor := 0\<rparr>
      else if (list_frame p = frame_code LIST_FRAME_MIDDLE \<or> list_frame p = frame_code LIST_FRAME_SINGLE) \<and>
              friend_count u < MAX_FRIENDS then friend_item v u
      else if ends_list p then select_first_friend env u
      else u)"

text \<open>\<open>strcasecmp\<close> compares the bytes after \<open>tolower\<close>.\<close>

definition lower :: "char \<Rightarrow> char" where
  "lower c = (if 65 \<le> (of_char c :: nat) \<and> (of_char c :: nat) \<le> 90 then char_of ((of_char c :: nat) + 32) else c)"

definition casefold :: "string \<Rightarrow> string" where
  "casefold s = map lower s"

text \<open>Whether the loops exchange entry \<open>b\<close>, further back, with entry \<open>a\<close>.\<close>

definition must_swap :: "ui_user \<Rightarrow> ui_user \<Rightarrow> bool" where
  "must_swap a b \<longleftrightarrow> al_online a <s al_online b \<or>
     (al_online b = al_online a \<and> casefold (al_name b) < casefold (al_name a))"

definition exchange :: "nat \<Rightarrow> nat \<Rightarrow> ui_user list \<Rightarrow> ui_user list" where
  "exchange i j xs = (if must_swap (xs ! i) (xs ! j) then xs[i := xs ! j, j := xs ! i] else xs)"

definition sort_users :: "nat \<Rightarrow> ui_user list \<Rightarrow> ui_user list" where
  "sort_users n xs = fold (\<lambda>i. fold (exchange i) [Suc i..<n]) [0..<n - 1] xs"

definition user_item :: "social_payload \<Rightarrow> ui \<Rightarrow> ui" where
  "user_item v u = u\<lparr>all_users := (all_users u)[all_user_count u :=
       \<lparr>al_id = soc_target v, al_name = strncpy0 (MAX_NAME_LEN - 1) (soc_username v),
        al_status = strncpy0 PROFILE_STATUS_LEN (soc_status_text v), al_online = soc_status_code v\<rparr>],
     all_user_count := Suc (all_user_count u)\<rparr>"

definition user_list_packet :: "packet \<Rightarrow> social_payload \<Rightarrow> ui \<Rightarrow> ui" where
  "user_list_packet p v u =
     (if list_frame p = frame_code LIST_FRAME_START then u\<lparr>all_user_count := 0, user_list_cursor := 0\<rparr>
      else if list_frame p = frame_code LIST_FRAME_MIDDLE \<and> all_user_count u < MAX_ALL_USERS then user_item v u
      else if list_frame p = frame_code LIST_FRAME_END
      then u\<lparr>all_users := sort_users (all_user_count u) (all_users u)\<rparr>
      else u)"

definition set_profile :: "social_payload \<Rightarrow> ui_user list \<Rightarrow> ui_user list" where
  "set_profile v = upd_first (\<lambda>x. al_id x = soc_target v)
     (\<lambda>x. x\<lparr>al_status := strncpy0 PROFILE_STATUS_LEN (soc_status_text v),
             al_online := of_bool (soc_presence v = presence_code STATUS_ONLINE)\<rparr>)"

definition status_packet :: "env \<Rightarrow> social_payload \<Rightarrow> ui \<Rightarrow> ui result" where
  "status_packet env v u =
     and_then (if 0 \<le> current_user u
               then and_then (entry_at (ui_users u) (current_user u)) (\<lambda>me. Inr (soc_username v = lu_name me))
               else Inr False) (\<lambda>own.
     if soc_status_code v = resp RESP_OK then
       let n = all_user_count u;
           u1 = u\<lparr>all_users := set_profile v (take n (all_users u)) @ drop n (all_users u)\<rparr>
       in Inr (if own then command_done (request_user_list env u1) else u1)
     else Inr (status_msg ''Error updating status.'' u))"

section \<open>Dispatch\<close>

definition process_network_packet :: "env \<Rightarrow> packet \<Rightarrow> ui \<Rightarrow> ui result" where
  "process_network_packet env p u =
     (case payload p of
        Channel c \<Rightarrow>
          (case channel_action_of (ch_action c) of
             Some CHANNEL_MESSAGE \<Rightarrow> ui_receive_channel_message p c u
           | Some CHANNEL_CREATE \<Rightarrow> channel_reply env False c u
           | Some CHANNEL_DELETE \<Rightarrow> channel_reply env True c u
           | _ \<Rightarrow> Inr u)
      | Dm d \<Rightarrow> if dm_action d = dm_code DM_MESSAGE then ui_receive_dm_message p d u else Inr u
      | Server v \<Rightarrow> ui_update_server_state env p v u
      | Auth a \<Rightarrow> ui_handle_auth_response env a u
      | Social v \<Rightarrow>
          (case social_action_of (soc_action v) of
             Some SOCIAL_LIST_FRIENDS \<Rightarrow> Inr (friend_list_packet env p v u)
           | Some SOCIAL_LIST_USERS \<Rightarrow> Inr (user_list_packet p v u)
           | Some SOCIAL_UPDATE_STATUS \<Rightarrow> status_packet env v u
           | _ \<Rightarrow> Inr u)
      | System _ _ \<Rightarrow> Inr u)"

end
