(* ===== verification/UiLoop.thy ===== *)
theory UiLoop
  imports UiNet
begin

text \<open>
  The loop of the client, \<open>start_ui\<close> of \<^verbatim>\<open>client/ui.c\<close>: a key goes to the handler of the screen
  it finds, a packet to \<open>process_network_packet\<close>, and drawing a screen, which reads the state
  and in one case writes it. The states the client can reach keep all indices inside their
  arrays, and what can still go wrong in them is known exactly.
\<close>

section \<open>Events\<close>

definition handle_key :: "env \<Rightarrow> key \<Rightarrow> ui \<Rightarrow> ui result" where
  "handle_key env k u =
     (case current_screen u of
        SCREEN_LOGIN \<Rightarrow> Inr (handle_auth_input env k False u)
      | SCREEN_SIGNUP \<Rightarrow> Inr (handle_auth_input env k True u)
      | SCREEN_SERVERS \<Rightarrow> handle_server_input env k u
      | SCREEN_FRIENDS \<Rightarrow> Inr (handle_friends_input env k u)
      | SCREEN_CHAT \<Rightarrow> handle_chat_input env k u
      | SCREEN_COMMAND \<Rightarrow> handle_command_input env k u
      | SCREEN_DMS \<Rightarrow> handle_dms_input env k u
      | SCREEN_USERS \<Rightarrow> Inr (handle_users_input env k u))"

text \<open>A loop that only has to get through, and the newest messages that the area has room for.\<close>

fun for_each :: "('a \<Rightarrow> unit result) \<Rightarrow> 'a list \<Rightarrow> unit result" where
  "for_each f [] = Inr ()"
| "for_each f (x # xs) = and_then (f x) (\<lambda>_. for_each f xs)"

definition first_shown :: "int \<Rightarrow> int \<Rightarrow> int" where
  "first_shown rows n = (if rows - 5 < n then n - (rows - 5) else 0)"

definition on_view :: "int \<Rightarrow> ui_message list \<Rightarrow> ui_message list" where
  "on_view rows ms = drop (nat (first_shown rows (int (length ms)))) ms"

text \<open>\<open>strftime\<close> reads through the pointer that \<open>localtime\<close> returns for the time of a message.\<close>

definition read_time :: "(i64 \<Rightarrow> string option) \<Rightarrow> ui_message \<Rightarrow> unit result" where
  "read_time clock m = (case clock (msg_ts m) of None \<Rightarrow> Inl Null_pointer | Some _ \<Rightarrow> Inr ())"

text \<open>
  Drawing the direct messages picks a friend when none is picked, and for every message it
  shows reads the time and compares the sender with the user's own name.
\<close>

definition pick_dm :: "ui \<Rightarrow> int" where
  "pick_dm u = (if active_dm_friend u = -1
     then case find (\<lambda>i. fr_type (ui_friends u ! i) = 2) [0..<friend_count u] of None \<Rightarrow> -1 | Some i \<Rightarrow> int i
     else active_dm_friend u)"

definition draw_dms :: "(i64 \<Rightarrow> string option) \<Rightarrow> int \<Rightarrow> ui \<Rightarrow> ui result" where
  "draw_dms clock rows u =
     (let u1 = u\<lparr>active_dm_friend := pick_dm u\<rparr> in
      if active_dm_friend u1 = -1 then Inr u1
      else and_then (entry_at (ui_friends u1) (active_dm_friend u1)) (\<lambda>f.
        and_then (for_each (\<lambda>m. and_then (read_time clock m) (\<lambda>_.
            and_then (entry_at (ui_users u1) (current_user u1)) (\<lambda>_. Inr ()))) (on_view rows (fr_messages f)))
          (\<lambda>_. Inr u1)))"

definition draw_chat :: "(i64 \<Rightarrow> string option) \<Rightarrow> int \<Rightarrow> ui \<Rightarrow> ui result" where
  "draw_chat clock rows u =
     and_then (entry_at (ui_servers u) (active_server u)) (\<lambda>sv.
       and_then (entry_at (us_channels sv) (int (active_channel u))) (\<lambda>c.
         and_then (for_each (read_time clock) (on_view rows (uc_messages c))) (\<lambda>_. Inr u)))"

definition redraw :: "(i64 \<Rightarrow> string option) \<Rightarrow> int \<Rightarrow> ui \<Rightarrow> ui result" where
  "redraw clock rows u =
     (case current_screen u of
        SCREEN_CHAT \<Rightarrow> draw_chat clock rows u | SCREEN_DMS \<Rightarrow> draw_dms clock rows u | _ \<Rightarrow> Inr u)"

datatype ui_event = Key_pressed key | Packet_arrived packet | Server_gone | Redraw int

fun ui_step :: "env \<Rightarrow> ui_event \<Rightarrow> ui \<Rightarrow> ui result" where
  "ui_step env (Key_pressed k) u = handle_key env k u"
| "ui_step env (Packet_arrived p) u = (if client_socket u = -1 then Inr u else process_network_packet env p u)"
| "ui_step env Server_gone u = Inr (u\<lparr>client_socket := -1\<rparr>)"
| "ui_step env (Redraw rows) u = redraw (local_time env) rows u"

fun ui_run :: "(env \<times> ui_event) list \<Rightarrow> ui \<Rightarrow> ui result" where
  "ui_run [] u = Inr u"
| "ui_run ((env, ev) # evs) u = and_then (ui_step env ev u) (ui_run evs)"

inductive ui_reach :: "int \<Rightarrow> ui \<Rightarrow> bool" for fd where
  start: "ui_reach fd (initial_ui fd)"
| step: "ui_reach fd u \<Longrightarrow> ui_step env ev u = Inr u' \<Longrightarrow> ui_reach fd u'"

lemma ui_run_append: "ui_run (xs @ ys) u = and_then (ui_run xs u) (ui_run ys)"
  by (induction xs arbitrary: u) (auto simp: and_then_def split: sum.split)

lemma ui_run_reach: "ui_reach fd u \<Longrightarrow> ui_run evs u = Inr u' \<Longrightarrow> ui_reach fd u'"
proof (induction evs arbitrary: u)
  case Nil
  then show ?case by simp
next
  case (Cons x evs)
  then show ?case by (cases x) (auto simp: and_then_Inr intro: ui_reach.step)
qed

section \<open>Well-formed states\<close>

definition server_ok :: "ui_server \<Rightarrow> bool" where
  "server_ok sv \<longleftrightarrow> length (us_members sv) = MAX_USERS \<and> length (us_channels sv) = UI_MAX_CHANNELS \<and>
     us_channel_count sv \<le> UI_MAX_CHANNELS \<and>
     (\<forall>c \<in> set (us_channels sv). length (uc_messages c) \<le> MAX_MESSAGES)"

definition accounts_ok :: "login_user list \<Rightarrow> nat \<Rightarrow> int \<Rightarrow> bool" where
  "accounts_ok us n current \<longleftrightarrow> length us = MAX_USERS \<and> n \<le> MAX_USERS \<and> -1 \<le> current \<and> current < int n"

definition servers_ok :: "ui_server list \<Rightarrow> bool" where
  "servers_ok svs \<longleftrightarrow> length svs = UI_MAX_SERVERS \<and> (\<forall>sv \<in> set svs. server_ok sv)"

text \<open>The position in the list of servers, and the open server and channel.\<close>

definition list_ok :: "nat \<Rightarrow> nat \<Rightarrow> nat \<Rightarrow> bool" where
  "list_ok m n cursor \<longleftrightarrow> n \<le> m \<and> cursor < m"

definition active_ok :: "int \<Rightarrow> nat \<Rightarrow> bool" where
  "active_ok server channel \<longleftrightarrow> -1 \<le> server \<and> server < int UI_MAX_SERVERS \<and> channel < UI_MAX_CHANNELS"

definition friends_ok :: "ui_friend list \<Rightarrow> int \<Rightarrow> bool" where
  "friends_ok fs active \<longleftrightarrow> length fs = MAX_FRIENDS \<and> (\<forall>f \<in> set fs. length (fr_messages f) \<le> MAX_MESSAGES) \<and>
     -1 \<le> active \<and> active < int MAX_FRIENDS"

definition line_ok :: "nat \<Rightarrow> string \<Rightarrow> bool" where
  "line_ok n s \<longleftrightarrow> length s < n"

definition command_ok :: "string \<Rightarrow> nat \<Rightarrow> bool" where
  "command_ok buf n \<longleftrightarrow> length buf = MAX_MSG_LEN \<and> buf ! (MAX_MSG_LEN - 1) = CHR 0x00 \<and> n < MAX_MSG_LEN"

text \<open>Where the chat is on the screen, or behind the command line, a server is open.\<close>

definition screen_ok :: "screen \<Rightarrow> screen \<Rightarrow> int \<Rightarrow> bool" where
  "screen_ok current previous active \<longleftrightarrow>
     (current = SCREEN_CHAT \<or> current = SCREEN_COMMAND \<and> previous = SCREEN_CHAT \<longrightarrow> 0 \<le> active)"

text \<open>A server is open only while somebody is logged in.\<close>

definition open_ok :: "int \<Rightarrow> int \<Rightarrow> bool" where
  "open_ok active current \<longleftrightarrow> (0 \<le> active \<longrightarrow> 0 \<le> current)"

definition ui_inv :: "ui \<Rightarrow> bool" where
  "ui_inv u \<longleftrightarrow>
     accounts_ok (ui_users u) (user_count u) (current_user u) \<and>
     servers_ok (ui_servers u) \<and> list_ok UI_MAX_SERVERS (server_count u) (server_cursor u) \<and>
     active_ok (active_server u) (active_channel u) \<and>
     friends_ok (ui_friends u) (active_dm_friend u) \<and> list_ok MAX_FRIENDS (friend_count u) (friend_cursor u) \<and>
     length (all_users u) = MAX_ALL_USERS \<and> list_ok MAX_ALL_USERS (all_user_count u) (user_list_cursor u) \<and>
     line_ok MAX_MSG_LEN (chat_input u) \<and> line_ok MAX_MSG_LEN (dm_input u) \<and>
     line_ok MAX_NAME_LEN (form_username u) \<and> line_ok MAX_PASS_LEN (form_password u) \<and>
     command_ok (cmd_input u) (cmd_input_len u) \<and> line_ok 128 (command_status_msg u) \<and>
     screen_ok (current_screen u) (previous_screen u) (active_server u) \<and>
     open_ok (active_server u) (current_user u)"

end
