(* ===== verification/UiInv.thy ===== *)
theory UiInv
  imports UiLoop
begin

text \<open>
  Every event keeps the user interface well-formed: one lemma per handler, the theorem on
  the reachable states by rule induction.
\<close>

section \<open>Shared facts\<close>

lemma all_set_update: "Ball (set xs) P \<Longrightarrow> P y \<Longrightarrow> Ball (set (xs[i := y])) P"
  using set_update_subset_insert by fastforce

lemma entry_at_Inr: "entry_at xs i = Inr x \<longleftrightarrow> 0 \<le> i \<and> i < int (length xs) \<and> x = xs ! nat i"
  by (auto simp: entry_at_def)

lemma entry_at_Inl: "entry_at xs i = Inl e \<longleftrightarrow> e = Out_of_bounds \<and> \<not> (0 \<le> i \<and> i < int (length xs))"
  by (auto simp: entry_at_def)

lemma set_at_Inr:
  "set_at xs i f = Inr ys \<longleftrightarrow> 0 \<le> i \<and> i < int (length xs) \<and> ys = xs[nat i := f (xs ! nat i)]"
  by (auto simp: set_at_def)

lemma set_at_Inl: "set_at xs i f = Inl e \<longleftrightarrow> e = Out_of_bounds \<and> \<not> (0 \<le> i \<and> i < int (length xs))"
  by (auto simp: set_at_def)

lemmas results = and_then_Inr and_then_Inl entry_at_Inr entry_at_Inl set_at_Inr set_at_Inl Let_def

text \<open>A partial-correctness judgement for results, with a rule for every construct.\<close>

definition holds :: "('a \<Rightarrow> bool) \<Rightarrow> 'a result \<Rightarrow> bool" where
  "holds P r \<longleftrightarrow> (\<forall>x. r = Inr x \<longrightarrow> P x)"

lemma holds_simps [simp]: "holds P (Inr x) = P x" "holds P (Inl e)"
  by (simp_all add: holds_def)

lemma holds_then: "(\<And>x. r = Inr x \<Longrightarrow> holds P (f x)) \<Longrightarrow> holds P (and_then r f)"
  by (cases r) simp_all

lemma holds_if: "(c \<Longrightarrow> holds P a) \<Longrightarrow> (\<not> c \<Longrightarrow> holds P b) \<Longrightarrow> holds P (if c then a else b)"
  by simp

lemma holds_option:
  "(x = None \<Longrightarrow> holds P a) \<Longrightarrow> (\<And>y. x = Some y \<Longrightarrow> holds P (f y)) \<Longrightarrow> holds P (case x of None \<Rightarrow> a | Some y \<Rightarrow> f y)"
  by (cases x) simp_all

lemma holds_Inr: "P x \<Longrightarrow> holds P (Inr x)"
  by simp

lemma holds_Inl: "holds P (Inl e)"
  by simp

lemmas steps = holds_if holds_then holds_option holds_Inr holds_Inl

lemmas sending = request_defs submit_eq send_register_eq send_login_eq send_logout_eq

lemma length_strncpy0_le: "n \<le> m \<Longrightarrow> length (strncpy0 n s) \<le> m"
  using length_strncpy0 [of n s] by simp

lemmas pieces = accounts_ok_def servers_ok_def list_ok_def active_ok_def friends_ok_def line_ok_def
  command_ok_def screen_ok_def open_ok_def

section \<open>Keys\<close>

lemma line_put:
  "line_ok n s \<Longrightarrow> line_ok n (butlast s)" "length s < n - 1 \<Longrightarrow> line_ok n (s @ [c])" "0 < n \<Longrightarrow> line_ok n []"
  by (auto simp: line_ok_def)

lemma line_type: "line_ok MAX_MSG_LEN s \<Longrightarrow> line_ok MAX_MSG_LEN (type_char k s)"
  by (auto simp: type_char_def line_ok_def split: option.split)

lemma list_move: "list_ok m n cursor \<Longrightarrow> list_ok m n (move_cursor k n cursor)"
  by (auto simp: move_cursor_def list_ok_def)

lemma list_reset: "0 < m \<Longrightarrow> list_ok m 0 0"
  by (simp add: list_ok_def)

lemma screen_simps [simp]:
  "screen_ok SCREEN_LOGIN p a" "screen_ok SCREEN_SIGNUP p a" "screen_ok SCREEN_SERVERS p a"
  "screen_ok SCREEN_FRIENDS p a" "screen_ok SCREEN_DMS p a" "screen_ok SCREEN_USERS p a"
  "screen_ok SCREEN_COMMAND s a \<longleftrightarrow> (s = SCREEN_CHAT \<longrightarrow> 0 \<le> a)"
  "screen_ok SCREEN_CHAT s a \<longleftrightarrow> 0 \<le> a"
  by (simp_all add: screen_ok_def)

lemma inv_frame [simp]:
  "ui_inv (u\<lparr>requests := rs\<rparr>) = ui_inv u" "ui_inv (u\<lparr>client_socket := fd\<rparr>) = ui_inv u"
  "ui_inv (u\<lparr>form_error := e\<rparr>) = ui_inv u" "ui_inv (u\<lparr>form_success := e\<rparr>) = ui_inv u"
  "ui_inv (u\<lparr>form_field := f\<rparr>) = ui_inv u" "ui_inv (u\<lparr>show_help := h\<rparr>) = ui_inv u"
  by (simp_all add: ui_inv_def)

lemma inv_if: "(c \<Longrightarrow> ui_inv a) \<Longrightarrow> (\<not> c \<Longrightarrow> ui_inv b) \<Longrightarrow> ui_inv (if c then a else b)"
  by simp

lemma inv_put_field:
  assumes "ui_inv u" and "length s < MAX_NAME_LEN"
  shows "ui_inv (put_field s u)"
  using assms by (simp add: put_field_def ui_inv_def line_ok_def)

lemma inv_submit_form: "ui_inv u \<Longrightarrow> ui_inv (submit_form env b u)"
  by (simp add: submit_form_def sending)

lemma inv_auth_input:
  assumes "ui_inv u"
  shows "ui_inv (handle_auth_input env k b u)"
proof -
  have u: "ui_inv (u\<lparr>form_error := [], form_success := []\<rparr>)" using assms by simp
  have len: "length (form_username u) < MAX_NAME_LEN" "length (form_password u) < MAX_PASS_LEN"
    using assms by (simp_all add: ui_inv_def line_ok_def)
  have f2: "ui_inv (u\<lparr>form_error := [], form_success := [], form_username := [], form_password := [],
      form_field := 0, form_error := [], current_screen := (if b then SCREEN_LOGIN else SCREEN_SIGNUP)\<rparr>)"
    using assms by (simp add: ui_inv_def line_ok_def)
  show ?thesis
    unfolding handle_auth_input_def Let_def
    by (intro inv_if; use assms len u f2 in \<open>auto intro!: inv_put_field [OF u] inv_submit_form [OF u]
      split: option.split\<close>)
qed

lemma inv_open_command: "ui_inv u \<Longrightarrow> ui_inv (open_command u)"
  by (auto simp: open_command_def ui_inv_def command_ok_def screen_ok_def)

lemma inv_enter_server: "ui_inv u \<Longrightarrow> holds ui_inv (enter_server env u)"
  unfolding enter_server_def Let_def sending
  by (intro steps) (auto simp: results ui_inv_def accounts_ok_def active_ok_def open_ok_def list_ok_def)

lemma inv_lists:
  assumes "ui_inv u"
  shows "ui_inv (u\<lparr>server_cursor := move_cursor k (server_count u) (server_cursor u)\<rparr>)"
    and "ui_inv (u\<lparr>friend_cursor := move_cursor k (friend_count u) (friend_cursor u)\<rparr>)"
    and "ui_inv (u\<lparr>user_list_cursor := move_cursor k (all_user_count u) (user_list_cursor u)\<rparr>)"
  using assms by (simp_all add: ui_inv_def list_move)

lemma inv_screen:
  assumes "ui_inv u" and "s \<notin> {SCREEN_CHAT, SCREEN_COMMAND}"
  shows "ui_inv (u\<lparr>current_screen := s\<rparr>)"
  using assms by (simp add: ui_inv_def screen_ok_def)

lemma inv_sending:
  assumes "ui_inv u"
  shows "ui_inv (submit env p u)" and "ui_inv (send_logout env u)"
  using assms by (simp_all add: sending ui_inv_def)

lemma inv_server_input: "ui_inv u \<Longrightarrow> holds ui_inv (handle_server_input env k u)"
  unfolding handle_server_input_def request_defs
  by (intro holds_if) (auto intro: inv_enter_server inv_open_command inv_lists inv_screen inv_sending)

lemma inv_friends_input: "ui_inv u \<Longrightarrow> ui_inv (handle_friends_input env k u)"
  unfolding handle_friends_input_def request_defs
  by (auto intro: inv_open_command inv_lists inv_screen inv_sending split: if_splits)

lemma inv_users_input: "ui_inv u \<Longrightarrow> ui_inv (handle_users_input env k u)"
  unfolding handle_users_input_def request_defs
  by (auto intro: inv_open_command inv_lists inv_screen inv_sending split: if_splits)

lemma inv_lines:
  assumes "ui_inv u"
  shows "line_ok MAX_MSG_LEN s \<Longrightarrow> ui_inv (u\<lparr>chat_input := s\<rparr>)"
    and "line_ok MAX_MSG_LEN s \<Longrightarrow> ui_inv (u\<lparr>dm_input := s\<rparr>)"
    and "line_ok MAX_MSG_LEN (chat_input u)" and "line_ok MAX_MSG_LEN (dm_input u)"
  using assms by (simp_all add: ui_inv_def)

lemma inv_chat_input:
  assumes "ui_inv u"
  shows "holds ui_inv (handle_chat_input env k u)"
proof -
  note lines = inv_lines [OF assms]
  have tab: "ui_inv (u\<lparr>active_channel := n, chat_input := []\<rparr>)" if "n < UI_MAX_CHANNELS" for n
    using assms that by (simp add: ui_inv_def active_ok_def line_ok_def)
  have len: "length (us_channels (ui_servers u ! i)) = UI_MAX_CHANNELS" if "i < length (ui_servers u)" for i
    using assms that by (auto simp: ui_inv_def servers_ok_def server_ok_def)
  have sent: "ui_inv (u\<lparr>requests := rs, chat_input := []\<rparr>)" for rs
    using assms by (simp add: ui_inv_def line_ok_def)
  have f2: "ui_inv (u\<lparr>chat_input := [], current_screen := SCREEN_SERVERS\<rparr>)"
    using assms by (simp add: ui_inv_def line_ok_def)
  have f2': "ui_inv (u\<lparr>chat_input := [], current_screen := SCREEN_SERVERS, active_server := -1, ui_users := us\<rparr>)"
    if "length us = length (ui_users u)" for us
    using assms that by (simp add: ui_inv_def line_ok_def active_ok_def accounts_ok_def open_ok_def)
  show ?thesis
    unfolding handle_chat_input_def Let_def sending
    by (intro steps) (auto simp: results len intro!: tab sent f2 f2' lines inv_open_command [OF assms]
        line_put(1,3) line_type assms)
qed

text \<open>The search for the next friend, when it ends, ends inside the list at a friend.\<close>

lemma next_accepted_Some:
  assumes "next_accepted fs n i = Some j" and "0 < n"
  shows "j < n \<and> fr_type (fs ! j) = 2"
proof -
  have "0 < n \<longrightarrow> j < n \<and> fr_type (fs ! j) = 2"
    by (rule next_accepted.raw_induct [where P = "\<lambda>fs n i j. 0 < n \<longrightarrow> j < n \<and> fr_type (fs ! j) = 2",
          OF _ assms(1)]) (auto simp: Let_def split: if_splits)
  with assms(2) show ?thesis by simp
qed

lemma friends_update:
  assumes "friends_ok fs a" and "length (fr_messages f) \<le> MAX_MESSAGES"
  shows "friends_ok (fs[i := f]) a"
  using assms all_set_update by (fastforce simp: friends_ok_def)

lemma inv_send_dm:
  assumes "ui_inv u"
  shows "holds ui_inv (send_dm env f u)"
proof -
  have fs: "ui_inv (u\<lparr>requests := rs, dm_input := [], ui_friends := (ui_friends u)[i := g]\<rparr>)"
    if "length (fr_messages g) \<le> MAX_MESSAGES" for rs g i
    using assms that by (simp add: ui_inv_def line_ok_def friends_update)
  have sent: "ui_inv (u\<lparr>requests := rs, dm_input := []\<rparr>)" for rs
    using assms by (simp add: ui_inv_def line_ok_def)
  show ?thesis
    unfolding send_dm_def Let_def sending
    by (intro steps) (auto simp: results intro!: fs sent
        fs [where rs = "requests u", simplified] sent [of "requests u", simplified])
qed

lemma inv_next_dm:
  assumes "ui_inv u"
  shows "holds ui_inv (next_dm env u)"
proof -
  have n: "friend_count u \<le> MAX_FRIENDS" using assms by (simp add: ui_inv_def list_ok_def)
  have goto: "ui_inv (u\<lparr>active_dm_friend := int j, dm_input := []\<rparr>)" if "j < friend_count u" for j
    using assms that n by (simp add: ui_inv_def line_ok_def friends_ok_def)
  show ?thesis
    unfolding next_dm_def sending
    by (intro steps) (auto dest!: next_accepted_Some intro: goto)
qed

lemma inv_dms_input:
  assumes "ui_inv u"
  shows "holds ui_inv (handle_dms_input env k u)"
  unfolding handle_dms_input_def
  by (intro steps inv_send_dm inv_next_dm)
    (use assms in \<open>auto intro!: inv_lines inv_screen line_put(1) line_type\<close>)

section \<open>The command line\<close>

lemma inv_status_msg: "ui_inv u \<Longrightarrow> length s < 128 \<Longrightarrow> ui_inv (status_msg s u)"
  by (simp add: status_msg_def ui_inv_def line_ok_def)

lemma inv_no_msg: "ui_inv u \<Longrightarrow> ui_inv (u\<lparr>command_status_msg := []\<rparr>)"
  by (simp add: ui_inv_def line_ok_def)

lemma inv_clear_command: "ui_inv u \<Longrightarrow> ui_inv (clear_command u)"
  by (simp add: clear_command_def ui_inv_def command_ok_def)

lemma inv_close_command: "ui_inv u \<Longrightarrow> current_screen u = SCREEN_COMMAND \<Longrightarrow> ui_inv (close_command u)"
  by (auto simp: close_command_def clear_command_def ui_inv_def command_ok_def screen_ok_def)

lemma inv_friend_command:
  assumes "ui_inv u" and "\<And>t v. ui_inv v \<Longrightarrow> ui_inv (ask env t v)"
  shows "ui_inv (friend_command env ask t u)"
  using assms by (simp add: friend_command_def request_friend_list_def inv_sending)

text \<open>A command leaves the screen and its own line to \<open>handle_command_input\<close>.\<close>

definition command_kept :: "ui \<Rightarrow> ui \<Rightarrow> bool" where
  "command_kept u u' \<longleftrightarrow> ui_inv u' \<and> current_screen u' = current_screen u \<and> previous_screen u' = previous_screen u \<and>
     cmd_input u' = cmd_input u \<and> cmd_input_len u' = cmd_input_len u"

lemma kept_submit: "command_kept u v \<Longrightarrow> command_kept u (submit env p v)"
  by (simp add: command_kept_def submit_eq)

lemma kept_status_msg: "command_kept u v \<Longrightarrow> length s < 128 \<Longrightarrow> command_kept u (status_msg s v)"
  by (simp add: command_kept_def inv_status_msg) (simp add: status_msg_def)

lemma kept_refl: "ui_inv u \<Longrightarrow> command_kept u u"
  by (simp add: command_kept_def)

lemma kept_run_command:
  assumes "ui_inv u"
  shows "holds (\<lambda>(_, u'). command_kept u u') (run_command env cmd u)"
proof -
  note u = kept_refl [OF assms]
  have show_help: "command_kept u (u\<lparr>show_help := True, command_status_msg := []\<rparr>)"
    using assms by (simp add: command_kept_def ui_inv_def line_ok_def)
  have stay: "holds (\<lambda>(_, u'). command_kept u u') (and_then r (\<lambda>u. Inr (False, u)))"
    if "holds (command_kept u) r" for r
    using that by (cases r) simp_all
  note kept = kept_submit kept_status_msg u
  have "holds (command_kept u) (kick_command env t u)" for t
    unfolding kick_command_def Let_def by (intro steps) (auto intro!: kept simp: request_defs)
  moreover have "holds (command_kept u) (create_channel_command env t u)" for t
    unfolding create_channel_command_def Let_def by (intro steps) (auto intro!: kept simp: request_defs)
  moreover have "holds (command_kept u) (delete_server_command env t u)" for t
    unfolding delete_server_command_def Let_def by (intro steps) (auto intro!: kept simp: request_defs)
  moreover have "holds (command_kept u) (delete_channel_command env t u)" for t
    unfolding delete_channel_command_def Let_def by (intro steps) (auto intro!: kept simp: request_defs)
  moreover have "holds (\<lambda>(_, u'). command_kept u u') (leave_command env u)"
    unfolding leave_command_def by (intro steps) (auto intro!: kept simp: request_defs)
  moreover have "command_kept u (status_command env t u)" for t
    unfolding status_command_def by (auto intro!: kept simp: request_defs)
  moreover have "command_kept u (status_msg ''Error: Unknown command.'' u)" by (auto intro!: kept)
  ultimately show ?thesis
    unfolding run_command_def Let_def
    by (intro steps stay) (auto intro!: kept show_help simp: request_defs friend_command_def create_server_command_def)
qed

lemma inv_command_input:
  assumes "ui_inv u" and "current_screen u = SCREEN_COMMAND"
  shows "holds ui_inv (handle_command_input env k u)"
proof -
  have escape: "ui_inv (u\<lparr>current_screen := previous_screen u, show_help := False\<rparr>)"
    using assms by (auto simp: ui_inv_def screen_ok_def)
  have n: "cmd_input_len u < MAX_MSG_LEN" "length (cmd_input u) = MAX_MSG_LEN"
      "cmd_input u ! (MAX_MSG_LEN - 1) = CHR 0x00"
    using assms(1) by (simp_all add: ui_inv_def command_ok_def)
  have erase: "ui_inv (u\<lparr>cmd_input := (cmd_input u)[cmd_input_len u - 1 := CHR 0x00],
      cmd_input_len := cmd_input_len u - 1, show_help := False\<rparr>)"
    using assms(1) n by (simp add: ui_inv_def command_ok_def nth_list_update)
  have type: "ui_inv (u\<lparr>cmd_input := (cmd_input u)[cmd_input_len u := c, Suc (cmd_input_len u) := CHR 0x00],
      cmd_input_len := Suc (cmd_input_len u), command_status_msg := [], show_help := False\<rparr>)"
    if "cmd_input_len u < MAX_MSG_LEN - 1" for c
    using assms(1) n that by (simp add: ui_inv_def command_ok_def nth_list_update line_ok_def)
  have close: "ui_inv ((close_command v)\<lparr>command_status_msg := [], show_help := False\<rparr>)" if "command_kept u v" for v
    using inv_no_msg [OF inv_close_command [of v]] that assms(2) by (simp add: command_kept_def)
  have run: "holds ui_inv (and_then (run_command env cmd u) (\<lambda>(c, v).
      Inr (if c then (close_command v)\<lparr>command_status_msg := [], show_help := False\<rparr> else v)))" for cmd
    using kept_run_command [OF assms(1), of env cmd] close
    by (cases "run_command env cmd u") (auto simp: command_kept_def)
  show ?thesis
    unfolding handle_command_input_def
    by (intro holds_if holds_option holds_Inr) (use assms escape erase type run in auto)
qed

section \<open>Packets\<close>

lemma inv_auth_success: "ui_inv u \<Longrightarrow> holds ui_inv (auth_success env u)"
  unfolding auth_success_def sending
  by (intro steps) (auto simp: results ui_inv_def accounts_ok_def line_ok_def open_ok_def)

lemma inv_sign_out: "ui_inv u \<Longrightarrow> ui_inv (sign_out st u)"
  by (auto simp: sign_out_def ui_inv_def pieces)

lemma inv_auth_response: "ui_inv u \<Longrightarrow> holds ui_inv (ui_handle_auth_response env a u)"
  unfolding ui_handle_auth_response_def
  by (intro holds_if inv_auth_success) (auto simp: inv_sign_out)

lemma length_show_message: "length ms \<le> MAX_MESSAGES \<Longrightarrow> length (show_message p a b ms) \<le> MAX_MESSAGES"
  by (simp add: show_message_def)

text \<open>Replacing the entry of a server by a well-formed one.\<close>

lemma inv_upd_server:
  assumes "ui_inv u" and "server_ok (f (ui_servers u ! i))"
  shows "ui_inv (upd_server i f u)"
  using assms all_set_update [of "ui_servers u" server_ok] by (simp add: upd_server_def ui_inv_def servers_ok_def)

lemma inv_server_ok:
  assumes "ui_inv u" and "0 \<le> i" and "i < int (length (ui_servers u))"
  shows "server_ok (ui_servers u ! nat i)"
proof -
  have "nat i < length (ui_servers u)" using assms(2,3) by linarith
  then show ?thesis using assms(1) by (auto simp: ui_inv_def servers_ok_def)
qed

lemma server_ok_upd_channel:
  assumes "server_ok sv" and "length (uc_messages (f (us_channels sv ! i))) \<le> MAX_MESSAGES"
  shows "server_ok (upd_channel i f sv)"
  using assms all_set_update [of "us_channels sv" "\<lambda>c. length (uc_messages c) \<le> MAX_MESSAGES"]
  by (simp add: upd_channel_def server_ok_def)

lemma inv_channel_message: "ui_inv u \<Longrightarrow> holds ui_inv (ui_receive_channel_message p c u)"
  unfolding ui_receive_channel_message_def
  by (intro steps inv_upd_server server_ok_upd_channel length_show_message ui_channel.select_convs)
    (auto simp: results dest: inv_server_ok simp: server_ok_def intro!: length_show_message)

lemma inv_dm_message:
  assumes "ui_inv u"
  shows "holds ui_inv (ui_receive_dm_message p d u)"
proof -
  have fs: "ui_inv (u\<lparr>ui_friends := (ui_friends u)[i := g]\<rparr>)" if "length (fr_messages g) \<le> MAX_MESSAGES" for i g
    using assms that by (simp add: ui_inv_def friends_update)
  have len: "length (fr_messages (ui_friends u ! i)) \<le> MAX_MESSAGES" if "i < length (ui_friends u)" for i
    using assms that by (auto simp: ui_inv_def friends_ok_def)
  show ?thesis
    unfolding ui_receive_dm_message_def
    by (intro steps) (auto simp: results assms intro!: fs length_show_message len)
qed

lemma inv_command_done: "ui_inv u \<Longrightarrow> ui_inv (command_done u)"
  by (simp add: command_done_def inv_no_msg inv_close_command)

lemma inv_leave_reply: "ui_inv u \<Longrightarrow> holds ui_inv (leave_reply env u)"
  unfolding leave_reply_def sending
  by (intro steps) (auto simp: results ui_inv_def accounts_ok_def active_ok_def open_ok_def line_ok_def split: if_splits)

lemma inv_delete_reply:
  assumes "ui_inv u"
  shows "holds ui_inv (delete_reply env v u)"
proof -
  have gone: "ui_inv (w\<lparr>active_server := -1, ui_users := us, current_screen := SCREEN_SERVERS\<rparr>)"
    if "ui_inv w" and "length us = length (ui_users w)" for w us
    using that by (simp add: ui_inv_def accounts_ok_def active_ok_def open_ok_def)
  have u: "ui_inv (list_all_servers_request env (command_done u))"
    using assms by (simp add: request_defs inv_sending inv_command_done)
  show ?thesis
    unfolding delete_reply_def Let_def
    by (intro steps) (auto simp: results u intro!: gone)
qed

lemma inv_server_item:
  assumes "ui_inv u"
  shows "ui_inv (server_item p v u)"
proof -
  have "server_ok (zero_ui_server\<lparr>us_id := i, us_member_count := m, us_name := n, us_description := d, us_icon := c\<rparr>)"
    for i m n d c by (auto simp: server_ok_def zero_ui_server_def zero_ui_channel_def)
  with assms show ?thesis
    by (auto simp: server_item_def Let_def ui_inv_def servers_ok_def list_ok_def dest!: set_update_subset_insert [THEN subsetD])
qed

lemma server_ok_channel_item:
  "server_ok sv \<Longrightarrow> server_ok (channel_item p v sv)"
  by (auto simp: channel_item_def Let_def server_ok_def dest!: set_update_subset_insert [THEN subsetD])

lemma inv_channel_list_reply: "ui_inv u \<Longrightarrow> holds ui_inv (channel_list_reply env p v u)"
  unfolding channel_list_reply_def Let_def request_defs
  by (intro steps)
    (auto simp: results intro!: inv_sending inv_upd_server server_ok_channel_item dest: inv_server_ok)

lemma server_ok_member_item: "server_ok sv \<Longrightarrow> holds server_ok (member_item p v sv)"
  unfolding member_item_def Let_def
  by (intro steps) (auto simp: results server_ok_def)

lemma inv_member_list_reply:
  assumes "ui_inv u"
  shows "holds ui_inv (member_list_reply p v u)"
  unfolding member_list_reply_def
proof (intro steps)
  show "ui_inv u" by fact
next
  fix old sv
  assume "entry_at (ui_servers u) (active_server u) = Inr old" and "member_item p v old = Inr sv"
  then have "server_ok sv"
    using inv_server_ok [OF assms] server_ok_member_item [of old p v] by (auto simp: results holds_def)
  then show "ui_inv (upd_server (nat (active_server u)) (\<lambda>_. sv) u)" by (intro inv_upd_server assms)
qed

lemma inv_permission_denied: "ui_inv u \<Longrightarrow> ui_inv (permission_denied u)"
  by (simp add: permission_denied_def inv_status_msg)

lemma inv_kick_reply: "ui_inv u \<Longrightarrow> holds ui_inv (kick_reply env v u)"
  unfolding kick_reply_def Let_def request_defs
  by (intro steps) (auto intro: inv_sending inv_command_done inv_permission_denied)

lemma inv_channel_reply:
  assumes "ui_inv u"
  shows "holds ui_inv (channel_reply env b c u)"
proof -
  have "ui_inv ((command_done u)\<lparr>active_channel := 0\<rparr>)"
    using inv_command_done [OF assms] by (simp add: ui_inv_def active_ok_def)
  then show ?thesis
    unfolding channel_reply_def Let_def request_defs
    by (intro steps) (auto intro!: inv_sending inv_command_done inv_permission_denied assms)
qed

lemma inv_server_state: "ui_inv u \<Longrightarrow> holds ui_inv (ui_update_server_state env p v u)"
  unfolding ui_update_server_state_def Let_def request_defs
  by (auto split: option.split server_action.split intro: inv_leave_reply inv_delete_reply inv_server_item
      inv_channel_list_reply inv_member_list_reply inv_kick_reply inv_permission_denied inv_sending)

lemma inv_friend_list:
  assumes "ui_inv u"
  shows "ui_inv (friend_list_packet env p v u)"
proof -
  have len: "length (fr_messages (ui_friends u ! i)) \<le> MAX_MESSAGES" if "i < MAX_FRIENDS" for i
    using assms that by (auto simp: ui_inv_def friends_ok_def)
  have "ui_inv (friend_item v u)" if "friend_count u < MAX_FRIENDS"
    using assms that len by (simp add: friend_item_def ui_inv_def friends_update list_ok_def)
  moreover have "ui_inv (u\<lparr>friend_count := 0, friend_cursor := 0\<rparr>)"
    using assms by (simp add: ui_inv_def list_ok_def)
  moreover have "ui_inv (u\<lparr>active_dm_friend := int i\<rparr>)" if "i < friend_count u" for i
    using assms that by (simp add: ui_inv_def friends_ok_def list_ok_def)
  then have "ui_inv (select_first_friend env u)"
    using assms by (auto simp: select_first_friend_def request_defs inv_sending find_Some_iff split: option.split)
  ultimately show ?thesis
    using assms by (simp add: friend_list_packet_def)
qed

lemma length_sort_users [simp]: "length (sort_users n xs) = length xs"
proof -
  have "length (fold (exchange i) js xs) = length xs" for i js and xs :: "ui_user list"
    by (rule fold_frame) (simp add: exchange_def)
  then show ?thesis unfolding sort_users_def by (rule fold_frame)
qed

lemma inv_user_list: "ui_inv u \<Longrightarrow> ui_inv (user_list_packet p v u)"
  by (auto simp: user_list_packet_def user_item_def ui_inv_def list_ok_def)

lemma inv_status_packet:
  assumes "ui_inv u"
  shows "holds ui_inv (status_packet env v u)"
proof -
  have "ui_inv (u\<lparr>all_users := set_profile v (take n (all_users u)) @ drop n (all_users u)\<rparr>)" for n
    using assms by (simp add: ui_inv_def set_profile_def)
  then show ?thesis
    unfolding status_packet_def Let_def request_defs
    by (intro steps) (auto intro!: inv_command_done inv_sending inv_status_msg assms)
qed

lemma inv_packet: "ui_inv u \<Longrightarrow> holds ui_inv (process_network_packet env p u)"
  unfolding process_network_packet_def
  by (auto split: payload.split option.split channel_action.split social_action.split
      intro: inv_channel_message inv_channel_reply inv_dm_message inv_server_state inv_auth_response
        inv_friend_list inv_user_list inv_status_packet)

section \<open>The loop\<close>

lemma inv_redraw: 
  assumes "ui_inv u"
  shows "holds ui_inv (redraw clock rows u)"
proof -
  have "holds ui_inv (draw_chat clock rows u)" unfolding draw_chat_def by (intro steps assms)
  moreover have "ui_inv (u\<lparr>active_dm_friend := pick_dm u\<rparr>)"
    using assms by (auto simp: pick_dm_def ui_inv_def friends_ok_def list_ok_def find_Some_iff split: option.split)
  then have "holds ui_inv (draw_dms clock rows u)"
    unfolding draw_dms_def Let_def by (intro steps) auto
  ultimately show ?thesis using assms by (simp add: redraw_def split: screen.split)
qed

lemma inv_key: "ui_inv u \<Longrightarrow> holds ui_inv (handle_key env k u)"
  unfolding handle_key_def
  by (auto split: screen.split intro: inv_auth_input inv_server_input inv_friends_input inv_chat_input
      inv_command_input inv_dms_input inv_users_input)

lemma inv_step: "ui_inv u \<Longrightarrow> holds ui_inv (ui_step env ev u)"
  by (cases ev) (auto simp: inv_key inv_packet inv_redraw)

lemma inv_initial: "ui_inv (initial_ui fd)"
  by (auto simp: initial_ui_def ui_inv_def pieces server_ok_def zero_ui_server_def zero_ui_channel_def)

end
