(* ===== verification/UiSafety.thy ===== *)
theory UiSafety
  imports UiInv
begin

text \<open>
  What can go wrong in the client. In a well-formed state an event has a result except in
  the situations of \<open>hazard\<close>, which are all real: the code reads or writes outside an array,
  divides by zero or does not come back. The search for the next friend is treated on its own.
\<close>

section \<open>The next friend\<close>

text \<open>
  The search returns when the list has an accepted friend, and then with the first one
  after the current position, around the end of the list.
\<close>

lemma next_accepted_found:
  assumes "0 < n" and "fr_type (fs ! ((i + d) mod n)) = 2" and "0 < d"
    and "\<And>m. 0 < m \<Longrightarrow> m < d \<Longrightarrow> fr_type (fs ! ((i + m) mod n)) \<noteq> 2"
  shows "next_accepted fs n i = Some ((i + d) mod n)"
  using assms(2-4)
proof (induction d arbitrary: i)
  case 0
  then show ?case by simp
next
  case (Suc d)
  let ?j = "(i + 1) mod n"
  show ?case
  proof (cases "d = 0")
    case True
    with Suc.prems(1) show ?thesis by (simp add: next_accepted.simps [of fs n i] Let_def)
  next
    case False
    have shift: "(?j + m) mod n = (i + Suc m) mod n" for m by (simp add: mod_simps)
    have "fr_type (fs ! ?j) \<noteq> 2" using Suc.prems(3) [of 1] False by simp
    then have "next_accepted fs n i = next_accepted fs n ?j"
      by (simp add: next_accepted.simps [of fs n i] Let_def)
    moreover have "next_accepted fs n ?j = Some ((?j + d) mod n)"
    proof (rule Suc.IH)
      show "fr_type (fs ! ((?j + d) mod n)) = 2" using Suc.prems(1) by (simp only: shift)
      show "0 < d" using False by simp
      show "fr_type (fs ! ((?j + m) mod n)) \<noteq> 2" if "0 < m" "m < d" for m
        using Suc.prems(3) [of "Suc m"] that unfolding shift by simp
    qed
    ultimately show ?thesis by (simp only: shift)
  qed
qed

lemma good_distance:
  assumes "0 < n" and "\<exists>j < n. fr_type (fs ! j) = 2"
  shows "\<exists>d. 0 < d \<and> fr_type (fs ! ((i + d) mod n)) = 2"
proof -
  obtain j where j: "j < n" "fr_type (fs ! j) = 2" using assms(2) by blast
  obtain q r where i: "i = n * q + r" and r: "r < n"
    using assms(1) mult_div_mod_eq [of n i] mod_less_divisor [of n i] by metis
  have "i + (n + j - r) = j + n * (q + 1)" unfolding i using r by simp
  then have "(i + (n + j - r)) mod n = (j + n * (q + 1)) mod n" by (simp only:)
  also have "\<dots> = j" using j(1) by (simp only: mod_mult_self2 mod_less)
  finally have "fr_type (fs ! ((i + (n + j - r)) mod n)) = 2" using j(2) by simp
  moreover have "0 < n + j - r" using r by linarith
  ultimately show ?thesis by blast
qed

lemma next_accepted_returns:
  assumes "0 < n"
  shows "next_accepted fs n i \<noteq> None \<longleftrightarrow> (\<exists>j < n. fr_type (fs ! j) = 2)"
proof
  assume "next_accepted fs n i \<noteq> None"
  then show "\<exists>j < n. fr_type (fs ! j) = 2" using next_accepted_Some [OF _ assms] by blast
next
  assume accepted: "\<exists>j < n. fr_type (fs ! j) = 2"
  let ?good = "\<lambda>d. 0 < d \<and> fr_type (fs ! ((i + d) mod n)) = 2"
  from good_distance [OF assms accepted] obtain d where "?good d" by blast
  then have "?good (LEAST d. ?good d)" by (rule LeastI)
  moreover have "\<not> ?good m" if "m < (LEAST d. ?good d)" for m using that by (rule not_less_Least)
  ultimately have "next_accepted fs n i = Some ((i + (LEAST d. ?good d)) mod n)"
    using assms by (intro next_accepted_found) auto
  then show "next_accepted fs n i \<noteq> None" by simp
qed

section \<open>When a result is missing\<close>

definition fails :: "'a result \<Rightarrow> bool" where
  "fails r \<longleftrightarrow> (\<exists>e. r = Inl e)"

lemma fails_simps [simp]:
  "fails (Inl e)" "\<not> fails (Inr x)"
  "fails (entry_at xs i) \<longleftrightarrow> \<not> (0 \<le> i \<and> i < int (length xs))"
  "fails (set_at xs i f) \<longleftrightarrow> \<not> (0 \<le> i \<and> i < int (length xs))"
  by (auto simp: fails_def entry_at_def set_at_def)

lemma fails_then [simp]: "fails (and_then r f) \<longleftrightarrow> fails r \<or> (\<exists>x. r = Inr x \<and> fails (f x))"
  by (cases r) (auto simp: fails_def)

lemma fails_if [simp]: "fails (if c then a else b) \<longleftrightarrow> (if c then fails a else fails b)"
  by simp

lemma fails_scan [simp]:
  "fails (scan_array P xs n) \<longleftrightarrow> int (length xs) < n \<and> (\<forall>x \<in> set xs. \<not> P x)"
proof (cases "n \<le> int (length xs)")
  case True
  then show ?thesis by (simp add: scan_array_def split: option.split)
next
  case False
  then have "take (nat n) xs = xs" by simp
  with False show ?thesis by (auto simp: scan_array_def find_None_iff find_Some_iff split: option.split)
qed

lemma fails_for_each [simp]: "fails (for_each f xs) \<longleftrightarrow> (\<exists>x \<in> set xs. fails (f x))"
proof (induction xs)
  case (Cons x xs)
  then show ?case by (cases "f x") (auto simp: fails_def)
qed (simp add: fails_def)

lemma fails_read_time [simp]: "fails (read_time clock m) \<longleftrightarrow> clock (msg_ts m) = None"
  by (simp add: read_time_def fails_def split: option.split)

lemma read_time_done [simp]: "read_time clock m = Inr () \<longleftrightarrow> clock (msg_ts m) \<noteq> None"
  by (simp add: read_time_def split: option.split)

section \<open>Hazards\<close>

definition key_hazard :: "key \<Rightarrow> ui \<Rightarrow> bool" where
  "key_hazard k u \<longleftrightarrow>
     (case current_screen u of
        SCREEN_SERVERS \<Rightarrow> is_return k \<and> 0 < server_count u \<and> current_user u < 0
      | SCREEN_CHAT \<Rightarrow> is_tab k \<and> us_channel_count (ui_servers u ! nat (active_server u)) = 0
      | SCREEN_DMS \<Rightarrow> active_dm_friend u \<noteq> -1 \<and>
          (is_tab k \<and> (\<forall>i < friend_count u. fr_type (ui_friends u ! i) \<noteq> 2) \<or>
           is_return k \<and> dm_input u \<noteq> [] \<and> current_user u < 0 \<and>
             length (fr_messages (ui_friends u ! nat (active_dm_friend u))) < MAX_MESSAGES)
      | SCREEN_COMMAND \<Rightarrow>
          (let cmd = cstr (cmd_input u); sv = ui_servers u ! nat (active_server u) in
           is_return k \<and> starts ''/kick '' cmd \<and> previous_screen u = SCREEN_CHAT \<and> in_active_server u \<and>
           argument 6 cmd \<noteq> [] \<and> int MAX_USERS < sint (us_member_count sv) \<and>
           (\<forall>m \<in> set (us_members sv). mb_name m \<noteq> argument 6 cmd))
      | _ \<Rightarrow> False)"

definition packet_hazard :: "packet \<Rightarrow> ui \<Rightarrow> bool" where
  "packet_hazard p u \<longleftrightarrow>
     (case payload p of
        Auth a \<Rightarrow> auth_action_of (auth_action a) \<in> {Some AUTH_REGISTER, Some AUTH_LOGIN} \<and>
          auth_status a = resp RESP_OK \<and> user_count u = MAX_USERS
      | Server v \<Rightarrow> server_action_of (srv_action v) = Some SERVER_LIST_MEMBERS \<and> in_active_server u \<and>
          \<not> starts_list p \<and> 0 <s list_total p \<and> us_member_count (ui_servers u ! nat (active_server u)) <s 0
      | _ \<Rightarrow> False)"

definition redraw_hazard :: "(i64 \<Rightarrow> string option) \<Rightarrow> int \<Rightarrow> ui \<Rightarrow> bool" where
  "redraw_hazard clock rows u \<longleftrightarrow>
     (case current_screen u of
        SCREEN_CHAT \<Rightarrow> (\<exists>m \<in> set (on_view rows
          (uc_messages (us_channels (ui_servers u ! nat (active_server u)) ! active_channel u))). clock (msg_ts m) = None)
      | SCREEN_DMS \<Rightarrow> pick_dm u \<noteq> -1 \<and> (\<exists>m \<in> set (on_view rows (fr_messages (ui_friends u ! nat (pick_dm u)))).
          clock (msg_ts m) = None \<or> current_user u < 0)
      | _ \<Rightarrow> False)"

fun hazard :: "env \<Rightarrow> ui_event \<Rightarrow> ui \<Rightarrow> bool" where
  "hazard env (Key_pressed k) u = key_hazard k u"
| "hazard env (Packet_arrived p) u = (client_socket u \<noteq> -1 \<and> packet_hazard p u)"
| "hazard env Server_gone u = False"
| "hazard env (Redraw rows) u = redraw_hazard (local_time env) rows u"

section \<open>Exactly the hazards fail\<close>

lemma fails_send_dm:
  "fails (send_dm env f u) \<longleftrightarrow> length (fr_messages f) < MAX_MESSAGES \<and>
     \<not> (0 \<le> current_user u \<and> current_user u < int (length (ui_users u)))"
  by (auto simp: send_dm_def Let_def)

lemma fails_next_dm:
  assumes "ui_inv u"
  shows "fails (next_dm env u) \<longleftrightarrow> (\<forall>i < friend_count u. fr_type (ui_friends u ! i) \<noteq> 2)"
proof (cases "friend_count u = 0")
  case True
  then show ?thesis by (simp add: next_dm_def)
next
  case False
  have len: "friend_count u \<le> length (ui_friends u)"
    using assms by (simp add: ui_inv_def friends_ok_def list_ok_def)
  show ?thesis
  proof (cases "next_accepted (ui_friends u) (friend_count u) (nat (active_dm_friend u))")
    case None
    then show ?thesis
      using False next_accepted_returns [of "friend_count u" "ui_friends u" "nat (active_dm_friend u)"]
      by (simp add: next_dm_def)
  next
    case (Some j)
    with False next_accepted_Some [OF Some] len show ?thesis by (auto simp: next_dm_def)
  qed
qed

lemma ui_inv_bounds:
  assumes "ui_inv u"
  shows "length (ui_users u) = MAX_USERS" "length (ui_servers u) = UI_MAX_SERVERS"
    "length (ui_friends u) = MAX_FRIENDS" "current_user u < int MAX_USERS" "-1 \<le> current_user u"
    "server_count u \<le> UI_MAX_SERVERS" "server_cursor u < UI_MAX_SERVERS"
    "-1 \<le> active_server u" "active_server u < int UI_MAX_SERVERS" "active_channel u < UI_MAX_CHANNELS"
    "-1 \<le> active_dm_friend u" "active_dm_friend u < int MAX_FRIENDS"
    "friend_count u \<le> MAX_FRIENDS" "user_count u \<le> MAX_USERS"
    "0 \<le> active_server u \<Longrightarrow> 0 \<le> current_user u"
  using assms by (auto simp: ui_inv_def pieces)

lemma server_bounds_at:
  assumes "ui_inv u" and "0 \<le> i" and "i < int UI_MAX_SERVERS"
  shows "length (us_members (ui_servers u ! nat i)) = MAX_USERS"
    "length (us_channels (ui_servers u ! nat i)) = UI_MAX_CHANNELS"
    "us_channel_count (ui_servers u ! nat i) \<le> UI_MAX_CHANNELS"
  using inv_server_ok [OF assms(1,2)] assms(3) ui_inv_bounds(2) [OF assms(1)] by (simp_all add: server_ok_def)

lemma fails_chat_input:
  assumes "ui_inv u" and "current_screen u = SCREEN_CHAT"
  shows "fails (handle_chat_input env k u) \<longleftrightarrow> key_hazard k u"
proof -
  have a: "0 \<le> active_server u" using assms by (auto simp: ui_inv_def screen_ok_def)
  note b = ui_inv_bounds [OF assms(1)] server_bounds_at [OF assms(1) a ui_inv_bounds(9) [OF assms(1)]]
  have "Suc (active_channel u) mod n < UI_MAX_CHANNELS" if "0 < n" "n \<le> UI_MAX_CHANNELS" for n
    using that mod_less_divisor [of n "Suc (active_channel u)"] by linarith
  with a b assms(2) show ?thesis
    by (auto simp: handle_chat_input_def key_hazard_def Let_def)
qed

lemma fails_dms_input:
  assumes "ui_inv u" and "current_screen u = SCREEN_DMS"
  shows "fails (handle_dms_input env k u) \<longleftrightarrow> key_hazard k u"
  using assms(2) ui_inv_bounds [OF assms(1)]
  by (auto simp: handle_dms_input_def key_hazard_def fails_next_dm [OF assms(1)] fails_send_dm key_defs)

lemma fails_server_input:
  assumes "ui_inv u" and "current_screen u = SCREEN_SERVERS"
  shows "fails (handle_server_input env k u) \<longleftrightarrow> key_hazard k u"
  using assms(2) ui_inv_bounds [OF assms(1)]
  by (auto simp: handle_server_input_def enter_server_def key_hazard_def Let_def key_defs)

lemma fails_command_input:
  assumes "ui_inv u" and "current_screen u = SCREEN_COMMAND"
  shows "fails (handle_command_input env k u) \<longleftrightarrow> key_hazard k u"
proof -
  let ?cmd = "cstr (cmd_input u)"
  have stay: "fails (and_then r (\<lambda>u. Inr (False, u))) = fails r" for r :: "ui result" by simp
  have kick: "fails (kick_command env t u) \<longleftrightarrow> previous_screen u = SCREEN_CHAT \<and> in_active_server u \<and> t \<noteq> [] \<and>
      int MAX_USERS < sint (us_member_count (ui_servers u ! nat (active_server u))) \<and>
      (\<forall>m \<in> set (us_members (ui_servers u ! nat (active_server u))). mb_name m \<noteq> t)" for t
    using ui_inv_bounds [OF assms(1)] server_bounds_at [OF assms(1), of "active_server u"]
    by (auto simp: kick_command_def Let_def in_active_server_def split: option.splits)
  have leave: "\<not> fails (leave_command env u)"
    using ui_inv_bounds [OF assms(1)] by (auto simp: leave_command_def)
  have cr: "\<not> fails (create_channel_command env t u)" for t
    using ui_inv_bounds [OF assms(1)] by (auto simp: create_channel_command_def in_active_server_def)
  have ds: "\<not> fails (delete_server_command env t u)" for t
    using ui_inv_bounds [OF assms(1)] by (auto simp: delete_server_command_def Let_def)
  have dc: "\<not> fails (delete_channel_command env t u)" for t
    using ui_inv_bounds [OF assms(1)] server_bounds_at [OF assms(1), of "active_server u"]
    by (auto simp: delete_channel_command_def in_active_server_def Let_def)
  have run: "fails (run_command env c u) \<longleftrightarrow> starts ''/kick '' c \<and> fails (kick_command env (argument 6 c) u)" for c
  proof (cases "starts ''/kick '' c")
    case True
    then obtain t where "c = ''/kick '' @ t" using starts_append by blast
    then show ?thesis unfolding run_command_def Let_def by simp
  next
    case False
    then show ?thesis unfolding run_command_def Let_def fails_if stay by (simp add: leave cr ds dc)
  qed
  show ?thesis
    using assms(2) by (auto simp: handle_command_input_def key_hazard_def Let_def run kick key_defs split: option.split)
qed

lemma fails_key:
  assumes "ui_inv u"
  shows "fails (handle_key env k u) \<longleftrightarrow> key_hazard k u"
  using fails_chat_input [OF assms] fails_dms_input [OF assms] fails_server_input [OF assms]
    fails_command_input [OF assms]
  by (simp add: handle_key_def key_hazard_def split: screen.split)

lemma fails_own_name: "ui_inv u \<Longrightarrow> \<not> fails (own_name u)"
  using ui_inv_bounds [of u] by (simp add: own_name_def)

lemma fails_channel_message: "ui_inv u \<Longrightarrow> \<not> fails (ui_receive_channel_message p c u)"
  using ui_inv_bounds [of u] server_bounds_at [of u "active_server u"]
  by (auto simp: ui_receive_channel_message_def in_active_server_def)

lemma fails_dm_message: "ui_inv u \<Longrightarrow> \<not> fails (ui_receive_dm_message p d u)"
  using ui_inv_bounds [of u]
  by (auto simp: ui_receive_dm_message_def dm_friend_def fails_own_name find_Some_iff split: option.split)

lemma fails_leave_reply: "ui_inv u \<Longrightarrow> \<not> fails (leave_reply env u)"
  using ui_inv_bounds [of u] by (auto simp: leave_reply_def)

lemma command_done_simps [simp]:
  "active_server (command_done u) = active_server u" "current_user (command_done u) = current_user u"
  "ui_servers (command_done u) = ui_servers u" "ui_users (command_done u) = ui_users u"
  by (simp_all add: command_done_def close_command_def clear_command_def)

lemma fails_delete_reply: "ui_inv u \<Longrightarrow> \<not> fails (delete_reply env v u)"
  using ui_inv_bounds [of u] by (auto simp: delete_reply_def Let_def request_defs submit_eq)

lemma fails_kick_reply: "ui_inv u \<Longrightarrow> \<not> fails (kick_reply env v u)"
  using ui_inv_bounds [of u] by (auto simp: kick_reply_def Let_def)

lemma fails_channel_reply: "ui_inv u \<Longrightarrow> \<not> fails (channel_reply env b c u)"
  using ui_inv_bounds [of u] by (auto simp: channel_reply_def Let_def)

lemma fails_channel_list:
  assumes "ui_inv u"
  shows "\<not> fails (channel_list_reply env p v u)"
proof -
  have "length (us_channels (channel_item p v sv)) = length (us_channels sv)" for sv
    by (simp add: channel_item_def Let_def)
  with assms ui_inv_bounds [of u] server_bounds_at [of u "active_server u"] show ?thesis
    by (auto simp: channel_list_reply_def Let_def in_active_server_def upd_server_def)
qed

lemma fails_member_list:
  assumes "ui_inv u"
  shows "fails (member_list_reply p v u) \<longleftrightarrow> in_active_server u \<and> \<not> starts_list p \<and> 0 <s list_total p \<and>
    us_member_count (ui_servers u ! nat (active_server u)) <s 0"
proof -
  have "fails (member_item p v sv) \<longleftrightarrow> \<not> starts_list p \<and> 0 <s list_total p \<and> us_member_count sv <s 0"
    if "length (us_members sv) = MAX_USERS" for sv
    using that by (auto simp: member_item_def Let_def word_sless_alt)
  with ui_inv_bounds [OF assms] server_bounds_at [OF assms, of "active_server u"] show ?thesis
    by (auto simp: member_list_reply_def in_active_server_def)
qed

lemma fails_auth:
  assumes "ui_inv u"
  shows "fails (ui_handle_auth_response env a u) \<longleftrightarrow>
    auth_action_of (auth_action a) \<in> {Some AUTH_REGISTER, Some AUTH_LOGIN} \<and>
    auth_status a = resp RESP_OK \<and> user_count u = MAX_USERS"
proof -
  have "auth_action_of (auth_action a) = Some b \<longleftrightarrow> auth_action a = auth_code b" for b
    by (rule authE.enum_of_Some)
  with ui_inv_bounds [OF assms] show ?thesis
    by (auto simp: ui_handle_auth_response_def auth_success_def)
qed

lemma fails_packet:
  assumes "ui_inv u"
  shows "fails (process_network_packet env p u) \<longleftrightarrow> packet_hazard p u"
proof -
  have status: "\<not> fails (status_packet env v u)" for v
    using ui_inv_bounds [OF assms] by (auto simp: status_packet_def Let_def)
  have server: "fails (ui_update_server_state env p v u) \<longleftrightarrow>
      server_action_of (srv_action v) = Some SERVER_LIST_MEMBERS \<and> fails (member_list_reply p v u)" for v
    by (auto simp: ui_update_server_state_def Let_def fails_leave_reply fails_delete_reply fails_kick_reply
        fails_channel_list assms split: option.split server_action.split)
  show ?thesis
    unfolding process_network_packet_def packet_hazard_def
    by (auto simp: fails_channel_message fails_channel_reply fails_dm_message fails_auth status server
        fails_member_list assms split: payload.split option.split channel_action.split social_action.split)
qed

lemma fails_redraw:
  assumes "ui_inv u"
  shows "fails (redraw clock rows u) \<longleftrightarrow> redraw_hazard clock rows u"
proof -
  have chat: "fails (draw_chat clock rows u) \<longleftrightarrow> redraw_hazard clock rows u" if "current_screen u = SCREEN_CHAT"
  proof -
    have "0 \<le> active_server u" using assms that by (simp add: ui_inv_def screen_ok_def)
    with ui_inv_bounds [OF assms] server_bounds_at [OF assms this] that show ?thesis
      by (simp add: draw_chat_def redraw_hazard_def)
  qed
  have "-1 \<le> pick_dm u \<and> pick_dm u < int MAX_FRIENDS"
    using ui_inv_bounds [OF assms] by (auto simp: pick_dm_def find_Some_iff split: option.split)
  with ui_inv_bounds [OF assms] have "fails (draw_dms clock rows u) \<longleftrightarrow> pick_dm u \<noteq> -1 \<and>
      (\<exists>m \<in> set (on_view rows (fr_messages (ui_friends u ! nat (pick_dm u)))). clock (msg_ts m) = None \<or> current_user u < 0)"
    by (auto simp: draw_dms_def Let_def)
  with chat show ?thesis by (simp add: redraw_def redraw_hazard_def split: screen.split)
qed

lemma fails_step: "ui_inv u \<Longrightarrow> fails (ui_step env ev u) \<longleftrightarrow> hazard env ev u"
  by (cases ev) (auto simp: fails_key fails_packet fails_redraw)

section \<open>The reachable states\<close>

text \<open>
  A run: the server accepts the login, lists its one server, and the user opens it, all
  before any channel is known.
\<close>

definition login_ok :: packet where
  "login_ok = (zero_packet PACKET_AUTH)\<lparr>payload := Auth (zero_auth\<lparr>auth_action := auth_code AUTH_LOGIN\<rparr>)\<rparr>"

definition one_server :: packet where
  "one_server = (zero_packet PACKET_SERVER)\<lparr>list_total := 1, payload := Server (zero_server
     \<lparr>srv_action := server_code SERVER_LIST, srv_server_id := 7, srv_member_count := 1, srv_name := ''home''\<rparr>)\<rparr>"

definition opening_run :: "(env \<times> ui_event) list" where
  "opening_run = map (Pair sample_env) [Packet_arrived login_ok, Packet_arrived one_server, Key_pressed Key_enter]"

lemma opening_run_result:
  "\<exists>u. ui_run opening_run (initial_ui 3) = Inr u \<and> current_screen u = SCREEN_CHAT \<and> active_server u = 0 \<and>
     us_channel_count (ui_servers u ! 0) = 0 \<and> current_user u = 0"
  by (simp add: opening_run_def login_ok_def one_server_def process_network_packet_def zero_packet_def
      zero_auth_def zero_server_def ui_handle_auth_response_def auth_success_def ui_update_server_state_def
      server_item_def starts_list_def enum_of_def initial_ui_def set_at_def entry_at_def enter_server_def
      handle_key_def handle_server_input_def key_defs request_defs submit_eq Let_def word_sless_alt zero_ui_server_def)

lemma reach_inv_ui: "ui_reach fd u \<Longrightarrow> ui_inv u"
  by (induction rule: ui_reach.induct) (use inv_initial inv_step in \<open>auto simp: holds_def\<close>)

text \<open>
  C6: What can go wrong in the client is exactly this, in any reachable state: confirming a
  server without a login (after a late reply to leaving one), TAB in a server without
  channels (a division by zero; a new server has none), TAB in the direct messages without
  an accepted friend (a division by zero or an endless loop), sending or drawing direct
  messages without a login, drawing a message whose time is in no calendar year
  (\<open>localtime\<close> returns NULL), \<open>/kick\<close> before the members of a server with more than 16 are
  listed, a 17th login, and a member list of a server with a negative member count. Every
  other key, packet (with a NUL behind each of its texts) and redraw has a result.
\<close>

theorem client_fails_exactly:
  assumes "ui_reach fd u"
  shows "(\<exists>e. ui_step env ev u = Inl e) \<longleftrightarrow> hazard env ev u"
  using fails_step [OF reach_inv_ui [OF assms]] by (simp add: fails_def)

theorem client_fails_exactly_witness:
  "\<exists>u. ui_run opening_run (initial_ui 3) = Inr u \<and>
     (\<exists>e. ui_step sample_env (Key_pressed (Key_char 9)) u = Inl e)"
proof -
  obtain u where u: "ui_run opening_run (initial_ui 3) = Inr u" "current_screen u = SCREEN_CHAT"
      "active_server u = 0" "us_channel_count (ui_servers u ! 0) = 0"
    using opening_run_result by blast
  from ui_run_reach [OF ui_reach.start u(1)] have "ui_reach 3 u" .
  from client_fails_exactly [OF this, of sample_env "Key_pressed (Key_char 9)"] u show ?thesis
    by (auto simp: key_hazard_def key_defs)
qed

lemma next_accepted_cycle:
  assumes "0 < n"
  shows "if \<exists>j < n. fr_type (fs ! j) = 2
    then \<exists>d. 0 < d \<and> d \<le> n \<and> next_accepted fs n i = Some ((i + d) mod n) \<and> fr_type (fs ! ((i + d) mod n)) = 2 \<and>
      (\<forall>m. 0 < m \<and> m < d \<longrightarrow> fr_type (fs ! ((i + m) mod n)) \<noteq> 2)
    else next_accepted fs n i = None"
proof (cases "\<exists>j < n. fr_type (fs ! j) = 2")
  case False
  with next_accepted_returns [OF assms] show ?thesis by (cases "next_accepted fs n i") auto
next
  case True
  let ?good = "\<lambda>d. 0 < d \<and> fr_type (fs ! ((i + d) mod n)) = 2"
  define d where "d = (LEAST d. ?good d)"
  have l: "0 < d" "fr_type (fs ! ((i + d) mod n)) = 2"
    using LeastI_ex [OF good_distance [OF assms True, of i]] unfolding d_def by blast+
  have least: "\<not> ?good m" if "m < d" for m
    using that unfolding d_def by (rule not_less_Least)
  have "d \<le> n"
  proof (rule ccontr)
    assume far: "\<not> d \<le> n"
    then have "i + d = (i + (d - n)) + n" by simp
    then have "(i + d) mod n = (i + (d - n)) mod n" by (simp only: mod_add_self2)
    with l far have "?good (d - n)" by simp
    moreover have "d - n < d" using l(1) assms by simp
    ultimately show False using least by blast
  qed
  moreover have "next_accepted fs n i = Some ((i + d) mod n)"
    using least by (intro next_accepted_found [OF assms l(2,1)]) blast
  ultimately show ?thesis using True l least by auto
qed

text \<open>
  C13: TAB in the direct messages comes back exactly when the friend list has an accepted
  friend. It then stops at the first one after the current position, around the end of the
  list, after at most one turn; the line typed so far is dropped and the history with that
  friend is requested.
\<close>

theorem tab_finds_next_friend:
  assumes "ui_inv u" and "active_dm_friend u = int i"
  shows "if \<exists>j < friend_count u. fr_type (ui_friends u ! j) = 2
    then \<exists>d j. 0 < d \<and> d \<le> friend_count u \<and> j = (i + d) mod friend_count u \<and> fr_type (ui_friends u ! j) = 2 \<and>
      (\<forall>m. 0 < m \<and> m < d \<longrightarrow> fr_type (ui_friends u ! ((i + m) mod friend_count u)) \<noteq> 2) \<and>
      handle_dms_input env (Key_char 9) u =
        Inr (request_dm_history env (fr_id (ui_friends u ! j)) (u\<lparr>active_dm_friend := int j, dm_input := []\<rparr>))
    else \<exists>e. handle_dms_input env (Key_char 9) u = Inl e"
proof -
  note b = ui_inv_bounds [OF assms(1)]
  have tab: "handle_dms_input env (Key_char 9) u = next_dm env u"
    using assms(2) b by (simp add: handle_dms_input_def key_defs)
  show ?thesis
  proof (cases "\<exists>j < friend_count u. fr_type (ui_friends u ! j) = 2")
    case False
    then show ?thesis using fails_next_dm [OF assms(1), of env] unfolding tab by (auto simp: fails_def)
  next
    case True
    then have n: "0 < friend_count u" by auto
    have small: "(i + d) mod friend_count u < MAX_FRIENDS" for d
      using mod_less_divisor [OF n, of "i + d"] b(13) by linarith
    from True next_accepted_cycle [OF n, of "ui_friends u" i] obtain d where
      d: "0 < d" "d \<le> friend_count u" "next_accepted (ui_friends u) (friend_count u) i = Some ((i + d) mod friend_count u)"
        "fr_type (ui_friends u ! ((i + d) mod friend_count u)) = 2"
        "\<forall>m. 0 < m \<and> m < d \<longrightarrow> fr_type (ui_friends u ! ((i + m) mod friend_count u)) \<noteq> 2" by auto
    then have "next_dm env u = Inr (request_dm_history env (fr_id (ui_friends u ! ((i + d) mod friend_count u)))
        (u\<lparr>active_dm_friend := int ((i + d) mod friend_count u), dm_input := []\<rparr>))"
      using n assms(2) b(3) small [of d] by (simp add: next_dm_def)
    with True d show ?thesis unfolding tab by auto
  qed
qed

definition two_friends :: ui where
  "two_friends = (initial_ui 3)\<lparr>friend_count := 2, active_dm_friend := 0,
     ui_friends := (ui_friends (initial_ui 3))[0 := \<lparr>fr_id = 5, fr_name = ''ann'', fr_type = 2, fr_messages = []\<rparr>]\<rparr>"

theorem tab_finds_next_friend_witness:
  "\<exists>u'. handle_dms_input sample_env (Key_char 9) two_friends = Inr u' \<and> active_dm_friend u' = 0"
proof -
  have "friends_ok ((ui_friends (initial_ui 3))[0 := \<lparr>fr_id = 5, fr_name = ''ann'', fr_type = 2, fr_messages = []\<rparr>]) 0"
    by (rule friends_update) (simp_all add: initial_ui_def friends_ok_def)
  then have inv: "ui_inv two_friends"
    using inv_initial [of 3] by (simp add: two_friends_def ui_inv_def list_ok_def initial_ui_def)
  have friends: "fr_type (ui_friends two_friends ! j) = 2 \<longleftrightarrow> j = 0" if "j < 2" for j
    using that by (cases j) (simp_all add: two_friends_def initial_ui_def)
  have two: "friend_count two_friends = 2" "active_dm_friend two_friends = int 0" by (simp_all add: two_friends_def)
  have some: "\<exists>j < friend_count two_friends. fr_type (ui_friends two_friends ! j) = 2"
    using friends [of 0] two(1) by (intro exI [of _ 0]) simp
  obtain d j where j: "j = (0 + d) mod friend_count two_friends" "fr_type (ui_friends two_friends ! j) = 2"
      "handle_dms_input sample_env (Key_char 9) two_friends = Inr (request_dm_history sample_env
         (fr_id (ui_friends two_friends ! j)) (two_friends\<lparr>active_dm_friend := int j, dm_input := []\<rparr>))"
    using tab_finds_next_friend [OF inv two(2), of sample_env, unfolded if_P [OF some]] by blast
  then have "j < 2" using two(1) by simp
  with friends [of j] j show ?thesis by (simp add: request_defs submit_eq)
qed

end
