(* ===== verification/Wire.thy ===== *)
theory Wire
  imports Protocol
begin

text \<open>
  The packet in memory and on the wire (\<^verbatim>\<open>shared/packet_helper.c\<close>). \<open>TizcordPacket\<close> is
  transmitted as its memory image, at the offsets the x86-64 ABI gives the struct (the
  same that \<^verbatim>\<open>benchmarks/bench.py\<close> uses), with the integer fields converted to network
  byte order in place by \<open>swap_packet\<close>. The host's byte order is a parameter. Character
  arrays are sent as they are. The model of \<open>swap_packet\<close> works on the raw bytes of the
  struct, as the code does, whichever union member they hold.
\<close>

section \<open>The memory image of a packet\<close>

definition PAYLOAD_OFF :: nat where "PAYLOAD_OFF = 32"
definition PAYLOAD_SIZE :: nat where "PAYLOAD_SIZE = 584"
definition TIMESTAMP_OFF :: nat where "TIMESTAMP_OFF = 616"
definition PACKET_SIZE :: nat where "PACKET_SIZE = 624"

lemmas size_defs [layout] = PAYLOAD_OFF_def PAYLOAD_SIZE_def TIMESTAMP_OFF_def PACKET_SIZE_def

text \<open>
  A struct is a sequence of cells: integers of four or eight bytes in the host's order,
  and runs of raw bytes (character arrays and padding).
\<close>

datatype cell = C32 i32 | C64 i64 | Raw "byte list"

fun cell_bytes :: "endian \<Rightarrow> cell \<Rightarrow> byte list" where
  "cell_bytes e (C32 w) = bytes_of e 4 w"
| "cell_bytes e (C64 w) = bytes_of e 8 w"
| "cell_bytes e (Raw bs) = bs"

fun cell_size :: "cell \<Rightarrow> nat" where
  "cell_size (C32 w) = 4"
| "cell_size (C64 w) = 8"
| "cell_size (Raw bs) = length bs"

definition cells_image :: "endian \<Rightarrow> cell list \<Rightarrow> byte list" where
  "cells_image e cs = concat (map (cell_bytes e) cs)"

definition cells_size :: "cell list \<Rightarrow> nat" where
  "cells_size cs = sum_list (map cell_size cs)"

abbreviation gap :: "nat \<Rightarrow> cell" where
  "gap n \<equiv> Raw (replicate n 0)"

abbreviation chars :: "nat \<Rightarrow> string \<Rightarrow> cell" where
  "chars n s \<equiv> Raw (pad_chars n s)"

text \<open>The members of the union, each filled up to the union's size.\<close>

fun payload_cells :: "payload \<Rightarrow> cell list" where
  "payload_cells (Auth a) =
     [C32 (auth_action a), C32 (auth_status a), chars MAX_NAME_LEN (auth_username a),
      chars PASSWORD_LEN (auth_password a), gap 480]"
| "payload_cells (Dm d) =
     [C32 (dm_action d), C32 (dm_status d), C32 (dm_recipient d), gap 4,
      C64 (dm_message_id d), chars MESSAGE_LEN (dm_message d), gap 48]"
| "payload_cells (Server v) =
     [C32 (srv_action v), gap 4, C64 (srv_server_id v), C64 (srv_target v),
      C32 (srv_status v), C32 (srv_member_count v), chars MAX_NAME_LEN (srv_name v), gap 520]"
| "payload_cells (Channel c) =
     [C32 (ch_action c), gap 4, C64 (ch_server_id c), C32 (ch_status c), gap 4,
      C64 (ch_channel_id c), chars MAX_NAME_LEN (ch_name c), C64 (ch_message_id c),
      chars MESSAGE_LEN (ch_message c)]"
| "payload_cells (Social v) =
     [C32 (soc_presence v), C32 (soc_action v), C32 (soc_status_code v), gap 4,
      C64 (soc_target v), chars MAX_NAME_LEN (soc_username v),
      chars (PROFILE_STATUS_LEN + 1) (soc_status_text v), gap 463]"
| "payload_cells (System t y) =
     [C32 (sys_action y), C32 (sys_status y), chars SYSTEM_MESSAGE_LEN (sys_message y), gap 320]"

definition header_cells :: "packet \<Rightarrow> cell list" where
  "header_cells p =
     [C32 (packet_type p), gap 4, C64 (sender_id p), C32 (list_id p), C32 (list_index p),
      C32 (list_total p), C32 (list_frame p)]"

definition packet_cells :: "packet \<Rightarrow> cell list" where
  "packet_cells p = header_cells p @ payload_cells (payload p) @ [C64 (timestamp p)]"

definition image :: "endian \<Rightarrow> packet \<Rightarrow> byte list" where
  "image e p = cells_image e (packet_cells p)"

lemma length_cell_bytes [simp]: "length (cell_bytes e c) = cell_size c"
  by (cases c) auto

lemma length_cells_image [simp]: "length (cells_image e cs) = cells_size cs"
  by (simp add: cells_image_def cells_size_def length_concat comp_def)

lemma cells_image_simps [simp]:
  "cells_image e [] = []"
  "cells_image e (c # cs) = cell_bytes e c @ cells_image e cs"
  "cells_image e (cs @ ds) = cells_image e cs @ cells_image e ds"
  by (simp_all add: cells_image_def)

lemma cells_size_simps [simp]:
  "cells_size [] = 0"
  "cells_size (c # cs) = cell_size c + cells_size cs"
  "cells_size (cs @ ds) = cells_size cs + cells_size ds"
  by (simp_all add: cells_size_def)

lemma cells_size_payload [simp]: "cells_size (payload_cells u) = PAYLOAD_SIZE"
  by (cases u) (simp_all add: layout)

lemma cells_size_header [simp]: "cells_size (header_cells p) = PAYLOAD_OFF"
  by (simp add: header_cells_def layout)

lemma length_image [simp]: "length (image e p) = PACKET_SIZE"
  by (simp add: image_def packet_cells_def layout)

section \<open>Reading a packet out of an image\<close>

definition get_chars :: "nat \<Rightarrow> nat \<Rightarrow> byte list \<Rightarrow> string" where
  "get_chars off n img = chars_of (get_bytes off n img)"

text \<open>The member of the union that the type names, read at its offsets.\<close>

definition payload_of :: "endian \<Rightarrow> i32 \<Rightarrow> byte list \<Rightarrow> payload" where
  "payload_of e t img =
     (case packet_kind_of t of
        Some PACKET_AUTH \<Rightarrow> Auth
          \<lparr>auth_action = get32 e 32 img, auth_status = get32 e 36 img,
           auth_username = get_chars 40 MAX_NAME_LEN img,
           auth_password = get_chars 72 PASSWORD_LEN img\<rparr>
      | Some PACKET_DM \<Rightarrow> Dm
          \<lparr>dm_action = get32 e 32 img, dm_status = get32 e 36 img,
           dm_recipient = get32 e 40 img, dm_message_id = get64 e 48 img,
           dm_message = get_chars 56 MESSAGE_LEN img\<rparr>
      | Some PACKET_SERVER \<Rightarrow> Server
          \<lparr>srv_action = get32 e 32 img, srv_server_id = get64 e 40 img,
           srv_target = get64 e 48 img, srv_status = get32 e 56 img,
           srv_member_count = get32 e 60 img, srv_name = get_chars 64 MAX_NAME_LEN img\<rparr>
      | Some PACKET_CHANNEL \<Rightarrow> Channel
          \<lparr>ch_action = get32 e 32 img, ch_server_id = get64 e 40 img,
           ch_status = get32 e 48 img, ch_channel_id = get64 e 56 img,
           ch_name = get_chars 64 MAX_NAME_LEN img, ch_message_id = get64 e 96 img,
           ch_message = get_chars 104 MESSAGE_LEN img\<rparr>
      | Some PACKET_SOCIAL \<Rightarrow> Social
          \<lparr>soc_presence = get32 e 32 img, soc_action = get32 e 36 img,
           soc_status_code = get32 e 40 img, soc_target = get64 e 48 img,
           soc_username = get_chars 56 MAX_NAME_LEN img,
           soc_status_text = get_chars 88 (PROFILE_STATUS_LEN + 1) img\<rparr>
      | None \<Rightarrow> System t
          \<lparr>sys_action = get32 e 32 img, sys_status = get32 e 36 img,
           sys_message = get_chars 40 SYSTEM_MESSAGE_LEN img\<rparr>)"

definition packet_of :: "endian \<Rightarrow> byte list \<Rightarrow> packet" where
  "packet_of e img =
     \<lparr>sender_id = get64 e 8 img, list_id = get32 e 16 img, list_index = get32 e 20 img,
      list_total = get32 e 24 img, list_frame = get32 e 28 img,
      payload = payload_of e (get32 e 0 img) img, timestamp = get64 e TIMESTAMP_OFF img\<rparr>"

lemma get_bytes_skip:
  "length xs \<le> off \<Longrightarrow> get_bytes off n (xs @ ys) = get_bytes (off - length xs) n ys"
  by (simp add: get_bytes_def)

lemma get_bytes_here: "length xs = n \<Longrightarrow> get_bytes 0 n (xs @ ys) = xs"
  by (simp add: get_bytes_def)

lemma get_bytes_end: "length xs = n \<Longrightarrow> get_bytes 0 n xs = xs"
  by (simp add: get_bytes_def)

lemmas get_defs = get32_def get64_def get_chars_def get_bytes_skip get_bytes_here get_bytes_end
  word_of_bytes_of

lemma get_header:
  fixes p e defines "i \<equiv> image e p"
  shows "get32 e 0 i = packet_type p" and "get64 e 8 i = sender_id p"
    and "get32 e 16 i = list_id p" and "get32 e 20 i = list_index p"
    and "get32 e 24 i = list_total p" and "get32 e 28 i = list_frame p"
  unfolding i_def by (simp_all add: image_def packet_cells_def header_cells_def get_defs)

lemma get_timestamp: "get64 e TIMESTAMP_OFF (image e p) = timestamp p"
  by (simp add: image_def packet_cells_def get_defs layout)

lemma payload_of_image:
  assumes "packet_fits p"
  shows "payload_of e (packet_type p) (image e p) = payload p"
proof (cases "payload p")
  case (System t y)
  then have none: "packet_kind_of t = None"
    using assms unfolding kindE.enum_of_None by (simp add: packet_fits_def)
  show ?thesis using System assms
    by (simp add: payload_of_def none packet_type_def packet_fits_def image_def packet_cells_def
        header_cells_def get_defs chars_of_pad_chars)
qed (use assms in \<open>simp add: payload_of_def packet_type_def kindE.enum_of_code packet_fits_def
      image_def packet_cells_def header_cells_def get_defs chars_of_pad_chars
      del: packet_kind_code.simps\<close>)+

lemma packet_of_image: "packet_fits p \<Longrightarrow> packet_of e (image e p) = p"
  by (simp add: packet_of_def get_header get_timestamp payload_of_image)

section \<open>Byte order conversion in place\<close>

text \<open>\<open>SWAP32\<close> and \<open>SWAP64\<close> on the field at an offset of the image.\<close>

definition swap32 :: "endian \<Rightarrow> nat \<Rightarrow> byte list \<Rightarrow> byte list" where
  "swap32 e off img = put32 e off (htonl e (get32 e off img)) img"

definition swap64 :: "endian \<Rightarrow> nat \<Rightarrow> byte list \<Rightarrow> byte list" where
  "swap64 e off img = put64 e off (network64 e (get64 e off img)) img"

datatype field = F32 nat | F64 nat

fun swap_field :: "endian \<Rightarrow> field \<Rightarrow> byte list \<Rightarrow> byte list" where
  "swap_field e (F32 off) img = swap32 e off img"
| "swap_field e (F64 off) img = swap64 e off img"

text \<open>
  The fields \<open>swap_packet\<close> converts, in its order: type, sender, the four list fields and
  the timestamp, then the integer fields of the union member that the type selects.
\<close>

definition header_fields :: "field list" where
  "header_fields = [F32 0, F64 8, F32 16, F32 20, F32 24, F32 28, F64 TIMESTAMP_OFF]"

definition payload_fields :: "i32 \<Rightarrow> field list" where
  "payload_fields t =
     (case packet_kind_of t of
        Some PACKET_AUTH \<Rightarrow> [F32 32, F32 36]
      | Some PACKET_DM \<Rightarrow> [F32 32, F32 36, F32 40, F64 48]
      | Some PACKET_SERVER \<Rightarrow> [F32 32, F64 40, F64 48, F32 56, F32 60]
      | Some PACKET_CHANNEL \<Rightarrow> [F32 32, F64 40, F32 48, F64 56, F64 96]
      | Some PACKET_SOCIAL \<Rightarrow> [F32 32, F32 36, F32 40, F64 48]
      | None \<Rightarrow> [F32 32, F32 36])"

definition swap_packet :: "endian \<Rightarrow> byte list \<Rightarrow> i32 \<Rightarrow> byte list" where
  "swap_packet e img t = fold (swap_field e) (header_fields @ payload_fields t) img"

text \<open>
  A swap turns the host's bytes of a field into big-endian ones and back: the relation
  \<open>orders e a b\<close> names the two directions.
\<close>

definition orders :: "endian \<Rightarrow> endian \<Rightarrow> endian \<Rightarrow> bool" where
  "orders e a b \<longleftrightarrow> (a = e \<and> b = Big) \<or> (a = Big \<and> b = e)"

lemma htonl_Big: "bytes_of e 4 (htonl e (word_of e (bytes_of Big 4 w))) = bytes_of e 4 (w :: i32)"
  by (cases e) (simp_all add: htonl_def le_word_le_bytes le_bytes_le_word)

lemma network64_Big: "bytes_of e 8 (network64 e (word_of e (bytes_of Big 8 w))) = bytes_of e 8 (w :: i64)"
proof (cases e)
  case Little
  then show ?thesis by (simp add: network64_Little le_word_le_bytes le_bytes_le_word)
next
  case Big
  then show ?thesis by (simp add: network64_def le_word_le_bytes)
qed

lemma swap32_value: "orders e a b \<Longrightarrow>
  bytes_of e 4 (htonl e (word_of e (bytes_of a 4 w))) = bytes_of b 4 (w :: i32)"
  unfolding orders_def
  using htonl_Big [of e w] bytes_htonl [of e w] word_of_bytes_of [of 4 e w] by auto

lemma swap64_value: "orders e a b \<Longrightarrow>
  bytes_of e 8 (network64 e (word_of e (bytes_of a 8 w))) = bytes_of b 8 (w :: i64)"
  unfolding orders_def
  using network64_Big [of e w] bytes_network64 [of e w] word_of_bytes_of [of 8 e w] by auto

lemma put_bytes_here:
  "length xs = off \<Longrightarrow> length bs = length cs \<Longrightarrow>
   put_bytes off bs (xs @ cs @ ys) = xs @ bs @ ys"
  by (simp add: put_bytes_def)

lemma swap32_at:
  assumes "orders e a b" and "length xs = off"
  shows "swap32 e off (xs @ bytes_of a 4 w @ ys) = xs @ bytes_of b 4 (w :: i32) @ ys"
proof -
  have "swap32 e off (xs @ bytes_of a 4 w @ ys) =
      xs @ bytes_of e 4 (htonl e (word_of e (bytes_of a 4 w))) @ ys"
    using assms(2) by (simp add: swap32_def put32_def get_defs put_bytes_here del: bytes_of.simps)
  also have "bytes_of e 4 (htonl e (word_of e (bytes_of a 4 w))) = bytes_of b 4 (w :: i32)"
    using assms(1) by (rule swap32_value)
  finally show ?thesis .
qed

lemma swap64_at:
  assumes "orders e a b" and "length xs = off"
  shows "swap64 e off (xs @ bytes_of a 8 w @ ys) = xs @ bytes_of b 8 (w :: i64) @ ys"
proof -
  have "swap64 e off (xs @ bytes_of a 8 w @ ys) =
      xs @ bytes_of e 8 (network64 e (word_of e (bytes_of a 8 w))) @ ys"
    using assms(2) by (simp add: swap64_def put64_def get_defs put_bytes_here del: bytes_of.simps)
  also have "bytes_of e 8 (network64 e (word_of e (bytes_of a 8 w))) = bytes_of b 8 (w :: i64)"
    using assms(1) by (rule swap64_value)
  finally show ?thesis .
qed

text \<open>The integer fields of a run of cells that starts at an offset.\<close>

fun fields_at :: "nat \<Rightarrow> cell list \<Rightarrow> field list" where
  "fields_at off [] = []"
| "fields_at off (C32 w # cs) = F32 off # fields_at (off + 4) cs"
| "fields_at off (C64 w # cs) = F64 off # fields_at (off + 8) cs"
| "fields_at off (Raw bs # cs) = fields_at (off + length bs) cs"

lemma swap_cells:
  assumes "orders e a b"
  shows "length xs = off \<Longrightarrow>
    fold (swap_field e) (fields_at off cs) (xs @ cells_image a cs @ ys) = xs @ cells_image b cs @ ys"
proof (induction off cs arbitrary: xs rule: fields_at.induct)
  case (2 off w cs)
  from "2.IH" [of "xs @ bytes_of b 4 w"] "2.prems" show ?case
    by (simp add: swap32_at [OF assms])
next
  case (3 off w cs)
  from "3.IH" [of "xs @ bytes_of b 8 w"] "3.prems" show ?case
    by (simp add: swap64_at [OF assms])
next
  case (4 off bs cs)
  from "4.IH" [of "xs @ bs"] "4.prems" show ?case by simp
qed simp

text \<open>The fields of a whole packet image: header, timestamp, union member.\<close>

lemma swap_image_cells:
  assumes o: "orders e a b"
    and h: "fields_at 0 H = [F32 0, F64 8, F32 16, F32 20, F32 24, F32 28]"
    and p: "fields_at PAYLOAD_OFF P = payload_fields t"
    and sizes: "cells_size H = PAYLOAD_OFF" "cells_size P = PAYLOAD_SIZE"
  shows "swap_packet e (cells_image a (H @ P @ [C64 ts])) t = cells_image b (H @ P @ [C64 ts])"
proof -
  have ts: "fields_at TIMESTAMP_OFF [C64 ts] = [F64 TIMESTAMP_OFF]" by simp
  have "swap_packet e (cells_image a (H @ P @ [C64 ts])) t =
      fold (swap_field e) (fields_at PAYLOAD_OFF P)
        (fold (swap_field e) (fields_at TIMESTAMP_OFF [C64 ts])
          (fold (swap_field e) (fields_at 0 H)
            ([] @ cells_image a H @ cells_image a (P @ [C64 ts]))))"
    by (simp add: swap_packet_def header_fields_def h p ts del: fields_at.simps)
  also have "\<dots> = fold (swap_field e) (fields_at PAYLOAD_OFF P)
        (fold (swap_field e) (fields_at TIMESTAMP_OFF [C64 ts])
          ((cells_image b H @ cells_image a P) @ cells_image a [C64 ts] @ []))"
    by (subst swap_cells [OF o]) simp_all
  also have "\<dots> = fold (swap_field e) (fields_at PAYLOAD_OFF P)
        (cells_image b H @ cells_image a P @ cells_image b [C64 ts])"
    by (subst swap_cells [OF o]) (simp_all add: sizes layout)
  also have "\<dots> = cells_image b (H @ P @ [C64 ts])"
    by (subst swap_cells [OF o]) (simp_all add: sizes)
  finally show ?thesis .
qed

lemma fields_header:
  "fields_at 0 (header_cells p) = [F32 0, F64 8, F32 16, F32 20, F32 24, F32 28]"
  by (simp add: header_cells_def)

lemma fields_payload:
  assumes "packet_fits p"
  shows "fields_at PAYLOAD_OFF (payload_cells (payload p)) = payload_fields (packet_type p)"
proof (cases "payload p")
  case (System t y)
  then have "packet_kind_of t = None"
    using assms unfolding kindE.enum_of_None by (simp add: packet_fits_def)
  with System show ?thesis by (simp add: payload_fields_def packet_type_def layout)
qed (simp_all add: payload_fields_def packet_type_def kindE.enum_of_code layout
      del: packet_kind_code.simps)

lemma swap_image:
  assumes "orders e a b" and "packet_fits p"
  shows "swap_packet e (image a p) (packet_type p) = image b p"
  unfolding image_def packet_cells_def
  by (rule swap_image_cells) (simp_all add: assms fields_header fields_payload)

end
