(* ===== verification/Transport.thy ===== *)
theory Transport
  imports Wire
begin

text \<open>
  Sending and receiving packets over a stream socket (\<open>packet_send\<close>, \<open>packet_receive\<close>,
  \<open>packet_receive_partial\<close> of \<^verbatim>\<open>shared/packet_helper.c\<close>). What the kernel answers to the
  successive \<open>send\<close> and \<open>recv\<close> calls is a script, a list of events; a theorem quantifies
  over it. The interface between the stream and the packets is the locale \<open>framing\<close>.
\<close>

section \<open>The conversion on arbitrary images\<close>

text \<open>Any image is a run of cells of the shape a packet of its type has.\<close>

fun reread :: "endian \<Rightarrow> nat \<Rightarrow> cell list \<Rightarrow> byte list \<Rightarrow> cell list" where
  "reread e off [] img = []"
| "reread e off (C32 w # cs) img = C32 (get32 e off img) # reread e (off + 4) cs img"
| "reread e off (C64 w # cs) img = C64 (get64 e off img) # reread e (off + 8) cs img"
| "reread e off (Raw bs # cs) img =
     Raw (get_bytes off (length bs) img) # reread e (off + length bs) cs img"

lemma get_bytes_split:
  "get_bytes off m img @ get_bytes (off + m) n img = get_bytes off (m + n) img"
  by (simp add: get_bytes_def take_add add.commute)

lemma length_get_bytes: "off + n \<le> length img \<Longrightarrow> length (get_bytes off n img) = n"
  by (simp add: get_bytes_def)

lemma cells_image_reread:
  "off + cells_size cs \<le> length img \<Longrightarrow>
   cells_image e (reread e off cs img) = get_bytes off (cells_size cs) img"
  by (induction e off cs img rule: reread.induct)
    (simp_all add: get32_def get64_def bytes_of_word_of length_get_bytes get_bytes_split
      get_bytes_def [of _ 0])

lemma fields_reread:
  "off + cells_size cs \<le> length img \<Longrightarrow> fields_at off (reread e off cs img) = fields_at off cs"
  by (induction e off cs img rule: reread.induct) (simp_all add: length_get_bytes)

lemma size_reread:
  "off + cells_size cs \<le> length img \<Longrightarrow> cells_size (reread e off cs img) = cells_size cs"
  by (induction e off cs img rule: reread.induct) (simp_all add: length_get_bytes)

lemma some_packet_of_type: "\<exists>p. packet_fits p \<and> packet_type p = t"
proof (cases "packet_kind_of t")
  case None
  then have "packet_fits (zero_packet PACKET_AUTH\<lparr>payload := System t zero_system\<rparr>)"
    unfolding kindE.enum_of_None by (simp add: packet_fits_def zero_system_def fits_def)
  then show ?thesis by (force simp: packet_type_def)
next
  case (Some k)
  then have "t = packet_kind_code k" by (simp add: kindE.enum_of_Some)
  moreover have "packet_fits (zero_packet k)" and "packet_type (zero_packet k) = packet_kind_code k"
    by (cases k; simp add: packet_fits_def packet_type_def zero_defs fits_def)+
  ultimately show ?thesis by blast
qed

text \<open>
  An image as cells of the shape of type \<open>t\<close>; the swap turns the host's cells into
  big-endian ones whatever the bytes are.
\<close>

lemma image_as_cells:
  assumes len: "length img = PACKET_SIZE"
  obtains H P ts where "img = cells_image a (H @ P @ [C64 ts])"
    and "fields_at 0 H = [F32 0, F64 8, F32 16, F32 20, F32 24, F32 28]"
    and "fields_at PAYLOAD_OFF P = payload_fields t"
    and "cells_size H = PAYLOAD_OFF" and "cells_size P = PAYLOAD_SIZE"
proof -
  obtain p where p: "packet_fits p" "packet_type p = t" using some_packet_of_type by blast
  define H where "H = reread a 0 (header_cells p) img"
  define P where "P = reread a PAYLOAD_OFF (payload_cells (payload p)) img"
  define T where "T = reread a TIMESTAMP_OFF [C64 0] img"
  have img: "img = get_bytes 0 (PAYLOAD_OFF + (PAYLOAD_SIZE + 8)) img"
    using len by (simp add: get_bytes_def layout)
  also have "\<dots> = get_bytes 0 PAYLOAD_OFF img @ get_bytes PAYLOAD_OFF PAYLOAD_SIZE img @
      get_bytes TIMESTAMP_OFF 8 img"
    using get_bytes_split [of 0 PAYLOAD_OFF img "PAYLOAD_SIZE + 8"]
      get_bytes_split [of PAYLOAD_OFF PAYLOAD_SIZE img 8]
    by (simp add: layout)
  also have "\<dots> = cells_image a (H @ P @ T)"
    using cells_image_reread [of 0 "header_cells p" img a]
      cells_image_reread [of PAYLOAD_OFF "payload_cells (payload p)" img a]
      cells_image_reread [of TIMESTAMP_OFF "[C64 0]" img a] len
    by (simp add: H_def P_def T_def layout)
  finally have "img = cells_image a (H @ P @ [C64 (get64 a TIMESTAMP_OFF img)])"
    by (simp add: T_def)
  moreover have "fields_at 0 H = [F32 0, F64 8, F32 16, F32 20, F32 24, F32 28]"
    using fields_reread [of 0 "header_cells p" img a] len
    by (simp add: H_def fields_header layout)
  moreover have "fields_at PAYLOAD_OFF P = payload_fields t"
    using fields_reread [of PAYLOAD_OFF "payload_cells (payload p)" img a] fields_payload [OF p(1)] len
    by (simp add: P_def p(2) layout)
  moreover have "cells_size H = PAYLOAD_OFF" and "cells_size P = PAYLOAD_SIZE"
    using size_reread [of 0 "header_cells p" img a]
      size_reread [of PAYLOAD_OFF "payload_cells (payload p)" img a] len
    by (simp_all add: H_def P_def layout)
  ultimately show ?thesis by (rule that)
qed

lemma length_swap_packet:
  assumes "length img = PACKET_SIZE"
  shows "length (swap_packet e img t) = PACKET_SIZE"
proof -
  obtain H P ts where img: "img = cells_image e (H @ P @ [C64 ts])"
    and h: "fields_at 0 H = [F32 0, F64 8, F32 16, F32 20, F32 24, F32 28]"
    and p: "fields_at PAYLOAD_OFF P = payload_fields t"
    and sizes: "cells_size H = PAYLOAD_OFF" "cells_size P = PAYLOAD_SIZE"
    by (rule image_as_cells [OF assms])
  have "orders e e Big" by (simp add: orders_def)
  from swap_image_cells [OF this h p sizes] img sizes show ?thesis by (simp add: layout)
qed

text \<open>
  Conversion is its own inverse, as the comment in the source says: converting any
  image of a packet's size twice for the same type gives the image back, on either host.
\<close>

theorem swap_packet_involution:
  assumes "length img = PACKET_SIZE"
  shows "swap_packet e (swap_packet e img t) t = img"
proof -
  obtain H P ts where img: "img = cells_image e (H @ P @ [C64 ts])"
    and h: "fields_at 0 H = [F32 0, F64 8, F32 16, F32 20, F32 24, F32 28]"
    and p: "fields_at PAYLOAD_OFF P = payload_fields t"
    and sizes: "cells_size H = PAYLOAD_OFF" "cells_size P = PAYLOAD_SIZE"
    by (rule image_as_cells [OF assms])
  have "orders e e Big" and "orders e Big e" by (simp_all add: orders_def)
  from swap_image_cells [OF this(1) h p sizes] swap_image_cells [OF this(2) h p sizes] img
  show ?thesis by simp
qed

theorem swap_packet_involution_witness:
  "length (replicate 624 (7 :: byte)) = PACKET_SIZE \<and>
   swap_packet Little (swap_packet Little (replicate 624 7) 2) 2 = replicate 624 7"
proof -
  have len: "length (replicate 624 (7 :: byte)) = PACKET_SIZE" by (simp add: layout)
  show ?thesis using len swap_packet_involution [OF len, of Little 2] by simp
qed

section \<open>The bytes of a packet on the wire\<close>

definition wire :: "endian \<Rightarrow> packet \<Rightarrow> byte list" where
  "wire e p = swap_packet e (image e p) (packet_type p)"

text \<open>
  What a receiver makes of a full buffer: the type, converted first, must be one of the
  five kinds (otherwise \<open>EPROTO\<close>); then the whole buffer is converted and read.
\<close>

definition unwire :: "endian \<Rightarrow> byte list \<Rightarrow> packet option" where
  "unwire e bs =
     (let t = htonl e (get32 e 0 bs)
      in case packet_kind_of t of
           None \<Rightarrow> None
         | Some _ \<Rightarrow> Some (packet_of e (swap_packet e bs t)))"

text \<open>A packet a peer may send: one of the five kinds, its strings within their arrays.\<close>

definition sendable :: "packet \<Rightarrow> bool" where
  "sendable p \<longleftrightarrow> packet_fits p \<and> packet_kind_of (packet_type p) \<noteq> None"

lemma wire_Big_image: "packet_fits p \<Longrightarrow> wire e p = image Big p"
  unfolding wire_def by (rule swap_image) (simp_all add: orders_def)

lemma length_wire [simp]: "length (wire e p) = PACKET_SIZE"
  by (simp add: wire_def length_swap_packet)

lemma htonl_get_type: "htonl e (get32 e 0 (image Big p)) = packet_type p"
proof -
  have "get32 e 0 (image Big p) = word_of e (bytes_of Big 4 (packet_type p))"
    by (simp add: image_def packet_cells_def header_cells_def get_defs del: bytes_of.simps)
  then have "bytes_of e 4 (htonl e (get32 e 0 (image Big p))) = bytes_of e 4 (packet_type p)"
    by (simp only: htonl_Big)
  then have "word_of e (bytes_of e 4 (htonl e (get32 e 0 (image Big p)))) =
      (word_of e (bytes_of e 4 (packet_type p)) :: i32)"
    by (rule arg_cong)
  then show ?thesis by (simp add: word_of_bytes_of del: bytes_of.simps word_of.simps)
qed

lemma unwire_wire_other:
  assumes "sendable p"
  shows "unwire e' (wire e p) = Some p"
proof -
  from assms have f: "packet_fits p" and k: "packet_kind_of (packet_type p) \<noteq> None"
    by (simp_all add: sendable_def)
  have "swap_packet e' (image Big p) (packet_type p) = image e' p"
    by (rule swap_image [OF _ f]) (simp add: orders_def)
  with f k show ?thesis
    by (auto simp: unwire_def wire_Big_image htonl_get_type packet_of_image Let_def)
qed

text \<open>
  C38: The bytes of a packet on the wire do not depend on the byte order of the host that
  sends them: they are the memory image of a big-endian host. A receiver of either byte order
  decodes the bytes of any sender to the packet itself when its type is one of the five
  kinds, and refuses them when it is not.
\<close>

theorem wire_host_independent:
  assumes "packet_fits p"
  shows "wire Little p = wire Big p \<and> wire e p = image Big p \<and>
    unwire e' (wire e p) = (if packet_kind_of (packet_type p) = None then None else Some p)"
proof -
  have "unwire e' (image Big p) = None" if "packet_kind_of (packet_type p) = None"
    using that by (simp add: unwire_def htonl_get_type Let_def)
  moreover have "unwire e' (image Big p) = Some p" if "packet_kind_of (packet_type p) \<noteq> None"
    using unwire_wire_other [of p e' e] that assms by (simp add: sendable_def wire_Big_image)
  ultimately show ?thesis by (simp add: wire_Big_image [OF assms])
qed

theorem wire_host_independent_witness:
  "packet_fits (zero_packet PACKET_DM\<lparr>sender_id := 258\<rparr>) \<and>
   wire Little (zero_packet PACKET_DM\<lparr>sender_id := 258\<rparr>) = wire Big (zero_packet PACKET_DM\<lparr>sender_id := 258\<rparr>) \<and>
   unwire Little (wire Big (zero_packet PACKET_DM\<lparr>sender_id := 258\<rparr>)) = Some (zero_packet PACKET_DM\<lparr>sender_id := 258\<rparr>)"
proof -
  have f: "packet_fits (zero_packet PACKET_DM\<lparr>sender_id := 258\<rparr>)"
    by (simp add: packet_fits_def zero_defs fits_def)
  have k: "packet_kind_of (packet_type (zero_packet PACKET_DM\<lparr>sender_id := 258\<rparr>)) \<noteq> None"
    using kindE.enum_of_code [of PACKET_DM] by (simp add: packet_type_def zero_defs)
  show ?thesis using f wire_host_independent [OF f, of Big Little] unfolding if_not_P [OF k] by blast
qed

end
