(* ===== verification/SocketIO.thy ===== *)
theory SocketIO
  imports Transport
begin

text \<open>
  The I/O loops of \<^verbatim>\<open>shared/packet_helper.c\<close>. A script of events says what the kernel
  answers to the successive calls: how many bytes a \<open>send\<close> takes, which bytes a \<open>recv\<close>
  has, an interruption, no data yet, an error. A \<open>recv\<close> that takes only part of the
  bytes at hand leaves the rest for the next call. The interface between the byte stream
  and the packets is the locale \<open>framing\<close>; its provider is the wire format.
\<close>

section \<open>Framing: the interface between the stream and the packets\<close>

text \<open>The consecutive full frames of a stream; what is left over is shorter than a frame.\<close>

function chunks :: "nat \<Rightarrow> 'a list \<Rightarrow> 'a list list" where
  "chunks n xs = (if n = 0 \<or> length xs < n then [] else take n xs # chunks n (drop n xs))"
  by pat_completeness auto
termination by (relation "measure (\<lambda>(n, xs). length xs)") auto

declare chunks.simps [simp del]

lemma chunks_short: "length xs < n \<Longrightarrow> chunks n xs = []"
  by (simp add: chunks.simps)

locale framing =
  fixes enc :: "'p \<Rightarrow> byte list" and dec :: "byte list \<Rightarrow> 'p option"
    and size :: nat and ok :: "'p \<Rightarrow> bool"
  assumes size_pos: "0 < size"
    and length_enc: "length (enc p) = size"
    and dec_enc: "ok p \<Longrightarrow> dec (enc p) = Some p"
begin

lemma chunks_Cons: "chunks size (enc p @ bs) = enc p # chunks size bs"
  using size_pos by (subst chunks.simps) (simp add: length_enc)

lemma chunks_stream: "chunks size (concat (map enc ps)) = map enc ps"
  by (induction ps) (use size_pos in \<open>simp_all add: chunks_Cons chunks_short\<close>)

lemma decode_stream:
  "\<forall>p \<in> set ps. ok p \<Longrightarrow> map dec (chunks size (concat (map enc ps))) = map Some ps"
  by (simp add: chunks_stream dec_enc)

lemma stream_inject:
  assumes "\<forall>p \<in> set ps. ok p" and "\<forall>q \<in> set qs. ok q"
    and "concat (map enc ps) = concat (map enc qs)"
  shows "ps = qs"
proof -
  have "map Some ps = map dec (chunks size (concat (map enc qs)))"
    unfolding assms(3) [symmetric] by (rule decode_stream [OF assms(1), symmetric])
  also have "\<dots> = map Some qs" by (rule decode_stream [OF assms(2)])
  finally show ?thesis by (rule map_injective) simp
qed

end

interpretation packets: framing "wire e" "unwire e'" PACKET_SIZE sendable for e e'
  by unfold_locales (simp_all add: layout unwire_wire_other)

section \<open>Sending\<close>

datatype send_event = Accepts nat | Send_intr | Send_fails

text \<open>
  The loop of \<open>packet_send\<close>: the bytes from \<open>offset\<close> on are offered until all are taken.
  The result is \<open>None\<close> while the call still waits when the script ends, else the return
  value; with it come the bytes that went to the socket.
\<close>

fun send_loop :: "send_event list \<Rightarrow> byte list \<Rightarrow> nat \<Rightarrow> int option \<times> byte list" where
  "send_loop evs bytes offset =
     (if offset < length bytes then
        case evs of
          [] \<Rightarrow> (None, take offset bytes)
        | Send_intr # evs' \<Rightarrow> send_loop evs' bytes offset
        | Send_fails # _ \<Rightarrow> (Some (-1), take offset bytes)
        | Accepts k # evs' \<Rightarrow>
            let count = min k (length bytes - offset)
            in if count = 0 then (Some (-1), take offset bytes)
               else send_loop evs' bytes (offset + count)
      else (Some 0, take offset bytes))"

declare send_loop.simps [simp del]

definition packet_send :: "endian \<Rightarrow> send_event list \<Rightarrow> packet \<Rightarrow> int option \<times> byte list" where
  "packet_send e evs p = send_loop evs (wire e p) 0"

lemma send_loop_end: "length bytes \<le> offset \<Longrightarrow> send_loop evs bytes offset = (Some 0, bytes)"
  by (simp add: send_loop.simps)

lemma send_loop_step:
  assumes "offset < length bytes"
  shows "send_loop [] bytes offset = (None, take offset bytes)"
    and "send_loop (Send_intr # evs) bytes offset = send_loop evs bytes offset"
    and "send_loop (Send_fails # evs) bytes offset = (Some (-1), take offset bytes)"
    and "send_loop (Accepts 0 # evs) bytes offset = (Some (-1), take offset bytes)"
    and "0 < k \<Longrightarrow> send_loop (Accepts k # evs) bytes offset =
           send_loop evs bytes (offset + min k (length bytes - offset))"
  using assms by (simp_all add: send_loop.simps [of "[]"] send_loop.simps [of "_ # _"] Let_def
      min_def)

lemma send_loop_result:
  "offset \<le> length bytes \<Longrightarrow> send_loop evs bytes offset = (r, sent) \<Longrightarrow>
   (\<exists>n \<le> length bytes. sent = take n bytes) \<and> (r = Some 0 \<longleftrightarrow> sent = bytes)"
proof (induction evs arbitrary: offset)
  case Nil
  then show ?case
    by (cases "offset < length bytes")
      (auto simp: send_loop_end send_loop_step intro!: exI [of _ offset])
next
  case (Cons ev evs)
  show ?case
  proof (cases "offset < length bytes")
    case False
    with Cons.prems show ?thesis by (auto simp: send_loop_end)
  next
    case True
    then have "offset \<le> length bytes" and "take offset bytes \<noteq> bytes" by auto
    then have stop: ?thesis if "r = None \<or> r = Some (-1)" and "sent = take offset bytes"
      using that by (metis option.distinct(1) option.inject zero_neq_neg_one)
    show ?thesis
    proof (cases ev)
      case (Accepts k)
      with Cons.prems True stop Cons.IH [of "offset + min k (length bytes - offset)"]
      show ?thesis by (cases "k = 0") (simp_all add: send_loop_step)
    qed (use Cons.prems True stop Cons.IH [of offset] in \<open>simp_all add: send_loop_step\<close>)
  qed
qed

text \<open>How many bytes a script offers to take before it fails.\<close>

fun capacity :: "send_event list \<Rightarrow> nat" where
  "capacity [] = 0"
| "capacity (Send_intr # evs) = capacity evs"
| "capacity (Send_fails # evs) = 0"
| "capacity (Accepts k # evs) = (if k = 0 then 0 else k + capacity evs)"

lemma send_loop_done:
  "length bytes \<le> offset + capacity evs \<Longrightarrow> fst (send_loop evs bytes offset) = Some 0"
proof (induction evs arbitrary: offset)
  case Nil
  then show ?case by (simp add: send_loop_end)
next
  case (Cons ev evs)
  show ?case
  proof (cases "offset < length bytes")
    case False
    then show ?thesis by (simp add: send_loop_end)
  next
    case True
    with Cons show ?thesis
      by (cases ev) (auto simp: send_loop_step min_def split: if_splits)
  qed
qed

text \<open>
  \<open>packet_send\<close> hands the socket a prefix of the packet's wire image, whatever short
  writes and interruptions occur, and it returns 0 exactly when that is the whole image.
\<close>

theorem packet_send_whole:
  assumes "packet_send e evs p = (r, sent)"
  shows "(\<exists>n \<le> PACKET_SIZE. sent = take n (wire e p)) \<and> (r = Some 0 \<longleftrightarrow> sent = wire e p)"
  using send_loop_result [of 0 "wire e p" evs r sent] assms by (simp add: packet_send_def)

theorem packet_send_whole_witness:
  "packet_send Little [Send_intr, Send_fails] (zero_packet PACKET_DM) = (Some (-1), []) \<and>
   (Some (-1) = Some (0 :: int) \<longleftrightarrow> [] = wire Little (zero_packet PACKET_DM))"
proof -
  have run: "packet_send Little [Send_intr, Send_fails] (zero_packet PACKET_DM) = (Some (-1), [])"
    by (simp add: packet_send_def send_loop_step layout)
  show ?thesis using run packet_send_whole [OF run] by simp
qed

text \<open>
  \<open>packet_send\<close> returns, with success, as soon as the socket has offered room for the
  whole packet, in however many pieces and with however many interruptions.
\<close>

theorem packet_send_terminates:
  assumes "PACKET_SIZE \<le> capacity evs"
  shows "packet_send e evs p = (Some 0, wire e p)"
proof -
  obtain r sent where run: "packet_send e evs p = (r, sent)" by fastforce
  then have "r = Some 0"
    using send_loop_done [of "wire e p" 0 evs] assms by (simp add: packet_send_def)
  with send_loop_result [of 0 "wire e p" evs r sent] run show ?thesis
    by (simp add: packet_send_def)
qed

theorem packet_send_terminates_witness:
  "PACKET_SIZE \<le> capacity [Accepts 600, Send_intr, Accepts 100] \<and>
   packet_send Big [Accepts 600, Send_intr, Accepts 100] (zero_packet PACKET_DM) =
     (Some 0, wire Big (zero_packet PACKET_DM))"
proof -
  have c: "PACKET_SIZE \<le> capacity [Accepts 600, Send_intr, Accepts 100]" by (simp add: layout)
  show ?thesis using c packet_send_terminates [OF c, of Big "zero_packet PACKET_DM"] by simp
qed

end
