(* ===== verification/Receive.thy ===== *)
theory Receive
  imports SocketIO
begin

text \<open>
  Receiving: \<open>packet_receive\<close>, the blocking loop of the client, and
  \<open>packet_receive_partial\<close>, the server's non-blocking one, which keeps the bytes received
  so far in the client's buffer between two rounds of the event loop.
\<close>

text \<open>
  What a \<open>recv\<close> meets: bytes at hand (no bytes is the end of the stream), an
  interruption, nothing yet (\<open>EAGAIN\<close>), another error. An exhausted script is nothing yet.
\<close>

datatype recv_event = Data "byte list" | Recv_intr | Recv_again | Recv_fails i32

datatype errno = NO_ERROR | ECONNRESET | EPROTO | ERRNO i32

fun ev_size :: "recv_event \<Rightarrow> nat" where
  "ev_size (Data bs) = Suc (length bs)"
| "ev_size _ = 1"

definition evs_size :: "recv_event list \<Rightarrow> nat" where
  "evs_size evs = sum_list (map ev_size evs)"

text \<open>The events after a \<open>recv\<close> that took \<open>n\<close> of the bytes at hand.\<close>

definition after_recv :: "nat \<Rightarrow> byte list \<Rightarrow> recv_event list \<Rightarrow> recv_event list" where
  "after_recv n bs evs = (if length bs \<le> n then evs else Data (drop n bs) # evs)"

lemma evs_size_simps [simp]:
  "evs_size [] = 0" "evs_size (ev # evs) = ev_size ev + evs_size evs"
  by (simp_all add: evs_size_def)

lemma evs_size_after_recv:
  "0 < n \<Longrightarrow> bs \<noteq> [] \<Longrightarrow> evs_size (after_recv n bs evs) < Suc (length bs + evs_size evs)"
  by (cases bs) (simp_all add: after_recv_def)

section \<open>The blocking receive\<close>

text \<open>
  The result is \<open>None\<close> while the call still waits at the end of the script; otherwise the
  return value and, when that is the packet's size, the packet.
\<close>

datatype receive_result = Received packet | Closed | Failed errno

function receive_loop :: "endian \<Rightarrow> recv_event list \<Rightarrow> byte list \<Rightarrow> receive_result option \<times> recv_event list"
where
  "receive_loop e evs bytes =
     (if length bytes < PACKET_SIZE then
        case evs of
          [] \<Rightarrow> (None, [])
        | Recv_intr # evs' \<Rightarrow> receive_loop e evs' bytes
        | Recv_again # evs' \<Rightarrow> receive_loop e evs' bytes
        | Recv_fails n # evs' \<Rightarrow> (Some (Failed (ERRNO n)), evs')
        | Data bs # evs' \<Rightarrow>
            if bs = [] then (Some (if bytes = [] then Closed else Failed ECONNRESET), evs')
            else receive_loop e (after_recv (PACKET_SIZE - length bytes) bs evs')
                   (bytes @ take (PACKET_SIZE - length bytes) bs)
      else (case unwire e bytes of
              None \<Rightarrow> (Some (Failed EPROTO), evs)
            | Some p \<Rightarrow> (Some (Received p), evs)))"
  by pat_completeness auto
termination
  by (relation "measure (\<lambda>(e, evs, bytes). evs_size evs)") (auto simp: evs_size_after_recv)

declare receive_loop.simps [simp del]

definition packet_receive :: "endian \<Rightarrow> recv_event list \<Rightarrow> receive_result option \<times> recv_event list" where
  "packet_receive e evs = receive_loop e evs []"

section \<open>The non-blocking receive\<close>

datatype partial_result = Pending | Got packet | Broken errno

text \<open>
  The loop: either it stops with a result, or the buffer is full (no result yet). It
  returns the buffer, the new offset and the events left.
\<close>

function partial_loop :: "recv_event list \<Rightarrow> byte list \<Rightarrow> nat \<Rightarrow>
    partial_result option \<times> byte list \<times> nat \<times> recv_event list"
where
  "partial_loop evs buffer offset =
     (if offset < PACKET_SIZE then
        case evs of
          [] \<Rightarrow> (Some Pending, buffer, offset, [])
        | Recv_intr # evs' \<Rightarrow> partial_loop evs' buffer offset
        | Recv_again # evs' \<Rightarrow> (Some Pending, buffer, offset, evs')
        | Recv_fails n # evs' \<Rightarrow> (Some (Broken (ERRNO n)), buffer, offset, evs')
        | Data bs # evs' \<Rightarrow>
            if bs = [] then
              (Some (Broken (if offset = 0 then NO_ERROR else ECONNRESET)), buffer, offset, evs')
            else let chunk = take (PACKET_SIZE - offset) bs
                 in partial_loop (after_recv (PACKET_SIZE - offset) bs evs')
                      (put_bytes offset chunk buffer) (offset + length chunk)
      else (None, buffer, offset, evs))"
  by pat_completeness auto
termination
  by (relation "measure (\<lambda>(evs, buffer, offset). evs_size evs)") (auto simp: evs_size_after_recv)

declare partial_loop.simps [simp del]

definition packet_receive_partial :: "endian \<Rightarrow> recv_event list \<Rightarrow> byte list \<Rightarrow> nat \<Rightarrow>
    partial_result \<times> byte list \<times> nat \<times> recv_event list"
where
  "packet_receive_partial e evs buffer offset =
     (case partial_loop evs buffer offset of
        (Some r, buffer', offset', evs') \<Rightarrow> (r, buffer', offset', evs')
      | (None, buffer', offset', evs') \<Rightarrow>
          (case unwire e buffer' of
             None \<Rightarrow> (Broken EPROTO, buffer', offset', evs')
           | Some p \<Rightarrow> (Got p, buffer', 0, evs')))"

lemma partial_loop_full: "PACKET_SIZE \<le> offset \<Longrightarrow> partial_loop evs buffer offset = (None, buffer, offset, evs)"
  by (simp add: partial_loop.simps)

lemma partial_loop_step:
  assumes "offset < PACKET_SIZE"
  shows "partial_loop [] buffer offset = (Some Pending, buffer, offset, [])"
    and "partial_loop (Recv_intr # evs) buffer offset = partial_loop evs buffer offset"
    and "partial_loop (Recv_again # evs) buffer offset = (Some Pending, buffer, offset, evs)"
    and "partial_loop (Recv_fails n # evs) buffer offset = (Some (Broken (ERRNO n)), buffer, offset, evs)"
    and "partial_loop (Data [] # evs) buffer offset =
      (Some (Broken (if offset = 0 then NO_ERROR else ECONNRESET)), buffer, offset, evs)"
    and "bs \<noteq> [] \<Longrightarrow> partial_loop (Data bs # evs) buffer offset =
      partial_loop (after_recv (PACKET_SIZE - offset) bs evs)
        (put_bytes offset (take (PACKET_SIZE - offset) bs) buffer)
        (offset + length (take (PACKET_SIZE - offset) bs))"
  using assms by (simp_all add: partial_loop.simps [of "[]"] partial_loop.simps [of "_ # _"] Let_def)

section \<open>What the loop keeps\<close>

text \<open>
  The bytes a script still holds, and a script in which the connection neither ends nor
  fails. The pending stream of a connection is what its buffer holds followed by what the
  script holds; the loop never changes it.
\<close>

fun data_of :: "recv_event list \<Rightarrow> byte list" where
  "data_of [] = []"
| "data_of (Data bs # evs) = bs @ data_of evs"
| "data_of (_ # evs) = data_of evs"

fun steady :: "recv_event list \<Rightarrow> bool" where
  "steady [] = True"
| "steady (Data bs # evs) = (bs \<noteq> [] \<and> steady evs)"
| "steady (Recv_fails _ # _) = False"
| "steady (_ # evs) = steady evs"

lemma data_of_after_recv: "take n bs @ data_of (after_recv n bs evs) = bs @ data_of evs"
  by (simp add: after_recv_def)

lemma steady_after_recv: "steady evs \<Longrightarrow> steady (after_recv n bs evs)"
  by (simp add: after_recv_def)

lemma take_put_bytes:
  "offset + length chunk \<le> length buffer \<Longrightarrow>
   take (offset + length chunk) (put_bytes offset chunk buffer) = take offset buffer @ chunk"
  by (simp add: put_bytes_def)

definition loop_post :: "byte list \<Rightarrow> nat \<Rightarrow>
    partial_result option \<times> byte list \<times> nat \<times> recv_event list \<Rightarrow> bool" where
  "loop_post stream size0 out =
     (case out of (r, buffer', offset', evs') \<Rightarrow>
        length buffer' = PACKET_SIZE \<and> evs_size evs' \<le> size0
        \<and> take offset' buffer' @ data_of evs' = stream \<and> steady evs'
        \<and> (r = None \<and> offset' = PACKET_SIZE \<or> r = Some Pending \<and> offset' < PACKET_SIZE))"

lemma loop_post_mono: "loop_post stream n out \<Longrightarrow> n \<le> m \<Longrightarrow> loop_post stream m out"
  by (auto simp: loop_post_def)

lemma partial_loop_post:
  "length buffer = PACKET_SIZE \<Longrightarrow> offset \<le> PACKET_SIZE \<Longrightarrow> steady evs \<Longrightarrow>
   loop_post (take offset buffer @ data_of evs)
     (if evs = [] \<or> offset = PACKET_SIZE then evs_size evs else evs_size evs - 1)
     (partial_loop evs buffer offset)"
proof (induction evs buffer offset rule: partial_loop.induct)
  case (1 evs buffer offset)
  show ?case
  proof (cases "offset < PACKET_SIZE")
    case False
    with "1.prems" show ?thesis by (auto simp: partial_loop_full loop_post_def)
  next
    case True
    show ?thesis
    proof (cases evs)
      case Nil
      with "1.prems" True show ?thesis by (simp add: partial_loop_step loop_post_def)
    next
      case (Cons ev evs')
      show ?thesis
      proof (cases ev)
        case (Data bs)
        with "1.prems" Cons have bs: "bs \<noteq> []" and st: "steady evs'" by simp_all
        let ?n = "PACKET_SIZE - offset"
        let ?chunk = "take ?n bs"
        have fit: "offset + length ?chunk \<le> length buffer" using "1.prems"(1) True by simp
        have "loop_post (take (offset + length ?chunk) (put_bytes offset ?chunk buffer)
              @ data_of (after_recv ?n bs evs'))
            (evs_size (after_recv ?n bs evs')) (partial_loop evs buffer offset)"
          using "1.IH"(1) [OF True Cons Data bs refl] "1.prems" fit st bs True Cons Data
          by (auto simp: partial_loop_step steady_after_recv intro: loop_post_mono)
        moreover have "evs_size (after_recv ?n bs evs') \<le> evs_size evs - 1"
          using evs_size_after_recv [of ?n bs evs'] bs True Cons Data by simp
        ultimately show ?thesis
          using True Cons Data fit
          by (auto simp: take_put_bytes data_of_after_recv simp del: length_take
              intro: loop_post_mono)
      next
        case Recv_intr
        with "1.IH"(2) [OF True Cons] "1.prems" True Cons show ?thesis
          by (auto simp: partial_loop_step intro: loop_post_mono)
      next
        case Recv_again
        with "1.prems" True Cons show ?thesis by (simp add: partial_loop_step loop_post_def)
      next
        case (Recv_fails n)
        with "1.prems" Cons show ?thesis by simp
      qed
    qed
  qed
qed

text \<open>Whatever the script, the buffer keeps its size and the offset stays within it.\<close>

lemma partial_loop_bounds:
  "length buffer = PACKET_SIZE \<Longrightarrow> offset \<le> PACKET_SIZE \<Longrightarrow>
   partial_loop evs buffer offset = (r, buffer', offset', evs') \<Longrightarrow>
   length buffer' = PACKET_SIZE \<and> offset' \<le> PACKET_SIZE \<and>
   (r = None \<longleftrightarrow> offset' = PACKET_SIZE) \<and> (\<forall>p. r \<noteq> Some (Got p))"
proof (induction evs buffer offset rule: partial_loop.induct)
  case (1 evs buffer offset)
  show ?case
  proof (cases "offset < PACKET_SIZE")
    case False
    with "1.prems" show ?thesis by (auto simp: partial_loop_full)
  next
    case True
    show ?thesis
    proof (cases evs)
      case Nil
      with "1.prems" True show ?thesis by (auto simp: partial_loop_step)
    next
      case (Cons ev evs0)
      show ?thesis
      proof (cases ev)
        case (Data bs)
        show ?thesis
        proof (cases "bs = []")
          case True
          with "1.prems" \<open>offset < PACKET_SIZE\<close> Cons Data show ?thesis
            by (auto simp: partial_loop_step)
        next
          case False
          with "1.IH"(1) [OF True Cons Data False refl] "1.prems" True Cons Data show ?thesis
            by (simp add: partial_loop_step)
        qed
      next
        case Recv_intr
        with "1.IH"(2) [OF True Cons] "1.prems" True Cons show ?thesis
          by (simp add: partial_loop_step)
      qed (use "1.prems" True Cons in \<open>auto simp: partial_loop_step\<close>)
    qed
  qed
qed

lemma loop_bounds:
  assumes "length buffer = PACKET_SIZE" and "offset < PACKET_SIZE"
    and "packet_receive_partial e evs buffer offset = (r, buffer', offset', evs')"
  shows "length buffer' = PACKET_SIZE \<and> ((\<forall>n. r \<noteq> Broken n) \<longrightarrow> offset' < PACKET_SIZE)"
proof -
  obtain r0 b0 o0 evs0 where run: "partial_loop evs buffer offset = (r0, b0, o0, evs0)"
    by (metis prod_cases4)
  have pos: "0 < PACKET_SIZE" by (simp add: layout)
  from partial_loop_bounds [OF assms(1) less_imp_le [OF assms(2)] run] assms(3) run pos
  show ?thesis
    by (auto simp: packet_receive_partial_def split: option.splits)
qed

text \<open>
  C35: The receive buffer of a client is never overrun: from an offset inside it,
  \<open>packet_receive_partial\<close> keeps its size, and unless the connection is given up it leaves
  the offset strictly inside, so the next call may write again. This holds for every
  behaviour of the socket.
\<close>

theorem packet_receive_partial_bounds:
  assumes "length buffer = PACKET_SIZE" and "offset < PACKET_SIZE"
    and "packet_receive_partial e evs buffer offset = (r, buffer', offset', evs')"
  shows "length buffer' = PACKET_SIZE \<and> ((\<forall>n. r \<noteq> Broken n) \<longrightarrow> offset' < PACKET_SIZE)"
  using loop_bounds [OF assms] .

theorem packet_receive_partial_bounds_witness:
  "packet_receive_partial Little [Data [1, 2], Recv_again] (replicate 624 0) 5 =
     (Pending, put_bytes 5 [1, 2] (replicate 624 0), 7, []) \<and>
   length (put_bytes 5 [1, 2] (replicate 624 (0 :: byte))) = PACKET_SIZE \<and> 7 < PACKET_SIZE"
proof -
  have len: "length (replicate 624 (0 :: byte)) = PACKET_SIZE" and off: "5 < PACKET_SIZE"
    by (simp_all add: layout)
  have run: "packet_receive_partial Little [Data [1, 2], Recv_again] (replicate 624 0) 5 =
     (Pending, put_bytes 5 [1, 2] (replicate 624 0), 7, [])"
    by (simp add: packet_receive_partial_def partial_loop_step layout after_recv_def)
  show ?thesis using run packet_receive_partial_bounds [OF len off run] by simp
qed

section \<open>A whole connection\<close>

text \<open>
  The server calls \<open>packet_receive_partial\<close> once for a client in every round in which its
  socket is readable. \<open>receive_all\<close> makes those calls one after the other, until the
  script is used up or the connection is given up, and collects the packets they deliver.
\<close>

function receive_all :: "endian \<Rightarrow> recv_event list \<Rightarrow> byte list \<Rightarrow> nat \<Rightarrow> packet list" where
  "receive_all e evs buffer offset =
     (case packet_receive_partial e evs buffer offset of (r, buffer', offset', evs') \<Rightarrow>
        (case r of Got p \<Rightarrow> [p] | _ \<Rightarrow> []) @
        (if (\<forall>n. r \<noteq> Broken n) \<and> evs_size evs' < evs_size evs
         then receive_all e evs' buffer' offset' else []))"
  by pat_completeness auto
termination by (relation "measure (\<lambda>(e, evs, buffer, offset). evs_size evs)") auto

declare receive_all.simps [simp del]

text \<open>One call on a steady script: the pending stream, split at the frame boundary.\<close>

lemma partial_steady:
  assumes "length buffer = PACKET_SIZE" and "offset < PACKET_SIZE" and "steady evs"
    and "packet_receive_partial e evs buffer offset = (r, buffer', offset', evs')"
    and "take offset buffer @ data_of evs = stream"
  shows "(\<exists>frame rest. stream = frame @ rest \<and> length frame = PACKET_SIZE \<and> unwire e frame = None)
    \<or> (\<exists>p frame. r = Got p \<and> offset' = 0 \<and> length frame = PACKET_SIZE \<and> unwire e frame = Some p
        \<and> stream = frame @ data_of evs' \<and> length buffer' = PACKET_SIZE \<and> steady evs'
        \<and> evs_size evs' < evs_size evs)
    \<or> (r = Pending \<and> stream = take offset' buffer' @ data_of evs' \<and> length buffer' = PACKET_SIZE
        \<and> offset' < PACKET_SIZE \<and> steady evs' \<and> (evs = [] \<or> evs_size evs' < evs_size evs))"
proof -
  obtain r0 b0 o0 evs0 where run: "partial_loop evs buffer offset = (r0, b0, o0, evs0)"
    by (metis prod_cases4)
  have "loop_post stream (if evs = [] then evs_size evs else evs_size evs - 1) (r0, b0, o0, evs0)"
    using partial_loop_post [OF assms(1) less_imp_le [OF assms(2)] assms(3)] assms(2,5) run
    by simp
  then have post: "length b0 = PACKET_SIZE" "take o0 b0 @ data_of evs0 = stream" "steady evs0"
      "r0 = None \<and> o0 = PACKET_SIZE \<or> r0 = Some Pending \<and> o0 < PACKET_SIZE"
    and small: "evs_size evs0 \<le> (if evs = [] then evs_size evs else evs_size evs - 1)"
    by (auto simp: loop_post_def)
  have dec: "evs = [] \<or> evs_size evs0 < evs_size evs"
  proof (cases evs)
    case (Cons ev es)
    then have pos: "0 < evs_size evs" by (cases ev) simp_all
    from Cons have "evs \<noteq> []" by simp
    with small have "evs_size evs0 \<le> evs_size evs - 1" by (simp only: if_False)
    with pos show ?thesis by linarith
  qed simp
  from post(4) show ?thesis
  proof
    assume full: "r0 = None \<and> o0 = PACKET_SIZE"
    then have evs: "evs \<noteq> []"
      using run assms(2) by (auto simp: partial_loop_step)
    have "stream = b0 @ data_of evs0" using post(1,2) full by simp
    with full evs dec post assms(4) run show ?thesis
      by (cases "unwire e b0") (auto simp: packet_receive_partial_def)
  next
    assume "r0 = Some Pending \<and> o0 < PACKET_SIZE"
    with dec post assms(4) run show ?thesis by (auto simp: packet_receive_partial_def)
  qed
qed

text \<open>The packets delivered are the decoded frames of the pending stream.\<close>

lemma receive_all_chunks:
  "length buffer = PACKET_SIZE \<Longrightarrow> offset < PACKET_SIZE \<Longrightarrow> steady evs \<Longrightarrow>
   map (unwire e) (chunks PACKET_SIZE (take offset buffer @ data_of evs)) = map Some ps \<Longrightarrow>
   receive_all e evs buffer offset = ps"
proof (induction e evs buffer offset arbitrary: ps rule: receive_all.induct)
  case (1 e evs buffer offset)
  let ?stream = "take offset buffer @ data_of evs"
  obtain r b' o' evs' where run: "packet_receive_partial e evs buffer offset = (r, b', o', evs')"
    by (metis prod_cases4)
  have frames: "map (unwire e) (chunks PACKET_SIZE (frame @ rest)) =
      unwire e frame # map (unwire e) (chunks PACKET_SIZE rest)"
    if "length frame = PACKET_SIZE" for frame rest :: "byte list"
    using that by (subst chunks.simps) (simp add: layout)
  have zero: "0 < PACKET_SIZE" by (simp add: layout)
  have rec: "receive_all e evs buffer offset = (case r of Got p \<Rightarrow> [p] | _ \<Rightarrow> []) @
      (if (\<forall>n. r \<noteq> Broken n) \<and> evs_size evs' < evs_size evs then receive_all e evs' b' o' else [])"
    by (simp add: receive_all.simps [of e evs] run)
  consider
      (bad) frame rest where "?stream = frame @ rest" "length frame = PACKET_SIZE" "unwire e frame = None"
    | (got) p frame where "r = Got p" "o' = 0" "length frame = PACKET_SIZE" "unwire e frame = Some p"
        "?stream = frame @ data_of evs'" "length b' = PACKET_SIZE" "steady evs'"
        "evs_size evs' < evs_size evs"
    | (more) "r = Pending" "?stream = take o' b' @ data_of evs'" "length b' = PACKET_SIZE"
        "o' < PACKET_SIZE" "steady evs'" "evs = [] \<or> evs_size evs' < evs_size evs"
    using partial_steady [OF "1.prems"(1-3) run refl] by (elim disjE exE conjE) blast+
  then show ?case
  proof cases
    case bad
    with "1.prems"(4) frames show ?thesis by auto
  next
    case (got p frame)
    note r = got(1) and o' = got(2) and f = got(3,4) and s = got(5) and b = got(6,7) and dec = got(8)
    from "1.prems"(4) frames [OF f(1)] f s obtain qs where "ps = p # qs"
      and "map (unwire e) (chunks PACKET_SIZE (data_of evs')) = map Some qs"
      by (auto simp: map_eq_Cons_conv Cons_eq_map_conv)
    with "1.IH" [OF run [symmetric] refl refl] r o' b dec zero rec show ?thesis by simp
  next
    case more
    note r = more(1) and s = more(2) and b = more(3-5) and dec = more(6)
    show ?thesis
    proof (cases "evs_size evs' < evs_size evs")
      case True
      with "1.IH" [OF run [symmetric] refl refl] r s b "1.prems"(4) rec show ?thesis by simp
    next
      case False
      with dec have "evs = []" by simp
      then have "chunks PACKET_SIZE ?stream = []"
        using "1.prems"(1,2) by (simp add: chunks_short)
      with "1.prems"(4) False r rec show ?thesis by simp
    qed
  qed
qed

text \<open>
  C2: Packets survive the network. However the kernel cuts the stream of the packets that
  a peer sent, with interruptions and empty polls anywhere, the successive calls of
  \<open>packet_receive_partial\<close> deliver exactly those packets, in order, on any pair of hosts.
\<close>

theorem receive_all_sent:
  assumes "\<forall>p \<in> set ps. sendable p" and "steady evs"
    and "data_of evs = concat (map (wire e) ps)" and "length buffer = PACKET_SIZE"
  shows "receive_all e' evs buffer 0 = ps"
  by (rule receive_all_chunks)
    (use assms packets.decode_stream [OF assms(1), of e' e] in \<open>simp_all add: layout\<close>)

theorem receive_all_sent_witness:
  "receive_all Big
     [Data (take 5 (wire Little (zero_packet PACKET_DM))), Recv_again, Recv_intr,
      Data (drop 5 (wire Little (zero_packet PACKET_DM)) @ wire Little (zero_packet PACKET_AUTH))]
     (replicate 624 0) 0 = [zero_packet PACKET_DM, zero_packet PACKET_AUTH]"
proof (rule receive_all_sent)
  show "\<forall>p \<in> set [zero_packet PACKET_DM, zero_packet PACKET_AUTH]. sendable p"
    by (simp add: sendable_def packet_fits_def zero_defs fits_def packet_type_def enum_of_def)
  have "take 5 (wire Little (zero_packet PACKET_DM)) \<noteq> []"
    and "drop 5 (wire Little (zero_packet PACKET_DM)) \<noteq> []"
    by (simp_all add: layout flip: length_0_conv)
  then show "steady [Data (take 5 (wire Little (zero_packet PACKET_DM))), Recv_again, Recv_intr,
      Data (drop 5 (wire Little (zero_packet PACKET_DM)) @ wire Little (zero_packet PACKET_AUTH))]"
    by simp
  show "data_of [Data (take 5 (wire Little (zero_packet PACKET_DM))), Recv_again, Recv_intr,
      Data (drop 5 (wire Little (zero_packet PACKET_DM)) @ wire Little (zero_packet PACKET_AUTH))] =
    concat (map (wire Little) [zero_packet PACKET_DM, zero_packet PACKET_AUTH])"
    by (simp flip: append_assoc)
  show "length (replicate 624 (0 :: byte)) = PACKET_SIZE" by (simp add: layout)
qed

end
