(* ===== verification/UiSends.thy ===== *)
theory UiSends
  imports UiSafety Receive
begin

text \<open>
  The packets of the client on the wire: every packet it ever hands to \<open>packet_send\<close> is one
  the server can decode, because all text in them was typed; so all of them arrive.
\<close>

section \<open>Sendable requests\<close>

definition nul_free :: "string \<Rightarrow> bool" where
  "nul_free s \<longleftrightarrow> CHR 0x00 \<notin> set s"

lemma nul_free_Nil [simp]: "nul_free []"
  by (simp add: nul_free_def)

lemma fits_copy: "nul_free s \<Longrightarrow> m \<le> n \<Longrightarrow> fits n (strncpy0 m s)"
  by (auto simp: nul_free_def fits_def strncpy0_def dest: in_set_takeD)

lemma fits_Nil: "fits n []"
  by (simp add: fits_def)

lemma sendable_base:
  assumes "payload_fits pl" and "payload_type pl = packet_kind_code k"
  shows "sendable (base_request env k pl)"
  using assms kindE.enum_of_code [of k]
  by (simp add: sendable_def base_request_def packet_fits_def packet_type_def)

lemma sendable_requests:
  "nul_free a \<Longrightarrow> nul_free b \<Longrightarrow> sendable (base_request env PACKET_AUTH (credentials act a b))"
  "nul_free a \<Longrightarrow> sendable (server_request env sa sid target a)"
  "nul_free a \<Longrightarrow> nul_free b \<Longrightarrow> sendable (social_request env so a b)"
  "nul_free a \<Longrightarrow> sendable (dm_request env da r a)"
  "nul_free a \<Longrightarrow> nul_free b \<Longrightarrow> sendable (channel_request env (zero_channel\<lparr>ch_action := x, ch_server_id := y,
     ch_channel_id := z, ch_name := strncpy0 31 a, ch_message := strncpy0 511 b\<rparr>))"
  "sendable (base_request env PACKET_AUTH (Auth (zero_auth\<lparr>auth_action := w\<rparr>)))"
  unfolding server_request_def social_request_def dm_request_def channel_request_def credentials_def
  by (auto intro!: sendable_base simp: zero_defs fits_copy fits_Nil)

lemma sendable_channel:
  "nul_free a \<Longrightarrow> sendable (channel_request env (zero_channel\<lparr>ch_action := x, ch_server_id := y, ch_name := strncpy0 31 a\<rparr>))"
  "nul_free a \<Longrightarrow> sendable (channel_request env (zero_channel\<lparr>ch_action := x, ch_channel_id := z, ch_message := strncpy0 511 a\<rparr>))"
  "sendable (channel_request env (zero_channel\<lparr>ch_action := x, ch_channel_id := z\<rparr>))"
  unfolding channel_request_def
  by (auto intro!: sendable_base simp: zero_defs fits_copy fits_Nil)

section \<open>Typed text\<close>

lemma nul_free_parts:
  "nul_free s \<Longrightarrow> nul_free (butlast s)" "nul_free s \<Longrightarrow> nul_free (drop n s)" "nul_free s \<Longrightarrow> nul_free (strncpy0 n s)"
  "nul_free s \<Longrightarrow> nul_free (dropWhile P s)"
  by (auto simp: nul_free_def strncpy0_def dest: in_set_butlastD in_set_dropD in_set_takeD set_dropWhileD)

lemma nul_free_strip: "nul_free s \<Longrightarrow> nul_free (strip_spaces s)"
proof (induction s rule: strip_spaces.induct)
  case (1 s)
  then show ?case by (subst strip_spaces.simps) (simp add: nul_free_parts)
qed

lemma nul_free_cstr: "nul_free (cstr buf)"
  by (auto simp: nul_free_def cstr_def dest: set_takeWhileD)

lemma printable_Some: "printable k = Some c \<Longrightarrow> c \<noteq> CHR 0x00"
proof (cases k)
  case (Key_char n)
  assume "printable k = Some c"
  with Key_char have "c = char_of n" "32 \<le> n" "n < 127" by (auto split: if_splits)
  then have "(of_char c :: nat) = n" by (simp add: of_char_of take_bit_eq_mod)
  with \<open>32 \<le> n\<close> show ?thesis by auto
qed simp_all

lemma nul_free_type:
  "nul_free s \<Longrightarrow> nul_free (type_char k s)" "nul_free s \<Longrightarrow> printable k = Some c \<Longrightarrow> nul_free (s @ [c])"
  by (auto simp: nul_free_def type_char_def dest: printable_Some split: option.split)

lemma nul_free_argument: "nul_free s \<Longrightarrow> nul_free (argument n s)" "nul_free s \<Longrightarrow> nul_free (status_text s)"
  by (simp_all add: argument_def status_text_def nul_free_strip nul_free_parts)

section \<open>The invariant\<close>

definition clean :: "ui \<Rightarrow> bool" where
  "clean u \<longleftrightarrow> (\<forall>x \<in> set (requests u). sendable (snd x)) \<and> nul_free (form_username u) \<and>
     nul_free (form_password u) \<and> nul_free (chat_input u) \<and> nul_free (dm_input u)"

lemma clean_submit: "clean u \<Longrightarrow> sendable p \<Longrightarrow> clean (submit env p u)"
  by (auto simp: clean_def submit_eq)

lemma clean_logout: "clean u \<Longrightarrow> clean (send_logout env u)"
  by (auto simp: clean_def send_logout_eq sendable_requests)

lemma clean_dm_history: "clean u \<Longrightarrow> clean (request_dm_history env i u)"
  by (auto simp: request_dm_history_def intro!: clean_submit sendable_requests)

text \<open>An update of any other variable.\<close>

lemmas asks = create_server_def leave_server_def kick_member_request_def delete_server_def
  join_server_def list_joined_servers_request_def list_all_servers_request_def
  request_server_channels_def request_server_members_def create_channel_def delete_channel_def
  request_channel_history_def send_channel_message_def send_friend_request_def
  accept_friend_request_def unfriend_request_def reject_friend_request_def send_status_update_def
  request_friend_list_def request_user_list_def send_dm_message_def

lemmas sends = clean_submit clean_logout clean_dm_history sendable_requests sendable_channel

text \<open>What only touches other variables keeps \<open>clean\<close>.\<close>

lemma clean_cong:
  assumes "clean u" and "requests u' = requests u" and "form_username u' = form_username u"
    and "form_password u' = form_password u" and "chat_input u' = chat_input u" and "dm_input u' = dm_input u"
  shows "clean u'"
  using assms by (simp add: clean_def)

lemma clean_if: "(c \<Longrightarrow> clean a) \<Longrightarrow> (\<not> c \<Longrightarrow> clean b) \<Longrightarrow> clean (if c then a else b)"
  by simp

lemma clean_option:
  "(x = None \<Longrightarrow> clean a) \<Longrightarrow> (\<And>y. x = Some y \<Longrightarrow> clean (f y)) \<Longrightarrow> clean (case x of None \<Rightarrow> a | Some y \<Rightarrow> f y)"
  by (cases x) simp_all

text \<open>The keyboard.\<close>

lemma clean_auth_input:
  assumes "clean u"
  shows "clean (handle_auth_input env k b u)"
proof -
  have put: "clean (put_field s (u\<lparr>form_error := [], form_success := []\<rparr>))" if "nul_free s" for s
    using assms that by (simp add: clean_def put_field_def)
  have form: "nul_free (form_username u)" "nul_free (form_password u)" using assms by (simp_all add: clean_def)
  have u: "clean (u\<lparr>form_error := [], form_success := []\<rparr>)" using assms by (simp add: clean_def)
  have sub: "clean (submit_form env b (u\<lparr>form_error := [], form_success := []\<rparr>))"
    using assms form by (auto simp: submit_form_def send_register_eq send_login_eq clean_def submit_eq sendable_requests)
  have f2: "clean (u\<lparr>form_error := [], form_success := [], form_username := [], form_password := [],
      form_field := 0, form_error := [], current_screen := s\<rparr>)" for s
    using assms by (simp add: clean_def)
  show ?thesis
    unfolding handle_auth_input_def Let_def
    by (intro clean_if clean_option put sub f2 u nul_free_parts nul_free_type clean_cong [OF assms])
      (use form in \<open>simp_all add: nul_free_parts nul_free_type\<close>)
qed

lemma clean_open_command: "clean u \<Longrightarrow> clean (open_command u)"
  by (simp add: clean_def open_command_def)

lemma clean_server_input: "clean u \<Longrightarrow> holds clean (handle_server_input env k u)"
  unfolding handle_server_input_def enter_server_def asks Let_def
  by (intro steps) (auto intro!: sends clean_open_command intro: clean_cong)

lemma clean_friends_input: "clean u \<Longrightarrow> clean (handle_friends_input env k u)"
  unfolding handle_friends_input_def asks by (auto intro!: sends clean_open_command intro: clean_cong)

lemma clean_users_input: "clean u \<Longrightarrow> clean (handle_users_input env k u)"
  unfolding handle_users_input_def asks by (auto intro!: sends clean_open_command intro: clean_cong)

lemma clean_chat_input:
  assumes "clean u"
  shows "holds clean (handle_chat_input env k u)"
proof -
  have chat: "clean (u\<lparr>chat_input := s\<rparr>)" if "nul_free s" for s using assms that by (simp add: clean_def)
  have tab: "clean (u\<lparr>active_channel := n, chat_input := []\<rparr>)" for n using assms by (simp add: clean_def)
  have f2: "clean (u\<lparr>chat_input := [], current_screen := s\<rparr>)"
      "clean (u\<lparr>chat_input := [], current_screen := s, active_server := i, ui_users := us\<rparr>)" for s i us
    using assms by (simp_all add: clean_def)
  have free: "nul_free (chat_input u)" using assms by (simp add: clean_def)
  have send: "clean ((submit env p u)\<lparr>chat_input := []\<rparr>)" if "sendable p" for p
    using clean_submit [OF assms that] by (simp add: clean_def)
  show ?thesis
    unfolding handle_chat_input_def asks Let_def
    by (intro steps) (use assms free in \<open>auto intro!: sends chat tab f2 send clean_open_command
        nul_free_parts nul_free_type\<close>)
qed

lemma clean_dms_input:
  assumes "clean u"
  shows "holds clean (handle_dms_input env k u)"
proof -
  have dm: "clean (u\<lparr>dm_input := s\<rparr>)" if "nul_free s" for s using assms that by (simp add: clean_def)
  have free: "nul_free (dm_input u)" using assms by (simp add: clean_def)
  have sent: "clean ((submit env p u)\<lparr>dm_input := []\<rparr>)"
      "clean ((submit env p u)\<lparr>dm_input := [], ui_friends := fs\<rparr>)" if "sendable p" for p fs
    using clean_submit [OF assms that] by (simp_all add: clean_def)
  have dm_send: "holds clean (send_dm env f u)" for f
    unfolding send_dm_def asks Let_def by (intro steps) (auto intro!: sent sends free)
  have pos: "clean (u\<lparr>active_dm_friend := j, dm_input := []\<rparr>)" for j using assms by (simp add: clean_def)
  have "holds clean (next_dm env u)"
    unfolding next_dm_def by (intro steps) (auto intro!: sends pos)
  with dm_send show ?thesis
    unfolding handle_dms_input_def
    by (intro steps) (use assms free in \<open>auto intro!: dm nul_free_parts nul_free_type intro: clean_cong\<close>)
qed

lemma clean_status_msg: "clean u \<Longrightarrow> clean (status_msg s u)"
  by (simp add: clean_def status_msg_def)

lemma clean_close_command: "clean u \<Longrightarrow> clean (close_command u)"
  by (simp add: clean_def close_command_def clear_command_def)

lemma either: "holds P a \<Longrightarrow> holds P b \<Longrightarrow> holds P (if c then a else b)"
  by simp

lemma clean_run_command:
  assumes "clean u" and "nul_free cmd"
  shows "holds (\<lambda>(_, u'). clean u') (run_command env cmd u)"
proof -
  note typed = nul_free_argument [OF assms(2)] nul_free_parts(2) [OF assms(2)]
  note ok = assms(1) clean_status_msg sends
  have stay: "holds (\<lambda>(_, u'). clean u') (and_then r (\<lambda>u. Inr (False, u)))" if "holds clean r" for r
    using that by (cases r) simp_all
  have "holds clean (kick_command env t u)" for t
    unfolding kick_command_def Let_def asks by (intro steps) (auto intro!: ok)
  moreover have "holds clean (create_channel_command env t u)" if "nul_free t" for t
    unfolding create_channel_command_def Let_def asks by (intro steps) (auto intro!: ok that)
  moreover have "holds clean (delete_server_command env t u)" for t
    unfolding delete_server_command_def Let_def asks by (intro steps) (auto intro!: ok)
  moreover have "holds clean (delete_channel_command env t u)" for t
    unfolding delete_channel_command_def Let_def asks by (intro steps) (auto intro!: ok)
  moreover have "holds (\<lambda>(_, u'). clean u') (leave_command env u)"
    unfolding leave_command_def asks by (intro steps) (auto intro!: ok)
  moreover have "clean (status_command env t u)" if "nul_free t" for t
    unfolding status_command_def asks by (auto intro!: ok that)
  moreover have "clean (u\<lparr>show_help := True, command_status_msg := []\<rparr>)" using assms(1) by (simp add: clean_def)
  ultimately show ?thesis
    unfolding run_command_def Let_def
    by (intro either stay)
      (auto intro!: ok simp: typed friend_command_def create_server_command_def asks)
qed

lemma clean_command_input:
  assumes "clean u"
  shows "holds clean (handle_command_input env k u)"
proof -
  have line: "clean (u\<lparr>cmd_input := b, cmd_input_len := n, command_status_msg := m, show_help := h\<rparr>)"
      "clean (u\<lparr>cmd_input := b, cmd_input_len := n, show_help := h\<rparr>)" "clean (u\<lparr>show_help := h\<rparr>)"
      "clean (u\<lparr>current_screen := c, show_help := h\<rparr>)" for b n m h c
    using assms by (simp_all add: clean_def)
  have close: "clean ((close_command v)\<lparr>command_status_msg := [], show_help := False\<rparr>)" if "clean v" for v
    using clean_close_command [OF that] by (simp add: clean_def)
  have run: "holds clean (and_then (run_command env (cstr (cmd_input u)) u) (\<lambda>(c, v).
      Inr (if c then (close_command v)\<lparr>command_status_msg := [], show_help := False\<rparr> else v)))"
    using clean_run_command [OF assms nul_free_cstr, of env "cmd_input u"] close
    by (cases "run_command env (cstr (cmd_input u)) u") auto
  show ?thesis
    unfolding handle_command_input_def
    by (intro holds_if holds_option holds_Inr) (use assms line run in auto)
qed

text \<open>The packets.\<close>

lemma clean_command_done: "clean u \<Longrightarrow> clean (command_done u)"
  by (simp add: command_done_def clean_def close_command_def clear_command_def)

lemma clean_auth_response:
  assumes "clean u"
  shows "holds clean (ui_handle_auth_response env a u)"
proof -
  have "holds clean (auth_success env u)"
    unfolding auth_success_def asks by (intro steps) (use assms in \<open>auto simp: clean_def submit_eq sendable_requests\<close>)
  moreover have "clean (sign_out st u)" for st
    using assms by (simp add: clean_def sign_out_def)
  moreover have "clean (u\<lparr>form_error := e, form_success := f\<rparr>)" for e f using assms by (simp add: clean_def)
  ultimately show ?thesis unfolding ui_handle_auth_response_def by (intro holds_if) (auto simp: assms)
qed

lemma clean_messages:
  assumes "clean u"
  shows "holds clean (ui_receive_channel_message p c u)" and "holds clean (ui_receive_dm_message p d u)"
  unfolding ui_receive_channel_message_def ui_receive_dm_message_def
  by (intro steps; use assms in \<open>auto simp: clean_def upd_server_def\<close>)+

lemma clean_server_state:
  assumes "clean u"
  shows "holds clean (ui_update_server_state env p v u)"
proof -
  note closed = clean_command_done [OF assms]
  have upd: "clean (upd_server i f u)" for i f using assms by (simp add: clean_def upd_server_def)
  have denied: "clean (permission_denied u)" using assms by (simp add: permission_denied_def clean_status_msg)
  have "holds clean (leave_reply env u)"
    unfolding leave_reply_def asks
    by (intro steps sends) (use assms in \<open>auto simp: clean_def\<close>)
  moreover have "holds clean (delete_reply env w u)" for w
    unfolding delete_reply_def asks Let_def
    by (intro steps sends closed nul_free_Nil clean_cong [OF clean_submit [OF closed sendable_requests(2)]]) simp_all
  moreover have "clean (server_item p v u)"
    using assms by (simp add: server_item_def Let_def clean_def)
  moreover have "holds clean (channel_list_reply env p v u)"
    unfolding channel_list_reply_def asks Let_def by (intro steps) (auto intro!: sends upd assms)
  moreover have "holds clean (member_list_reply p v u)"
    unfolding member_list_reply_def by (intro steps assms upd)
  moreover have "holds clean (kick_reply env v u)"
    unfolding kick_reply_def asks Let_def by (intro steps) (auto intro!: sends closed denied)
  ultimately show ?thesis
    unfolding ui_update_server_state_def Let_def asks
    by (auto split: option.split server_action.split intro!: denied assms sends)
qed

lemma clean_channel_reply:
  assumes "clean u"
  shows "holds clean (channel_reply env b c u)"
  unfolding channel_reply_def asks Let_def permission_denied_def
  by (intro steps)
    (use clean_command_done [OF assms] assms in \<open>auto intro!: sends clean_status_msg intro: clean_cong\<close>)

lemma clean_social:
  assumes "clean u"
  shows "clean (friend_list_packet env p v u)" and "clean (user_list_packet p v u)"
    and "holds clean (status_packet env v u)"
proof -
  have "clean (select_first_friend env u)"
    using assms by (auto simp: select_first_friend_def intro!: sends intro: clean_cong split: option.split)
  then show "clean (friend_list_packet env p v u)"
    using assms by (auto simp: friend_list_packet_def friend_item_def intro: clean_cong)
  show "clean (user_list_packet p v u)"
    using assms by (auto simp: user_list_packet_def user_item_def intro: clean_cong)
  have "clean (u\<lparr>all_users := xs\<rparr>)" for xs using assms by (simp add: clean_def)
  then show "holds clean (status_packet env v u)"
    unfolding status_packet_def asks Let_def
    by (intro steps) (auto intro!: clean_command_done sends clean_status_msg assms)
qed

lemma clean_step:
  assumes "clean u"
  shows "holds clean (ui_step env ev u)"
proof (cases ev)
  case (Key_pressed k)
  then show ?thesis
    using clean_auth_input [OF assms] clean_server_input [OF assms] clean_friends_input [OF assms]
      clean_chat_input [OF assms] clean_command_input [OF assms] clean_dms_input [OF assms]
      clean_users_input [OF assms]
    by (simp add: handle_key_def split: screen.split)
next
  case (Packet_arrived p)
  then show ?thesis
    by (auto simp: process_network_packet_def assms clean_messages clean_channel_reply clean_server_state
        clean_auth_response clean_social
        split: payload.split option.split channel_action.split social_action.split)
next
  case Server_gone
  then show ?thesis using assms by (simp add: clean_def)
next
  case (Redraw rows)
  have "holds clean (draw_chat (local_time env) rows u)" unfolding draw_chat_def by (intro steps assms)
  moreover have "holds clean (draw_dms (local_time env) rows u)"
    unfolding draw_dms_def Let_def by (intro steps) (use assms in \<open>simp_all add: clean_def\<close>)
  ultimately show ?thesis using Redraw assms by (simp add: redraw_def split: screen.split)
qed

lemma reach_clean: "ui_reach fd u \<Longrightarrow> clean u"
proof (induction rule: ui_reach.induct)
  case start
  show ?case by (simp add: clean_def initial_ui_def)
next
  case (step u env ev u')
  then show ?case using clean_step [of u env ev] by (simp add: holds_def)
qed

section \<open>Delivery\<close>

text \<open>
  C9: Whatever the user types and the server sends, every packet the client has sent on its
  connection arrives: however the network cuts and delays the stream, the server's calls of
  \<open>packet_receive_partial\<close> deliver exactly the client's requests, in order, on any pair of
  hosts.
\<close>

theorem client_requests_delivered:
  assumes "ui_reach fd u" and "ps = map snd (filter (\<lambda>(f, _). f = fd) (requests u))"
    and "data_of evs = concat (map (wire e) ps)" and "steady evs" and "length buffer = PACKET_SIZE"
  shows "receive_all e' evs buffer 0 = ps"
proof (rule receive_all_chunks)
  have "\<forall>p \<in> set ps. sendable p"
    using reach_clean [OF assms(1)] assms(2) by (auto simp: clean_def)
  from packets.decode_stream [OF this, of e' e] assms(3)
  show "map (unwire e') (chunks PACKET_SIZE (take 0 buffer @ data_of evs)) = map Some ps" by (simp add: layout)
qed (use assms in \<open>simp_all add: layout\<close>)

theorem client_requests_delivered_witness:
  "\<exists>u p. ui_reach 3 u \<and> requests u = [(3, p)] \<and> p \<noteq> login_ok \<and>
     receive_all Big [Data (take 5 (wire Little p)), Recv_again, Data (drop 5 (wire Little p))]
       (replicate 624 0) 0 = [p]"
proof -
  let ?p = "server_request sample_env SERVER_LIST 0 0 []"
  let ?evs = "[Data (take 5 (wire Little ?p)), Recv_again, Data (drop 5 (wire Little ?p))]"
  obtain u where u: "ui_step sample_env (Packet_arrived login_ok) (initial_ui 3) = Inr u" "requests u = [(3, ?p)]"
    by (simp add: login_ok_def process_network_packet_def zero_packet_def ui_handle_auth_response_def
        zero_auth_def auth_success_def initial_ui_def request_defs submit_eq)
  have reach: "ui_reach 3 u" by (rule ui_reach.step [OF ui_reach.start u(1)])
  have "take 5 (wire Little ?p) \<noteq> []" "drop 5 (wire Little ?p) \<noteq> []"
    by (simp_all add: layout flip: length_0_conv)
  then have "steady ?evs" by simp
  moreover have "data_of ?evs = concat (map (wire Little) [?p])" by simp
  ultimately have "receive_all Big ?evs (replicate 624 0) 0 = [?p]"
    using u(2) by (intro client_requests_delivered [OF reach, of "[?p]" ?evs Little]) (simp_all add: layout)
  moreover have "?p \<noteq> login_ok"
    by (simp add: login_ok_def server_request_def base_request_def create_base_packet_def zero_packet_def)
  ultimately show ?thesis using reach u(2) by blast
qed

end
