(* ===== verification/ClientLoop.thy ===== *)
theory ClientLoop
  imports UiSends
begin

text \<open>
  The programs around the interface: the loop of \<open>start_ui\<close> in \<^verbatim>\<open>client/ui.c\<close>, one pass of which
  waits for the keyboard or the server, reads at most one packet, handles all keys that are
  there and draws; and \<open>main\<close> of \<^verbatim>\<open>client/client_main.c\<close>. A pass is a sequence of the events of
  \<open>UiLoop\<close>, so all passes stay in the reachable states; and what the blocking read does to
  the interface is proved: it delivers whole streams, and it waits with half a packet.
\<close>

section \<open>The blocking receive on a steady connection\<close>

lemma receive_loop_steady:
  assumes "steady evs" and "length bytes \<le> PACKET_SIZE"
  shows "case receive_loop e evs bytes of (r, evs') \<Rightarrow> steady evs' \<and>
    (if length (bytes @ data_of evs) < PACKET_SIZE then r = None
     else data_of evs' = drop PACKET_SIZE (bytes @ data_of evs) \<and>
       r = Some (case unwire e (take PACKET_SIZE (bytes @ data_of evs)) of None \<Rightarrow> Failed EPROTO | Some p \<Rightarrow> Received p))"
  using assms
proof (induction e evs bytes rule: receive_loop.induct)
  case (1 e evs bytes)
  show ?case
  proof (cases "length bytes < PACKET_SIZE")
    case False
    with "1.prems" have "length bytes = PACKET_SIZE" by simp
    with "1.prems" show ?thesis by (simp add: receive_loop.simps [of e evs bytes] split: option.split)
  next
    case True
    show ?thesis
    proof (cases evs)
      case Nil
      with True show ?thesis by (simp add: receive_loop.simps)
    next
      case (Cons ev evs')
      show ?thesis
      proof (cases ev)
        case (Data bs)
        with "1.prems" Cons have bs: "bs \<noteq> []" and st: "steady evs'" by simp_all
        let ?n = "PACKET_SIZE - length bytes"
        have step: "receive_loop e evs bytes = receive_loop e (after_recv ?n bs evs') (bytes @ take ?n bs)"
          using True Cons Data bs by (simp add: receive_loop.simps [of e "Data bs # evs'" bytes])
        have same: "(bytes @ take ?n bs) @ data_of (after_recv ?n bs evs') = bytes @ data_of evs"
          using Cons Data by (simp add: data_of_after_recv)
        have le: "length (bytes @ take ?n bs) \<le> PACKET_SIZE" using True by simp
        show ?thesis
          using "1.IH"(1) [OF True Cons Data bs steady_after_recv [OF st] le] unfolding step same .
      next
        case Recv_intr
        have step: "receive_loop e evs bytes = receive_loop e evs' bytes" and same: "data_of evs = data_of evs'"
          and st: "steady evs'"
          using True Cons Recv_intr "1.prems" by (simp_all add: receive_loop.simps [of e "Recv_intr # evs'" bytes])
        show ?thesis using "1.IH"(2) [OF True Cons Recv_intr st "1.prems"(2)] unfolding step same .
      next
        case Recv_again
        have step: "receive_loop e evs bytes = receive_loop e evs' bytes" and same: "data_of evs = data_of evs'"
          and st: "steady evs'"
          using True Cons Recv_again "1.prems" by (simp_all add: receive_loop.simps [of e "Recv_again # evs'" bytes])
        show ?thesis using "1.IH"(3) [OF True Cons Recv_again st "1.prems"(2)] unfolding step same .
      next
        case (Recv_fails n)
        with "1.prems" Cons show ?thesis by simp
      qed
    qed
  qed
qed

lemma packet_receive_short:
  assumes "steady evs" shows "fst (packet_receive e evs) = None \<longleftrightarrow> length (data_of evs) < PACKET_SIZE"
  using receive_loop_steady [OF assms, of "[]" e] by (auto simp: packet_receive_def split: prod.splits if_splits)

lemma packet_receive_first:
  assumes "steady evs" and "data_of evs = wire e p @ rest" and "sendable p"
  shows "\<exists>evs'. packet_receive e' evs = (Some (Received p), evs') \<and> steady evs' \<and> data_of evs' = rest"
  using receive_loop_steady [OF assms(1), of "[]" e'] assms(2) unwire_wire_other [OF assms(3), of e' e]
    length_wire [of e p]
  by (auto simp: packet_receive_def split: prod.splits)

section \<open>A pass of the loop\<close>

text \<open>
  What a pass meets: how \<open>select\<close> ends, with the two descriptors readable or not; what the
  kernel has got for the socket since the last pass; the keys \<open>getch\<close> delivers before \<open>ERR\<close>;
  the height of the terminal.
\<close>

datatype wait = Interrupted | Readable (network: bool) (keyboard: bool)

record ui_round =
  cr_env :: env
  cr_wait :: wait
  cr_arrived :: "recv_event list"
  cr_keys :: "key list"
  cr_rows :: int

fun handle_keys :: "env \<Rightarrow> key list \<Rightarrow> ui \<Rightarrow> ui result" where
  "handle_keys env [] u = Inr u"
| "handle_keys env (k # ks) u = and_then (handle_key env k u) (handle_keys env ks)"

text \<open>
  The part of the pass for the socket: \<open>None\<close> while \<open>packet_receive\<close> waits; otherwise the
  outcome with \<open>needs_redraw\<close>, and what is left to read. The variable \<open>recv_status\<close> the code
  tests is declared nowhere; it is taken to be \<open>bytes_read\<close>, the result of the call before.
\<close>

definition serve_socket :: "env \<Rightarrow> endian \<Rightarrow> bool \<Rightarrow> ui \<Rightarrow> recv_event list \<Rightarrow>
    ((bool \<times> ui) result \<times> recv_event list) option" where
  "serve_socket env e ready u evs =
     (if client_socket u = -1 \<or> \<not> ready then Some (Inr (False, u), evs)
      else case packet_receive e evs of
        (None, _) \<Rightarrow> None
      | (Some (Received p), evs') \<Rightarrow>
          Some (and_then (process_network_packet env p u) (\<lambda>u'. Inr (True, u')), evs')
      | (Some _, evs') \<Rightarrow> Some (Inr (False, u\<lparr>client_socket := -1\<rparr>), evs'))"

definition client_round :: "endian \<Rightarrow> ui_round \<Rightarrow> ui \<times> recv_event list \<Rightarrow> (ui result \<times> recv_event list) option" where
  "client_round e r st =
     (case st of (u, evs) \<Rightarrow> let evs1 = evs @ cr_arrived r in
      case cr_wait r of
        Interrupted \<Rightarrow> Some (Inr u, evs1)
      | Readable net keyb \<Rightarrow>
          let keys = (if keyb then cr_keys r else []) in
          (case serve_socket (cr_env r) e net u evs1 of
             None \<Rightarrow> None
           | Some (res, evs2) \<Rightarrow> Some
               (and_then res (\<lambda>(redraw1, u1). and_then (handle_keys (cr_env r) keys u1) (\<lambda>u2.
                  if redraw1 \<or> keys \<noteq> [] then redraw (local_time (cr_env r)) (cr_rows r) u2 else Inr u2)), evs2)))"

text \<open>The loop from a state on: it ends with the passes or with the first that does not end.\<close>

fun client_rounds :: "endian \<Rightarrow> ui_round list \<Rightarrow> ui \<times> recv_event list \<Rightarrow> (ui result \<times> recv_event list) option" where
  "client_rounds e [] st = Some (Inr (fst st), snd st)"
| "client_rounds e (r # rs) st =
     (case client_round e r st of
        None \<Rightarrow> None
      | Some (Inl x, evs) \<Rightarrow> Some (Inl x, evs)
      | Some (Inr u, evs) \<Rightarrow> client_rounds e rs (u, evs))"

section \<open>A pass is a sequence of events\<close>

lemma and_then_done [simp]: "and_then r (ui_run []) = r"
  by (cases r) simp_all

lemma handle_keys_run: "handle_keys env ks u = ui_run (map (Pair env \<circ> Key_pressed) ks) u"
proof (induction ks arbitrary: u)
  case Nil
  then show ?case by simp
next
  case (Cons k ks)
  then show ?case by (cases "handle_key env k u") simp_all
qed

text \<open>The events of a pass, when its \<open>packet_receive\<close> ends with the given result.\<close>

definition socket_events :: "endian \<Rightarrow> bool \<Rightarrow> ui \<Rightarrow> recv_event list \<Rightarrow> ui_event list" where
  "socket_events e ready u evs =
     (if client_socket u = -1 \<or> \<not> ready then []
      else case fst (packet_receive e evs) of
        Some (Received p) \<Rightarrow> [Packet_arrived p] | Some _ \<Rightarrow> [Server_gone] | None \<Rightarrow> [])"

definition round_events :: "endian \<Rightarrow> ui_round \<Rightarrow> ui \<times> recv_event list \<Rightarrow> (env \<times> ui_event) list" where
  "round_events e r st = map (Pair (cr_env r))
     (case cr_wait r of
        Interrupted \<Rightarrow> []
      | Readable net keyb \<Rightarrow>
          let evs = socket_events e net (fst st) (snd st @ cr_arrived r);
              keys = (if keyb then cr_keys r else [])
          in evs @ map Key_pressed keys @
             (if (\<exists>p. Packet_arrived p \<in> set evs) \<or> keys \<noteq> [] then [Redraw (cr_rows r)] else []))"

lemma serve_socket_events:
  assumes "serve_socket env e ready u evs = Some (res, evs')"
  shows "res = and_then (ui_run (map (Pair env) (socket_events e ready u evs)) u)
     (\<lambda>u'. Inr (\<exists>p. Packet_arrived p \<in> set (socket_events e ready u evs), u'))"
  using assms
  by (auto simp: serve_socket_def socket_events_def split: if_splits prod.splits option.splits receive_result.splits)

lemma round_is_run:
  assumes "client_round e r st = Some (res, evs')"
  shows "res = ui_run (round_events e r st) (fst st)"
proof (cases "cr_wait r")
  case Interrupted
  with assms show ?thesis by (auto simp: client_round_def round_events_def split: prod.splits)
next
  case (Readable net keyb)
  obtain u evs where st: "st = (u, evs)" by (cases st)
  define keys where "keys = (if keyb then cr_keys r else [])"
  from assms Readable st obtain res1 where
    run: "serve_socket (cr_env r) e net u (evs @ cr_arrived r) = Some (res1, evs')"
    and res: "res = and_then res1 (\<lambda>(redraw1, u1). and_then (handle_keys (cr_env r) keys u1)
       (\<lambda>u2. if redraw1 \<or> keys \<noteq> [] then redraw (local_time (cr_env r)) (cr_rows r) u2 else Inr u2))"
    by (auto simp: client_round_def Let_def keys_def split: option.splits)
  let ?evs = "socket_events e net u (evs @ cr_arrived r)"
  have events: "round_events e r st = map (Pair (cr_env r)) (?evs @ map Key_pressed keys @
      (if (\<exists>p. Packet_arrived p \<in> set ?evs) \<or> keys \<noteq> [] then [Redraw (cr_rows r)] else []))"
    using Readable st by (simp add: round_events_def Let_def keys_def)
  show ?thesis
    unfolding res serve_socket_events [OF run] events
    by (cases "ui_run (map (Pair (cr_env r)) ?evs) u") (auto simp: ui_run_append handle_keys_run st
        split: sum.split intro!: arg_cong [of _ _ "and_then _"])
qed

text \<open>So the loop stays in the reachable states, and what stops it is a step from one.\<close>

lemma rounds_reach:
  "ui_reach fd u \<Longrightarrow> client_rounds e rs (u, evs) = Some (Inr u', evs') \<Longrightarrow> ui_reach fd u'"
proof (induction rs arbitrary: u evs)
  case Nil
  then show ?case by simp
next
  case (Cons r rs)
  from Cons.prems(2) obtain u1 evs1 where run: "client_round e r (u, evs) = Some (Inr u1, evs1)"
      "client_rounds e rs (u1, evs1) = Some (Inr u', evs')"
    by (auto split: option.splits sum.splits)
  have "ui_reach fd u1" using ui_run_reach [OF Cons.prems(1)] round_is_run [OF run(1)] by (metis fst_conv)
  from Cons.IH [OF this run(2)] show ?case .
qed

section \<open>The connection stays\<close>

text \<open>Only the end of the stream takes the socket away.\<close>

abbreviation same_socket :: "int \<Rightarrow> ui \<Rightarrow> bool" where
  "same_socket fd u \<equiv> client_socket u = fd"

lemma socket_submit [simp]:
  "client_socket (submit env p u) = client_socket u" "client_socket (snd (send_register env a b u)) = client_socket u"
  "client_socket (snd (send_login env a b u)) = client_socket u" "client_socket (send_logout env u) = client_socket u"
  "client_socket (request_dm_history env i u) = client_socket u"
  by (simp_all add: request_dm_history_def submit_eq send_register_eq send_login_eq send_logout_eq)

lemma socket_frames [simp]:
  "client_socket (put_field s u) = client_socket u" "client_socket (submit_form env b u) = client_socket u"
  "client_socket (open_command u) = client_socket u" "client_socket (status_msg s u) = client_socket u"
  "client_socket (close_command u) = client_socket u" "client_socket (command_done u) = client_socket u"
  "client_socket (sign_out st u) = client_socket u" "client_socket (upd_server i f u) = client_socket u"
  "client_socket (permission_denied u) = client_socket u" "client_socket (server_item p v u) = client_socket u"
  "client_socket (friend_item w u) = client_socket u" "client_socket (user_item w u) = client_socket u"
  by (auto simp: put_field_def submit_form_def open_command_def status_msg_def close_command_def clear_command_def
      command_done_def sign_out_def upd_server_def permission_denied_def server_item_def Let_def friend_item_def
      user_item_def)

lemma socket_keys:
  "same_socket (client_socket u) (handle_auth_input env k b u)"
  "holds (same_socket (client_socket u)) (handle_server_input env k u)"
  "same_socket (client_socket u) (handle_friends_input env k u)"
  "same_socket (client_socket u) (handle_users_input env k u)"
  "holds (same_socket (client_socket u)) (handle_chat_input env k u)"
  "holds (same_socket (client_socket u)) (handle_dms_input env k u)"
  unfolding handle_auth_input_def handle_server_input_def enter_server_def handle_friends_input_def
    handle_users_input_def handle_chat_input_def handle_dms_input_def next_dm_def send_dm_def asks Let_def
  by (auto split: option.split intro!: steps)

lemma socket_command:
  "holds (same_socket (client_socket u)) (handle_command_input env k u)"
proof -
  let ?P = "same_socket (client_socket u)"
  have stay: "holds (\<lambda>(_, u'). ?P u') (and_then r (\<lambda>u. Inr (False, u)))" if "holds ?P r" for r
    using that by (cases r) simp_all
  have "holds ?P (kick_command env t u)" "holds ?P (create_channel_command env t u)"
    "holds ?P (delete_server_command env t u)" "holds ?P (delete_channel_command env t u)" for t
    unfolding kick_command_def create_channel_command_def delete_server_command_def delete_channel_command_def Let_def asks
    by (intro steps; auto)+
  moreover have "holds (\<lambda>(_, u'). ?P u') (leave_command env u)"
    unfolding leave_command_def asks by (intro steps) auto
  moreover have "?P (status_command env t u)" for t unfolding status_command_def asks by simp
  ultimately have run: "holds (\<lambda>(_, u'). ?P u') (run_command env cmd u)" for cmd
    unfolding run_command_def Let_def
    by (intro either stay) (auto simp: friend_command_def create_server_command_def asks)
  show ?thesis
    using run [of "cstr (cmd_input u)"] unfolding handle_command_input_def
    by (cases "run_command env (cstr (cmd_input u)) u") (auto split: option.split prod.splits)
qed

lemma socket_packets:
  "holds (same_socket (client_socket u)) (ui_handle_auth_response env a u)"
  "holds (same_socket (client_socket u)) (ui_receive_channel_message p c u)"
  "holds (same_socket (client_socket u)) (ui_receive_dm_message p d u)"
  "holds (same_socket (client_socket u)) (ui_update_server_state env p v u)"
  "holds (same_socket (client_socket u)) (channel_reply env b c u)"
  "same_socket (client_socket u) (friend_list_packet env p w u)"
  "same_socket (client_socket u) (user_list_packet p w u)"
  "holds (same_socket (client_socket u)) (status_packet env w u)"
  unfolding ui_handle_auth_response_def auth_success_def ui_receive_channel_message_def ui_receive_dm_message_def
    ui_update_server_state_def leave_reply_def delete_reply_def channel_list_reply_def member_list_reply_def
    kick_reply_def channel_reply_def friend_list_packet_def select_first_friend_def user_list_packet_def
    status_packet_def asks Let_def
  by (auto split: option.split server_action.split intro!: steps)

lemma step_keeps_socket:
  assumes "ui_step env ev u = Inr u'" and "ev \<noteq> Server_gone"
  shows "client_socket u' = client_socket u"
proof -
  have "holds (same_socket (client_socket u)) (ui_step env ev u)"
  proof (cases ev)
    case (Key_pressed k)
    then show ?thesis
      using socket_keys [where u = u] socket_command [where u = u]
      by (simp add: handle_key_def split: screen.split)
  next
    case (Packet_arrived p)
    then show ?thesis
      using socket_packets [where u = u]
      by (auto simp: process_network_packet_def split: payload.split option.split channel_action.split social_action.split)
  next
    case (Redraw rows)
    have "holds (same_socket (client_socket u)) (draw_chat (local_time env) rows u)" unfolding draw_chat_def by (intro steps) simp
    moreover have "holds (same_socket (client_socket u)) (draw_dms (local_time env) rows u)"
      unfolding draw_dms_def Let_def by (intro steps) simp_all
    ultimately show ?thesis using Redraw by (simp add: redraw_def split: screen.split)
  qed (use assms(2) in simp)
  with assms(1) show ?thesis by simp
qed

lemma run_keeps_socket:
  "ui_run evs u = Inr u' \<Longrightarrow> \<forall>env. (env, Server_gone) \<notin> set evs \<Longrightarrow> client_socket u' = client_socket u"
proof (induction evs arbitrary: u)
  case Nil
  then show ?case by simp
next
  case (Cons x evs)
  obtain env ev where x: "x = (env, ev)" by (cases x)
  with Cons.prems obtain u1 where u1: "ui_step env ev u = Inr u1" "ui_run evs u1 = Inr u'"
    by (auto simp: and_then_Inr)
  have "ev \<noteq> Server_gone" using Cons.prems(2) x by auto
  with Cons.IH [OF u1(2)] step_keeps_socket [OF u1(1)] Cons.prems(2) show ?case by auto
qed

section \<open>What the loop does with a stream\<close>

text \<open>The events of a pass that finds the packet \<open>p\<close> for it, and perhaps keys.\<close>

definition packet_pass :: "ui_round \<Rightarrow> packet \<Rightarrow> (env \<times> ui_event) list" where
  "packet_pass r p = map (Pair (cr_env r)) (Packet_arrived p #
     map Key_pressed (case cr_wait r of Readable _ True \<Rightarrow> cr_keys r | _ \<Rightarrow> []) @ [Redraw (cr_rows r)])"

definition network_ready :: "ui_round \<Rightarrow> bool" where
  "network_ready r \<longleftrightarrow> (\<exists>keyb. cr_wait r = Readable True keyb)"

lemma pass_with_packet:
  assumes "client_socket u \<noteq> -1" and "network_ready r" and "cr_arrived r = []"
    and "steady evs" and "data_of evs = wire e p @ rest" and "sendable p"
  shows "\<exists>evs'. client_round e' r (u, evs) = Some (ui_run (packet_pass r p) u, evs') \<and> steady evs' \<and> data_of evs' = rest"
proof -
  obtain keyb where wait: "cr_wait r = Readable True keyb" using assms(2) by (auto simp: network_ready_def)
  obtain evs' where read: "packet_receive e' evs = (Some (Received p), evs')" "steady evs'" "data_of evs' = rest"
    using packet_receive_first [OF assms(4-6)] by blast
  have events: "round_events e' r (u, evs) = packet_pass r p"
    using wait read(1) assms(1,3) by (auto simp: round_events_def packet_pass_def socket_events_def Let_def split: bool.split)
  obtain res where run: "client_round e' r (u, evs) = Some (res, evs')"
    using wait read(1) assms(1,3) by (simp add: client_round_def serve_socket_def Let_def)
  with round_is_run [OF run] events read show ?thesis by auto
qed

text \<open>
  C10: However the server's packets are cut and interrupted on their way, the passes of the
  loop that find the socket readable hand exactly these packets, in order and one per pass,
  to \<open>process_network_packet\<close>, each before the keys of its pass, and draw after it; also when
  the hosts differ in byte order.
\<close>

theorem passes_handle_all_sent:
  assumes "client_socket u \<noteq> -1" and "steady evs" and "data_of evs = concat (map (wire e) ps)"
    and "\<forall>p \<in> set ps. sendable p" and "length rs = length ps"
    and "\<forall>r \<in> set rs. network_ready r \<and> cr_arrived r = []"
  shows "\<exists>evs'. client_rounds e' rs (u, evs) = Some (ui_run (concat (map2 packet_pass rs ps)) u, evs')"
  using assms
proof (induction ps arbitrary: rs u evs)
  case Nil
  then show ?case by simp
next
  case (Cons p ps)
  obtain r rs' where rs: "rs = r # rs'" using Cons.prems(5) by (cases rs) auto
  obtain evs1 where run: "client_round e' r (u, evs) = Some (ui_run (packet_pass r p) u, evs1)"
    and st: "steady evs1" "data_of evs1 = concat (map (wire e) ps)"
    using pass_with_packet [OF Cons.prems(1) _ _ Cons.prems(2), of r e p "concat (map (wire e) ps)" e']
      Cons.prems(3,4,6) rs by auto
  show ?case
  proof (cases "ui_run (packet_pass r p) u")
    case (Inl x)
    with run rs show ?thesis by (auto simp: ui_run_append)
  next
    case (Inr u1)
    have "client_socket u1 = client_socket u"
      by (rule run_keeps_socket [OF Inr]) (auto simp: packet_pass_def)
    with Cons.IH [of u1 evs1 rs'] Cons.prems st rs run Inr show ?thesis by (simp add: ui_run_append)
  qed
qed

text \<open>An instance: the reply to a login comes in two pieces, and a key is pressed meanwhile.\<close>

lemma passes_handle_all_sent_witness:
  "\<exists>evs' u. client_rounds Big [\<lparr>cr_env = sample_env, cr_wait = Readable True True, cr_arrived = [],
       cr_keys = [Key_f 1], cr_rows = 24\<rparr>]
     (initial_ui 3, [Data (take 5 (wire Little login_ok)), Recv_intr, Data (drop 5 (wire Little login_ok))]) = Some (Inr u, evs') \<and>
     current_user u = 0 \<and> current_screen u = SCREEN_COMMAND"
proof -
  let ?r = "\<lparr>cr_env = sample_env, cr_wait = Readable True True, cr_arrived = [], cr_keys = [Key_f 1], cr_rows = 24\<rparr>"
  have ne: "take 5 (wire Little login_ok) \<noteq> []" "drop 5 (wire Little login_ok) \<noteq> []"
    using length_wire [of Little login_ok] by (auto simp: layout simp del: length_wire)
  have ok: "sendable login_ok"
    by (simp add: login_ok_def sendable_def packet_fits_def zero_defs fits_def packet_type_def enum_of_def zero_packet_def)
  have run: "\<exists>u. ui_run (packet_pass ?r login_ok) (initial_ui 3) = Inr u \<and> current_user u = 0 \<and> current_screen u = SCREEN_COMMAND"
    by (simp add: packet_pass_def login_ok_def process_network_packet_def zero_packet_def zero_auth_def
        ui_handle_auth_response_def auth_success_def initial_ui_def set_at_def handle_key_def redraw_def
        handle_server_input_def open_command_def key_defs request_defs submit_eq)
  have fd: "client_socket (initial_ui 3) \<noteq> -1" by (simp add: initial_ui_def)
  have ready: "network_ready ?r" by (auto simp: network_ready_def)
  let ?evs = "[Data (take 5 (wire Little login_ok)), Recv_intr, Data (drop 5 (wire Little login_ok))]"
  have "\<exists>evs'. client_rounds Big [?r] (initial_ui 3, ?evs) =
      Some (ui_run (concat (map2 packet_pass [?r] [login_ok])) (initial_ui 3), evs')"
    by (rule passes_handle_all_sent [where e = Little, OF fd]) (use ne ok ready in auto)
  with run show ?thesis by (auto simp del: client_rounds.simps ui_run.simps)
qed

text \<open>
  C12: A pass does not end exactly when the socket is readable while less than a whole packet
  has come: then the client waits inside \<open>packet_receive\<close> and takes no key, however many are
  there, until the rest of the packet arrives.
\<close>

theorem partial_packet_blocks:
  assumes "steady (evs @ cr_arrived r)"
  shows "client_round e r (u, evs) = None \<longleftrightarrow>
    client_socket u \<noteq> -1 \<and> network_ready r \<and> length (data_of (evs @ cr_arrived r)) < PACKET_SIZE"
proof (cases "cr_wait r")
  case Interrupted
  then show ?thesis by (simp add: client_round_def network_ready_def)
next
  case (Readable net keyb)
  have "serve_socket env e net u (evs @ cr_arrived r) = None \<longleftrightarrow>
      client_socket u \<noteq> -1 \<and> net \<and> length (data_of (evs @ cr_arrived r)) < PACKET_SIZE" for env
    using packet_receive_short [OF assms, of e]
    by (auto simp: serve_socket_def split: prod.splits option.splits receive_result.splits)
  moreover have "client_round e r (u, evs) = None \<longleftrightarrow> serve_socket (cr_env r) e net u (evs @ cr_arrived r) = None"
    unfolding client_round_def by (auto simp: Readable Let_def split: option.splits)
  moreover have "network_ready r \<longleftrightarrow> net" by (auto simp: network_ready_def Readable)
  ultimately show ?thesis by simp
qed

text \<open>An instance: the first half of a packet, and a key that is pressed meanwhile.\<close>

lemma partial_packet_blocks_witness:
  "client_round Little \<lparr>cr_env = sample_env, cr_wait = Readable True True, cr_arrived = [Data [0, 0, 0, 1]],
     cr_keys = [Key_f 2], cr_rows = 24\<rparr> (initial_ui 3, []) = None"
  by (subst partial_packet_blocks) (auto simp: network_ready_def initial_ui_def layout)

end
