(* ===== verification/Friends.thy ===== *)
theory Friends
  imports Database
begin

text \<open>
  The friendship statements of \<^verbatim>\<open>server/db.c\<close> and what they promise together: between two
  users there is nothing, a request of one of them, or a friendship, and the four
  operations move between these states. A row of \<open>friends\<close> is directed: the user asks the
  friend. The functions read before they write, without a transaction, and ignore the
  outcome of some of their writes, so the contract holds when the statements work.
\<close>

section \<open>The operations\<close>

abbreviation between :: "i64 \<Rightarrow> i64 \<Rightarrow> friend_row \<Rightarrow> bool" where
  "between a b r \<equiv> f_user r = a \<and> f_friend r = b"

definition accept_rows :: "i64 \<Rightarrow> i64 \<Rightarrow> friend_row list \<Rightarrow> friend_row list" where
  "accept_rows a b rows = map (\<lambda>r. if between a b r then r\<lparr>f_accepted := True\<rparr> else r) rows"

definition drop_rows :: "(friend_row \<Rightarrow> bool) \<Rightarrow> friend_row list \<Rightarrow> friend_row list" where
  "drop_rows P rows = filter (\<lambda>r. \<not> P r) rows"

definition db_accept_friend_request :: "env \<Rightarrow> db \<Rightarrow> i64 \<Rightarrow> i64 \<Rightarrow> int \<times> db" where
  "db_accept_friend_request env db my_user_id friend_id =
     (let is_accepted =
        (case first_row env SELECT_ACCEPTED (filter (between friend_id my_user_id) (friends db)) of
           None \<Rightarrow> -1 | Some r \<Rightarrow> (of_bool (f_accepted r) :: int)) in
      if is_accepted = -1 then (-1, db)
      else if is_accepted = 1 then (-2, db)
      else
        let db1 = (if write_ok env UPDATE_ACCEPTED
                   then db\<lparr>friends := accept_rows friend_id my_user_id (friends db)\<rparr> else db);
            db2 = (if write_ok env DELETE_RECIPROCAL
                   then db1\<lparr>friends := drop_rows (\<lambda>r. between my_user_id friend_id r \<and> \<not> f_accepted r)
                          (friends db1)\<rparr> else db1)
        in (0, db2))"

text \<open>One pass over the rows of the two directions: the status of each, -1 when it has none.\<close>

fun read_statuses :: "i64 \<Rightarrow> i64 \<Rightarrow> friend_row list \<Rightarrow> int \<times> int \<Rightarrow> int \<times> int" where
  "read_statuses user friend [] st = st"
| "read_statuses user friend (r # rows) (same, reciprocal) =
     read_statuses user friend rows
       (if f_user r = user \<and> f_friend r = friend then (of_bool (f_accepted r), reciprocal)
        else if f_user r = friend \<and> f_friend r = user then (same, of_bool (f_accepted r))
        else (same, reciprocal))"

definition db_send_friend_request :: "env \<Rightarrow> db \<Rightarrow> i64 \<Rightarrow> i64 \<Rightarrow> int \<times> db" where
  "db_send_friend_request env db user_id friend_id =
     (let existing = (if prepare_ok env SELECT_FRIENDS then
            fst (step_rows env SELECT_FRIENDS
              (filter (\<lambda>r. between user_id friend_id r \<or> between friend_id user_id r) (friends db)))
          else []);
          (same, reciprocal) = read_statuses user_id friend_id existing (-1, -1) in
      if same = 1 \<or> reciprocal = 1 then (-2, db)
      else if reciprocal = 0 then
        (case db_accept_friend_request env db user_id friend_id of
           (rc, db') \<Rightarrow> (if rc = 0 then 1 else -1, db'))
      else
        (case insert_id env INSERT_FRIEND
                ((user_id, friend_id) \<notin> set (map (\<lambda>r. (f_user r, f_friend r)) (friends db)) \<and>
                 user_id \<in> set (map u_id (users db)) \<and> friend_id \<in> set (map u_id (users db)))
                (map f_id (friends db)) of
           None \<Rightarrow> (-1, db)
         | Some i \<Rightarrow> (0, db\<lparr>friends := friends db @ [\<lparr>f_id = i, f_user = user_id,
             f_friend = friend_id, f_accepted = False\<rparr>]\<rparr>)))"

definition db_remove_friendship :: "env \<Rightarrow> db \<Rightarrow> i64 \<Rightarrow> i64 \<Rightarrow> int \<times> db" where
  "db_remove_friendship env db user_id friend_id =
     (if first_row env SELECT_FRIENDSHIP
           (filter (\<lambda>r. f_accepted r \<and> (between user_id friend_id r \<or> between friend_id user_id r))
             (friends db)) = None
      then (-1, db)
      else (0, if write_ok env DELETE_FRIENDSHIP
               then db\<lparr>friends := drop_rows
                      (\<lambda>r. between user_id friend_id r \<or> between friend_id user_id r) (friends db)\<rparr>
               else db))"

definition db_reject_friend_request :: "env \<Rightarrow> db \<Rightarrow> i64 \<Rightarrow> i64 \<Rightarrow> int \<times> db" where
  "db_reject_friend_request env db my_user_id sender =
     (if first_row env SELECT_PENDING
           (filter (\<lambda>r. between sender my_user_id r \<and> \<not> f_accepted r) (friends db)) = None
      then (-1, db)
      else (0, if write_ok env DELETE_PENDING
               then db\<lparr>friends := drop_rows (\<lambda>r. between sender my_user_id r \<and> \<not> f_accepted r)
                      (friends db)\<rparr>
               else db))"

text \<open>
  The friend list of a user: the other user's id and name, and 2 for a friend, 1 for an
  incoming and 0 for an outgoing request.
\<close>

definition db_list_friend_requests :: "env \<Rightarrow> db \<Rightarrow> i64 \<Rightarrow> int \<times> (i64 \<times> string \<times> i32) list" where
  "db_list_friend_requests env db user_id =
     (if \<not> prepare_ok env SELECT_REQUESTS then (-1, [])
      else case step_rows env SELECT_REQUESTS
        ([(u_id u, u_name u, if f_accepted f then 2 else 1).
            f \<leftarrow> friends db, u \<leftarrow> users db, f_user f = u_id u, f_friend f = user_id] @
         [(u_id u, u_name u, if f_accepted f then 2 else 0).
            f \<leftarrow> friends db, u \<leftarrow> users db, f_friend f = u_id u, f_user f = user_id]) of
        (rows, ok) \<Rightarrow> (if ok then 0 else -1, rows))"

section \<open>The contract: what two users are to each other\<close>

text \<open>
  Between \<open>a\<close> and \<open>b\<close>: nothing, a request, a friendship, the last two with the side that
  asked.
\<close>

datatype side = First | Second

datatype relation = Strangers | Asked side | Befriended side

fun other_side :: "side \<Rightarrow> side" where
  "other_side First = Second"
| "other_side Second = First"

fun mirror :: "relation \<Rightarrow> relation" where
  "mirror Strangers = Strangers"
| "mirror (Asked s) = Asked (other_side s)"
| "mirror (Befriended s) = Befriended (other_side s)"

lemma mirror_Befriended: "mirror r = Befriended s \<longleftrightarrow> r = Befriended (other_side s)"
  by (cases r; cases s) (auto elim: other_side.elims)

text \<open>The four operations of the first user on the relation, with the C result.\<close>

fun ask :: "relation \<Rightarrow> int \<times> relation" where
  "ask Strangers = (0, Asked First)"
| "ask (Asked First) = (-1, Asked First)"
| "ask (Asked Second) = (1, Befriended Second)"
| "ask (Befriended s) = (-2, Befriended s)"

fun accept :: "relation \<Rightarrow> int \<times> relation" where
  "accept (Asked Second) = (0, Befriended Second)"
| "accept (Befriended Second) = (-2, Befriended Second)"
| "accept r = (-1, r)"

fun reject :: "relation \<Rightarrow> int \<times> relation" where
  "reject (Asked Second) = (0, Strangers)"
| "reject r = (-1, r)"

fun unfriend :: "relation \<Rightarrow> int \<times> relation" where
  "unfriend (Befriended s) = (0, Strangers)"
| "unfriend r = (-1, r)"

text \<open>
  An implementation of the contract: operations on a state that moves the relation of the
  two users as above, moves no other pair's, and keeps an invariant. A first request needs
  room for a new row.
\<close>

locale friendship =
  fixes inv :: "'db \<Rightarrow> bool" and room :: "'db \<Rightarrow> 'k \<Rightarrow> 'k \<Rightarrow> bool"
    and rel :: "'db \<Rightarrow> 'k \<Rightarrow> 'k \<Rightarrow> relation"
    and send_request :: "'db \<Rightarrow> 'k \<Rightarrow> 'k \<Rightarrow> int \<times> 'db"
    and accept_request :: "'db \<Rightarrow> 'k \<Rightarrow> 'k \<Rightarrow> int \<times> 'db"
    and reject_request :: "'db \<Rightarrow> 'k \<Rightarrow> 'k \<Rightarrow> int \<times> 'db"
    and remove_friend :: "'db \<Rightarrow> 'k \<Rightarrow> 'k \<Rightarrow> int \<times> 'db"
  assumes rel_mirror: "inv db \<Longrightarrow> a \<noteq> b \<Longrightarrow> rel db b a = mirror (rel db a b)"
    and send_law: "inv db \<Longrightarrow> a \<noteq> b \<Longrightarrow> rel db a b = Strangers \<Longrightarrow> room db a b \<Longrightarrow>
      send_request db a b = (rc, db') \<Longrightarrow>
      inv db' \<and> (rc, rel db' a b) = (0, Asked First) \<and>
      (\<forall>c d. {c, d} \<noteq> {a, b} \<longrightarrow> rel db' c d = rel db c d)"
    and send_again_law: "inv db \<Longrightarrow> a \<noteq> b \<Longrightarrow> rel db a b \<noteq> Strangers \<Longrightarrow>
      send_request db a b = (rc, db') \<Longrightarrow>
      inv db' \<and> (rc, rel db' a b) = ask (rel db a b) \<and>
      (\<forall>c d. {c, d} \<noteq> {a, b} \<longrightarrow> rel db' c d = rel db c d)"
    and accept_law: "inv db \<Longrightarrow> a \<noteq> b \<Longrightarrow> accept_request db a b = (rc, db') \<Longrightarrow>
      inv db' \<and> (rc, rel db' a b) = accept (rel db a b) \<and>
      (\<forall>c d. {c, d} \<noteq> {a, b} \<longrightarrow> rel db' c d = rel db c d)"
    and reject_law: "inv db \<Longrightarrow> a \<noteq> b \<Longrightarrow> reject_request db a b = (rc, db') \<Longrightarrow>
      inv db' \<and> (rc, rel db' a b) = reject (rel db a b) \<and>
      (\<forall>c d. {c, d} \<noteq> {a, b} \<longrightarrow> rel db' c d = rel db c d)"
    and remove_law: "inv db \<Longrightarrow> a \<noteq> b \<Longrightarrow> remove_friend db a b = (rc, db') \<Longrightarrow>
      inv db' \<and> (rc, rel db' a b) = unfriend (rel db a b) \<and>
      (\<forall>c d. {c, d} \<noteq> {a, b} \<longrightarrow> rel db' c d = rel db c d)"
begin

lemma strangers_sym: "inv db \<Longrightarrow> a \<noteq> b \<Longrightarrow> rel db b a = Strangers \<longleftrightarrow> rel db a b = Strangers"
  using rel_mirror [of db a b] by (cases "rel db a b") simp_all

lemma send_rel:
  assumes "inv db" and "a \<noteq> b" and room: "room db a b \<or> rel db a b \<noteq> Strangers"
    and "send_request db a b = (rc, db')"
  shows "inv db' \<and> (rc, rel db' a b) = ask (rel db a b) \<and>
    (\<forall>c d. {c, d} \<noteq> {a, b} \<longrightarrow> rel db' c d = rel db c d)"
proof (cases "rel db a b = Strangers")
  case True
  with room have "room db a b" by simp
  from send_law [OF assms(1,2) True this assms(4)] True show ?thesis by simp
next
  case False
  from send_again_law [OF assms(1,2) False assms(4)] show ?thesis .
qed

text \<open>Nobody becomes a friend without having asked, or having been asked and agreed.\<close>

lemma ask_accept:
  assumes "inv db" and "a \<noteq> b" and "rel db a b = Strangers" and "room db a b"
    and "send_request db a b = (rc1, db1)" and "accept_request db1 b a = (rc2, db2)"
  shows "rc1 = 0 \<and> rc2 = 0 \<and> rel db2 a b = Befriended First"
proof -
  from send_law [OF assms(1-5)] have s: "inv db1" "rc1 = 0" "rel db1 a b = Asked First" by auto
  then have "rel db1 b a = Asked Second" using rel_mirror [of db1 a b] assms(2) by simp
  with accept_law [OF s(1) assms(2) [symmetric] assms(6)]
  have t: "inv db2" "rc2 = 0" "rel db2 b a = Befriended Second" by auto
  then have "rel db2 a b = Befriended First" using rel_mirror [of db2 b a] assms(2) by simp
  with s t show ?thesis by simp
qed

lemma crossing_requests:
  assumes "inv db" and "a \<noteq> b" and "rel db a b = Strangers" and "room db a b"
    and "send_request db a b = (rc1, db1)" and "send_request db1 b a = (rc2, db2)"
  shows "rc1 = 0 \<and> rc2 = 1 \<and> rel db2 a b = Befriended First"
proof -
  from send_law [OF assms(1-5)] have s: "inv db1" "rc1 = 0" "rel db1 a b = Asked First" by auto
  then have b: "rel db1 b a = Asked Second" using rel_mirror [of db1 a b] assms(2) by simp
  with send_again_law [OF s(1) assms(2) [symmetric] _ assms(6)]
  have t: "inv db2" "rc2 = 1" "rel db2 b a = Befriended Second" by auto
  then have "rel db2 a b = Befriended First" using rel_mirror [of db2 b a] assms(2) by simp
  with s t show ?thesis by simp
qed

lemma remove_symmetric:
  assumes "inv db" and "a \<noteq> b" and "rel db a b = Befriended s" and "remove_friend db b a = (rc, db')"
  shows "rc = 0 \<and> rel db' a b = Strangers"
proof -
  have "rel db b a = Befriended (other_side s)" using rel_mirror [of db a b] assms by simp
  with remove_law [OF assms(1) assms(2) [symmetric] assms(4)]
  have "inv db'" "rc = 0" "rel db' b a = Strangers" by auto
  with strangers_sym [of db' b a] assms(2) show ?thesis by auto
qed

text \<open>
  The other direction: whoever is befriended after a step either was before, or one of the
  two had asked and the other one took the step.
\<close>

lemma friends_by_consent:
  assumes "inv db" and "a \<noteq> b" and "room db a b \<or> rel db a b \<noteq> Strangers"
    and "(rc, db') \<in> {send_request db a b, accept_request db a b, reject_request db a b,
      remove_friend db a b}"
    and "rel db' c d = Befriended s" and "\<not> (\<exists>s. rel db c d = Befriended s)"
  shows "{c, d} = {a, b} \<and> rel db a b = Asked Second"
proof -
  let ?r = "rel db a b"
  have step: "inv db' \<and> (rc, rel db' a b) \<in> {ask ?r, accept ?r, reject ?r, unfriend ?r} \<and>
      (\<forall>c d. {c, d} \<noteq> {a, b} \<longrightarrow> rel db' c d = rel db c d)"
    using assms(4)
  proof (elim insertE emptyE)
    assume "(rc, db') = send_request db a b"
    from send_rel [OF assms(1-3) this [symmetric]] show ?thesis by simp
  next
    assume "(rc, db') = accept_request db a b"
    from accept_law [OF assms(1,2) this [symmetric]] show ?thesis by simp
  next
    assume "(rc, db') = reject_request db a b"
    from reject_law [OF assms(1,2) this [symmetric]] show ?thesis by simp
  next
    assume "(rc, db') = remove_friend db a b"
    from remove_law [OF assms(1,2) this [symmetric]] show ?thesis by simp
  qed
  then have same: "{c, d} = {a, b}" using assms(5,6) by (metis (no_types))
  have "rel db' b a = mirror (rel db' a b)" and "rel db b a = mirror ?r"
    using step assms(1,2) rel_mirror by blast+
  with same assms(5,6) have "\<exists>s. rel db' a b = Befriended s" and "\<nexists>s. ?r = Befriended s"
    by (auto simp: doubleton_eq_iff mirror_Befriended)
  then have "?r = Asked Second"
    using step by (cases ?r rule: ask.cases) auto
  with same show ?thesis ..
qed

end

section \<open>The relation that a table shows\<close>

definition pair_rows :: "i64 \<Rightarrow> i64 \<Rightarrow> friend_row list \<Rightarrow> friend_row list" where
  "pair_rows a b rows = filter (\<lambda>r. between a b r \<or> between b a r) rows"

definition relation_of :: "friend_row list \<Rightarrow> i64 \<Rightarrow> i64 \<Rightarrow> relation" where
  "relation_of rows a b =
     (case pair_rows a b rows of
        [] \<Rightarrow> Strangers
      | r # _ \<Rightarrow> (if f_accepted r then Befriended else Asked) (if between a b r then First else Second))"

text \<open>At most one row for every pair of users, and none from a user to itself.\<close>

fun one_row_per_pair :: "friend_row list \<Rightarrow> bool" where
  "one_row_per_pair [] = True"
| "one_row_per_pair (r # rows) =
     (f_user r \<noteq> f_friend r \<and> pair_rows (f_user r) (f_friend r) rows = [] \<and> one_row_per_pair rows)"

definition healthy :: "env \<Rightarrow> bool" where
  "healthy env \<longleftrightarrow> (\<forall>st. prepare_ok env st \<and> fault env st = None)"

definition friend_room :: "env \<Rightarrow> db \<Rightarrow> i64 \<Rightarrow> i64 \<Rightarrow> bool" where
  "friend_room env db a b \<longleftrightarrow> a \<in> set (map u_id (users db)) \<and> b \<in> set (map u_id (users db)) \<and>
     new_rowid env (map f_id (friends db)) \<notin> set (map f_id (friends db)) \<and>
     0 <s new_rowid env (map f_id (friends db))"

lemma pair_rows_sym: "pair_rows b a rows = pair_rows a b rows"
  unfolding pair_rows_def by (rule filter_cong) auto

lemma pair_rows_simps [simp]:
  "pair_rows a b [] = []"
  "pair_rows a b (r # rows) =
     (if between a b r \<or> between b a r then r # pair_rows a b rows else pair_rows a b rows)"
  "pair_rows a b (rows @ rows') = pair_rows a b rows @ pair_rows a b rows'"
  by (simp_all add: pair_rows_def)

lemma one_row_per_pair_iff:
  "one_row_per_pair rows \<longleftrightarrow>
     (\<forall>r \<in> set rows. f_user r \<noteq> f_friend r) \<and> (\<forall>a b. length (pair_rows a b rows) \<le> 1)"
proof (induction rows)
  case (Cons r rows)
  have "(\<forall>a b. length (pair_rows a b (r # rows)) \<le> 1) \<longleftrightarrow>
      pair_rows (f_user r) (f_friend r) rows = [] \<and> (\<forall>a b. length (pair_rows a b rows) \<le> 1)"
    (is "?l \<longleftrightarrow> ?r")
  proof
    assume l: ?l
    then have "length (pair_rows a b rows) \<le> 1" for a b
      using l [rule_format, of a b] by (cases "pair_rows a b rows = []") (auto split: if_splits)
    with l [rule_format, of "f_user r" "f_friend r"] show ?r by simp
  next
    assume ?r
    then show ?l
      using pair_rows_sym [of "f_user r" "f_friend r" rows] by auto
  qed
  with Cons show ?case by auto
qed simp

lemma pair_rows_accept: "pair_rows c d (accept_rows a b rows) = accept_rows a b (pair_rows c d rows)"
proof -
  let ?f = "\<lambda>r. if between a b r then r\<lparr>f_accepted := True\<rparr> else r"
  have "f_user (?f r) = f_user r" and "f_friend (?f r) = f_friend r" for r by simp_all
  then show ?thesis unfolding pair_rows_def accept_rows_def filter_map o_def by presburger
qed

lemma pair_rows_drop: "pair_rows c d (drop_rows P rows) = drop_rows P (pair_rows c d rows)"
  by (simp add: pair_rows_def drop_rows_def conj_commute)

lemma pair_rows_members: "r \<in> set (pair_rows c d rows) \<Longrightarrow> between c d r \<or> between d c r"
  by (auto simp: pair_rows_def)

lemma accept_rows_other: "{c, d} \<noteq> {a, b} \<Longrightarrow> accept_rows a b (pair_rows c d rows) = pair_rows c d rows"
  unfolding accept_rows_def by (rule map_idI) (auto dest: pair_rows_members)

lemma drop_rows_other:
  "{c, d} \<noteq> {a, b} \<Longrightarrow> (\<And>r. P r \<Longrightarrow> between a b r \<or> between b a r) \<Longrightarrow>
   drop_rows P (pair_rows c d rows) = pair_rows c d rows"
  unfolding drop_rows_def by (rule filter_True) (auto dest: pair_rows_members)

lemma one_row_accept: "one_row_per_pair rows \<Longrightarrow> one_row_per_pair (accept_rows a b rows)"
  by (auto simp: one_row_per_pair_iff pair_rows_accept) (auto simp: accept_rows_def)

lemma one_row_drop: "one_row_per_pair rows \<Longrightarrow> one_row_per_pair (drop_rows P rows)"
  unfolding one_row_per_pair_iff pair_rows_drop
  by (auto simp: drop_rows_def intro: le_trans [OF length_filter_le])

text \<open>The rows of a direction are among the rows of the pair.\<close>

lemma filter_pair:
  "filter (between a b) rows = filter (between a b) (pair_rows a b rows)"
  "filter (\<lambda>r. between a b r \<and> P r) rows = filter (\<lambda>r. between a b r \<and> P r) (pair_rows a b rows)"
  "filter (\<lambda>r. P r \<and> (between a b r \<or> between b a r)) rows = filter P (pair_rows a b rows)"
  "filter (\<lambda>r. between a b r \<or> between b a r) rows = pair_rows a b rows"
  by (auto simp: pair_rows_def intro!: filter_cong)

lemma pair_cases:
  assumes "one_row_per_pair rows" and "a \<noteq> b"
  obtains (none) "pair_rows a b rows = []" "relation_of rows a b = Strangers"
  | (first) r where "pair_rows a b rows = [r]" "between a b r"
      "relation_of rows a b = (if f_accepted r then Befriended First else Asked First)"
  | (second) r where "pair_rows a b rows = [r]" "between b a r" "\<not> between a b r"
      "relation_of rows a b = (if f_accepted r then Befriended Second else Asked Second)"
proof (cases "pair_rows a b rows")
  case Nil
  then show ?thesis by (intro none) (simp_all add: relation_of_def)
next
  case (Cons r rs)
  then have r: "pair_rows a b rows = [r]"
    using assms(1) unfolding one_row_per_pair_iff by (metis One_nat_def Suc_le_mono le_zero_eq length_0_conv length_Cons)
  have "r \<in> set (pair_rows a b rows)" using r by simp
  then have "between a b r \<or> between b a r \<and> \<not> between a b r"
    using pair_rows_members assms(2) by blast
  then show ?thesis
    using r by (auto simp: relation_of_def intro: first second)
qed

lemma relation_of_mirror:
  "one_row_per_pair rows \<Longrightarrow> a \<noteq> b \<Longrightarrow> relation_of rows b a = mirror (relation_of rows a b)"
  by (erule (1) pair_cases) (auto simp: relation_of_def pair_rows_sym [of b a])


section \<open>The statements implement the contract\<close>

text \<open>With statements that work, each function in terms of the rows of the pair.\<close>

lemma healthy_simps:
  assumes "healthy env"
  shows "first_row env st rows = (case rows of [] \<Rightarrow> None | r # _ \<Rightarrow> Some r)"
    and "write_ok env st" and "prepare_ok env st" and "step_rows env st rows = (rows, True)"
  using assms by (simp_all add: healthy_def first_row_def write_ok_def step_rows_def split: list.splits)

lemma moved:
  assumes "one_row_per_pair rows'" and "pair_rows a b rows' = ps" and "\<And>c d. {c, d} \<noteq> {a, b} \<Longrightarrow>
     pair_rows c d rows' = pair_rows c d rows"
  shows "one_row_per_pair rows' \<and>
     relation_of rows' a b = (case ps of [] \<Rightarrow> Strangers
       | r # _ \<Rightarrow> (if f_accepted r then Befriended else Asked) (if between a b r then First else Second)) \<and>
     (\<forall>c d. {c, d} \<noteq> {a, b} \<longrightarrow> relation_of rows' c d = relation_of rows c d)"
  using assms by (simp add: relation_of_def)

lemma accept_refines:
  assumes "healthy env" and one: "one_row_per_pair (friends db)" and ab: "a \<noteq> b"
    and run: "db_accept_friend_request env db a b = (rc, db')"
  shows "one_row_per_pair (friends db') \<and>
    (rc, relation_of (friends db') a b) = accept (relation_of (friends db) a b) \<and>
    (\<forall>c d. {c, d} \<noteq> {a, b} \<longrightarrow> relation_of (friends db') c d = relation_of (friends db) c d)"
proof -
  note h = healthy_simps [OF assms(1)]
  have look: "filter (between b a) (friends db) = filter (between b a) (pair_rows a b (friends db))"
    using filter_pair(1) [of b a] pair_rows_sym [of a b] by simp
  show ?thesis
    using one ab
  proof (cases rule: pair_cases)
    case none
    with run one look show ?thesis by (simp add: db_accept_friend_request_def h)
  next
    case (first r)
    with ab have "\<not> between b a r" by auto
    with first run one look show ?thesis by (simp add: db_accept_friend_request_def h)
  next
    case (second r)
    show ?thesis
    proof (cases "f_accepted r")
      case True
      with second run one look show ?thesis by (simp add: db_accept_friend_request_def h)
    next
      case False
      let ?rows = "drop_rows (\<lambda>r. between a b r \<and> \<not> f_accepted r) (accept_rows b a (friends db))"
      have out: "rc = 0" "friends db' = ?rows"
        using second False run look by (auto simp: db_accept_friend_request_def h)
      have "one_row_per_pair ?rows" by (simp add: one one_row_accept one_row_drop)
      moreover have "pair_rows a b ?rows = [r\<lparr>f_accepted := True\<rparr>]"
        unfolding pair_rows_drop pair_rows_accept
        using second ab by (simp add: drop_rows_def accept_rows_def)
      moreover have "pair_rows c d ?rows = pair_rows c d (friends db)" if "{c, d} \<noteq> {a, b}" for c d
        using that by (simp add: pair_rows_drop pair_rows_accept accept_rows_other drop_rows_other
            insert_commute)
      ultimately show ?thesis
        using moved [of ?rows a b _ "friends db"] second False out by simp
    qed
  qed
qed

lemma reject_refines:
  assumes "healthy env" and one: "one_row_per_pair (friends db)" and ab: "a \<noteq> b"
    and run: "db_reject_friend_request env db a b = (rc, db')"
  shows "one_row_per_pair (friends db') \<and>
    (rc, relation_of (friends db') a b) = reject (relation_of (friends db) a b) \<and>
    (\<forall>c d. {c, d} \<noteq> {a, b} \<longrightarrow> relation_of (friends db') c d = relation_of (friends db) c d)"
proof -
  note h = healthy_simps [OF assms(1)]
  let ?P = "\<lambda>r. between b a r \<and> \<not> f_accepted r"
  let ?rows = "drop_rows ?P (friends db)"
  have look: "filter ?P (friends db) = filter ?P (pair_rows a b (friends db))"
    using filter_pair(2) [of b a] pair_rows_sym [of a b] by simp
  show ?thesis
    using one ab
  proof (cases rule: pair_cases)
    case none
    with run one look show ?thesis by (simp add: db_reject_friend_request_def h)
  next
    case (first r)
    with ab have "\<not> between b a r" by auto
    with first run one look show ?thesis by (simp add: db_reject_friend_request_def h)
  next
    case (second r)
    show ?thesis
    proof (cases "f_accepted r")
      case True
      with second run one look show ?thesis by (simp add: db_reject_friend_request_def h)
    next
      case False
      have out: "rc = 0" "friends db' = ?rows"
        using second False run look by (auto simp: db_reject_friend_request_def h)
      have "one_row_per_pair ?rows" by (simp add: one one_row_drop)
      moreover have "pair_rows a b ?rows = []"
        unfolding pair_rows_drop using second False by (simp add: drop_rows_def)
      moreover have "pair_rows c d ?rows = pair_rows c d (friends db)" if "{c, d} \<noteq> {a, b}" for c d
        unfolding pair_rows_drop using that by (rule drop_rows_other) simp
      ultimately show ?thesis
        using moved [of ?rows a b _ "friends db"] second False out by simp
    qed
  qed
qed

lemma remove_refines:
  assumes "healthy env" and one: "one_row_per_pair (friends db)" and ab: "a \<noteq> b"
    and run: "db_remove_friendship env db a b = (rc, db')"
  shows "one_row_per_pair (friends db') \<and>
    (rc, relation_of (friends db') a b) = unfriend (relation_of (friends db) a b) \<and>
    (\<forall>c d. {c, d} \<noteq> {a, b} \<longrightarrow> relation_of (friends db') c d = relation_of (friends db) c d)"
proof -
  note h = healthy_simps [OF assms(1)]
  let ?P = "\<lambda>r. between a b r \<or> between b a r"
  let ?rows = "drop_rows ?P (friends db)"
  let ?found = "filter f_accepted (pair_rows a b (friends db)) \<noteq> []"
  have run': "db_remove_friendship env db a b =
      (if ?found then (0, db\<lparr>friends := ?rows\<rparr>) else (-1, db))"
    unfolding db_remove_friendship_def filter_pair(3)
    by (simp add: h split: list.splits)
  have "one_row_per_pair ?rows" by (simp add: one one_row_drop)
  moreover have "pair_rows a b ?rows = []"
    by (auto simp: pair_rows_def drop_rows_def filter_empty_conv)
  moreover have "pair_rows c d ?rows = pair_rows c d (friends db)" if "{c, d} \<noteq> {a, b}" for c d
    unfolding pair_rows_drop using that by (rule drop_rows_other) simp
  ultimately have gone: "one_row_per_pair ?rows \<and> relation_of ?rows a b = Strangers \<and>
      (\<forall>c d. {c, d} \<noteq> {a, b} \<longrightarrow> relation_of ?rows c d = relation_of (friends db) c d)"
    using moved [of ?rows a b "[]" "friends db"] by simp
  show ?thesis
    using one ab
  proof (cases rule: pair_cases)
    case none
    with run run' one show ?thesis by auto
  next
    case (first r)
    show ?thesis
    proof (cases "f_accepted r")
      case True
      with run run' first(1) have "rc = 0" and "friends db' = ?rows" by auto
      with first True gone show ?thesis by simp
    next
      case False
      with run run' first(1) have "rc = -1" and "db' = db" by auto
      with first False one show ?thesis by simp
    qed
  next
    case (second r)
    show ?thesis
    proof (cases "f_accepted r")
      case True
      with run run' second(1) have "rc = 0" and "friends db' = ?rows" by auto
      with second True gone show ?thesis by simp
    next
      case False
      with run run' second(1) have "rc = -1" and "db' = db" by auto
      with second False one show ?thesis by simp
    qed
  qed
qed

lemma send_new_refines:
  assumes "healthy env" and one: "one_row_per_pair (friends db)" and ab: "a \<noteq> b"
    and strangers: "relation_of (friends db) a b = Strangers" and room: "friend_room env db a b"
    and run: "db_send_friend_request env db a b = (rc, db')"
  shows "one_row_per_pair (friends db') \<and> (rc, relation_of (friends db') a b) = (0, Asked First) \<and>
    (\<forall>c d. {c, d} \<noteq> {a, b} \<longrightarrow> relation_of (friends db') c d = relation_of (friends db) c d)"
proof -
  note h = healthy_simps [OF assms(1)]
  have none: "pair_rows a b (friends db) = []"
    using one ab strangers by (cases rule: pair_cases) (auto split: if_splits)
  then have "(a, b) \<notin> set (map (\<lambda>r. (f_user r, f_friend r)) (friends db))"
    by (auto simp: pair_rows_def filter_empty_conv)
  then have out: "rc = 0" "\<exists>i. friends db' = friends db @
      [\<lparr>f_id = i, f_user = a, f_friend = b, f_accepted = False\<rparr>]"
    using run room by (auto simp: db_send_friend_request_def h filter_pair(4) none insert_id_def
        friend_room_def)
  then obtain i where i: "friends db' = friends db @
      [\<lparr>f_id = i, f_user = a, f_friend = b, f_accepted = False\<rparr>]" by blast
  have "length (pair_rows c d (friends db')) \<le> 1" for c d
    using one none pair_rows_sym [of b a "friends db"] unfolding i one_row_per_pair_iff by auto
  then have "one_row_per_pair (friends db')"
    using one ab unfolding one_row_per_pair_iff i by auto
  moreover have "pair_rows a b (friends db') =
      [\<lparr>f_id = i, f_user = a, f_friend = b, f_accepted = False\<rparr>]"
    by (simp add: i none)
  moreover have "pair_rows c d (friends db') = pair_rows c d (friends db)" if "{c, d} \<noteq> {a, b}" for c d
    using that unfolding i by auto
  ultimately show ?thesis
    using moved [of "friends db'" a b _ "friends db"] out by simp
qed

lemma send_again_refines:
  assumes "healthy env" and one: "one_row_per_pair (friends db)" and ab: "a \<noteq> b"
    and old: "relation_of (friends db) a b \<noteq> Strangers"
    and run: "db_send_friend_request env db a b = (rc, db')"
  shows "one_row_per_pair (friends db') \<and>
    (rc, relation_of (friends db') a b) = ask (relation_of (friends db) a b) \<and>
    (\<forall>c d. {c, d} \<noteq> {a, b} \<longrightarrow> relation_of (friends db') c d = relation_of (friends db) c d)"
proof -
  note h = healthy_simps [OF assms(1)]
  show ?thesis
    using one ab
  proof (cases rule: pair_cases)
    case none
    with old show ?thesis by simp
  next
    case (first r)
    then have "r \<in> set (pair_rows a b (friends db))" by simp
    then have "r \<in> set (friends db)" by (simp add: pair_rows_def)
    with first have dup: "(a, b) \<in> set (map (\<lambda>r. (f_user r, f_friend r)) (friends db))" by force
    show ?thesis
      using first run dup one ab
      by (cases "f_accepted r") (auto simp: db_send_friend_request_def h filter_pair(4) insert_id_def)
  next
    case (second r)
    show ?thesis
    proof (cases "f_accepted r")
      case True
      with second run one ab show ?thesis
        by (auto simp: db_send_friend_request_def h filter_pair(4))
    next
      case False
      obtain rc1 db1 where acc: "db_accept_friend_request env db a b = (rc1, db1)" by fastforce
      with accept_refines [OF assms(1) one ab acc] second False run ab show ?thesis
        by (auto simp: db_send_friend_request_def h filter_pair(4))
    qed
  qed
qed

interpretation social: friendship
  "\<lambda>db. healthy env \<and> one_row_per_pair (friends db)" "friend_room env" "\<lambda>db. relation_of (friends db)"
  "db_send_friend_request env" "db_accept_friend_request env" "db_reject_friend_request env"
  "db_remove_friendship env" for env :: env
proof (unfold_locales, goal_cases)
  case (1 db a b)
  from relation_of_mirror [OF conjunct2 [OF 1(1)] 1(2)] show ?case .
next
  case (2 db a b rc db')
  from send_new_refines [OF conjunct1 [OF 2(1)] conjunct2 [OF 2(1)] 2(2-5)] 2(1) show ?case by simp
next
  case (3 db a b rc db')
  from send_again_refines [OF conjunct1 [OF 3(1)] conjunct2 [OF 3(1)] 3(2-4)] 3(1) show ?case by simp
next
  case (4 db a b rc db')
  from accept_refines [OF conjunct1 [OF 4(1)] conjunct2 [OF 4(1)] 4(2-3)] 4(1) show ?case by simp
next
  case (5 db a b rc db')
  from reject_refines [OF conjunct1 [OF 5(1)] conjunct2 [OF 5(1)] 5(2-3)] 5(1) show ?case by simp
next
  case (6 db a b rc db')
  from remove_refines [OF conjunct1 [OF 6(1)] conjunct2 [OF 6(1)] 6(2-3)] 6(1) show ?case by simp
qed

section \<open>Properties\<close>

text \<open>
  C3: The four friendship statements implement the state machine of the contract: on two
  users, their C result and the relation they leave are those of \<open>ask\<close>, \<open>accept\<close>,
  \<open>reject\<close> and \<open>unfriend\<close>, and the table keeps at most one row per pair of users.
\<close>

theorem friend_statements_refine:
  assumes "healthy env" and "one_row_per_pair (friends db)" and "a \<noteq> b"
    and "friend_room env db a b \<or> relation_of (friends db) a b \<noteq> Strangers"
    and "(op, step) \<in> {(db_send_friend_request env db a b, ask), (db_accept_friend_request env db a b, accept),
      (db_reject_friend_request env db a b, reject), (db_remove_friendship env db a b, unfriend)}"
  shows "(fst op, relation_of (friends (snd op)) a b) = step (relation_of (friends db) a b) \<and>
    one_row_per_pair (friends (snd op))"
proof -
  note inv = conjI [OF assms(1,2)]
  obtain rc db' where op: "op = (rc, db')" by fastforce
  from assms(5) show ?thesis
  proof (elim insertE emptyE)
    assume "(op, step) = (db_send_friend_request env db a b, ask)"
    then have step: "step = ask" and run: "db_send_friend_request env db a b = (rc, db')" using op by simp_all
    from social.send_rel [OF inv assms(3,4) run] step op show ?thesis by simp
  next
    assume "(op, step) = (db_accept_friend_request env db a b, accept)"
    then have step: "step = accept" and run: "db_accept_friend_request env db a b = (rc, db')" using op by simp_all
    from social.accept_law [OF inv assms(3) run] step op show ?thesis by simp
  next
    assume "(op, step) = (db_reject_friend_request env db a b, reject)"
    then have step: "step = reject" and run: "db_reject_friend_request env db a b = (rc, db')" using op by simp_all
    from social.reject_law [OF inv assms(3) run] step op show ?thesis by simp
  next
    assume "(op, step) = (db_remove_friendship env db a b, unfriend)"
    then have step: "step = unfriend" and run: "db_remove_friendship env db a b = (rc, db')" using op by simp_all
    from social.remove_law [OF inv assms(3) run] step op show ?thesis by simp
  qed
qed

theorem friend_statements_refine_witness:
  "(fst (db_send_friend_request sample_env sample_db 1 2),
    relation_of (friends (snd (db_send_friend_request sample_env sample_db 1 2))) 1 2) = (0, Asked First)"
proof -
  have h: "healthy sample_env" by (simp add: healthy_def sample_defs)
  have room: "friend_room sample_env sample_db 1 2" by (simp add: friend_room_def sample_defs word_sless_alt)
  have one: "one_row_per_pair (friends sample_db)" by (simp add: sample_defs)
  have none: "relation_of (friends sample_db) 1 2 = Strangers" by (simp add: relation_of_def sample_defs)
  show ?thesis
    using friend_statements_refine [OF h one, of 1 2 "db_send_friend_request sample_env sample_db 1 2" ask]
      room none by simp
qed

text \<open>
  C28: Consent: whatever of the four statements a user runs, a pair that becomes friends by
  it is that user and one who had asked for the friendship before.
\<close>

theorem friendship_needs_consent:
  assumes "healthy env" and "one_row_per_pair (friends db)" and "a \<noteq> b"
    and "friend_room env db a b \<or> relation_of (friends db) a b \<noteq> Strangers"
    and "(rc, db') \<in> {db_send_friend_request env db a b, db_accept_friend_request env db a b,
      db_reject_friend_request env db a b, db_remove_friendship env db a b}"
    and "relation_of (friends db') c d = Befriended s"
    and "\<not> (\<exists>s. relation_of (friends db) c d = Befriended s)"
  shows "{c, d} = {a, b} \<and> relation_of (friends db) a b = Asked Second"
  by (rule social.friends_by_consent [OF conjI [OF assms(1,2)] assms(3-7)])

theorem friendship_needs_consent_witness:
  "\<exists>db. relation_of (friends db) 1 2 = Asked Second \<and>
     relation_of (friends (snd (db_accept_friend_request sample_env db 1 2))) 1 2 = Befriended Second"
proof -
  let ?db = "sample_db\<lparr>friends := [\<lparr>f_id = 1, f_user = 2, f_friend = 1, f_accepted = False\<rparr>]\<rparr>"
  have h: "healthy sample_env" by (simp add: healthy_def sample_defs)
  have run: "db_accept_friend_request sample_env ?db 1 2 =
      (0, ?db\<lparr>friends := [\<lparr>f_id = 1, f_user = 2, f_friend = 1, f_accepted = True\<rparr>]\<rparr>)"
    by (simp add: db_accept_friend_request_def first_row_def step_rows_def write_ok_def accept_rows_def
        drop_rows_def sample_defs)
  have "relation_of (friends ?db) 1 2 = Asked Second"
    by (rule friendship_needs_consent [OF h, of ?db 1 2 0 "snd (db_accept_friend_request sample_env ?db 1 2)"
          1 2 Second, THEN conjunct2])
      (simp_all add: run relation_of_def)
  then show ?thesis
    by (intro exI [of _ ?db]) (simp add: run relation_of_def)
qed

text \<open>
  Two users who ask each other are friends after the second request, without an accept
  from either: the statement finds the crossing request and accepts it.
\<close>

theorem crossing_requests_befriend:
  assumes "healthy env" and "one_row_per_pair (friends db)" and "a \<noteq> b"
    and "relation_of (friends db) a b = Strangers" and "friend_room env db a b"
    and "db_send_friend_request env db a b = (rc1, db1)"
    and "db_send_friend_request env db1 b a = (rc2, db2)"
  shows "rc1 = 0 \<and> rc2 = 1 \<and> relation_of (friends db2) a b = Befriended First"
  by (rule social.crossing_requests [OF conjI [OF assms(1,2)] assms(3-7)])

theorem crossing_requests_befriend_witness:
  "\<exists>db1 db2. db_send_friend_request sample_env sample_db 1 2 = (0, db1) \<and>
     db_send_friend_request sample_env db1 2 1 = (1, db2) \<and>
     relation_of (friends db2) 1 2 = Befriended First"
proof -
  have h: "healthy sample_env" by (simp add: healthy_def sample_defs)
  have room: "friend_room sample_env sample_db 1 2" by (simp add: friend_room_def sample_defs word_sless_alt)
  have one: "one_row_per_pair (friends sample_db)" by (simp add: sample_defs)
  have none: "relation_of (friends sample_db) 1 2 = Strangers" by (simp add: relation_of_def sample_defs)
  obtain rc1 db1 where 1: "db_send_friend_request sample_env sample_db 1 2 = (rc1, db1)" by fastforce
  obtain rc2 db2 where 2: "db_send_friend_request sample_env db1 2 1 = (rc2, db2)" by fastforce
  from crossing_requests_befriend [OF h one _ none room 1 2] 1 2 show ?thesis by simp
qed

end
