(* ===== verification/DbInvariant.thy ===== *)
theory DbInvariant
  imports Friends
begin

text \<open>
  The invariant of the tables: the keys and UNIQUE constraints of \<^verbatim>\<open>db/schema.sql\<close>, its
  foreign keys, positive ids and bounded status texts. Every statement keeps it, whatever
  fails: the facts are collected in \<open>wf\<close>. The locale \<open>db_invariant\<close> is the interface the
  server relies on: an invariant that all functions of \<^verbatim>\<open>db.c\<close> keep.
\<close>

named_theorems wf "operations keep the invariant of the tables"

section \<open>The invariant\<close>

abbreviation (input) refers :: "('a \<Rightarrow> i64) \<Rightarrow> 'a list \<Rightarrow> i64 set \<Rightarrow> bool" where
  "refers f rows ids \<equiv> f ` set rows \<subseteq> ids"

definition users_wf :: "user_row list \<Rightarrow> bool" where
  "users_wf us \<longleftrightarrow> distinct (map u_id us) \<and> distinct (map u_name us) \<and> distinct (map u_email us) \<and>
     (\<forall>u \<in> set us. 0 <s u_id u \<and> length (u_status u) \<le> 64)"

definition friends_wf :: "i64 set \<Rightarrow> friend_row list \<Rightarrow> bool" where
  "friends_wf uids fs \<longleftrightarrow> distinct (map f_id fs) \<and> distinct (map (\<lambda>f. (f_user f, f_friend f)) fs) \<and>
     refers f_user fs uids \<and> refers f_friend fs uids"

definition servers_wf :: "server_row list \<Rightarrow> bool" where
  "servers_wf ss \<longleftrightarrow> distinct (map s_id ss) \<and> distinct (map s_name ss) \<and> (\<forall>s \<in> set ss. 0 <s s_id s)"

definition members_wf :: "i64 set \<Rightarrow> i64 set \<Rightarrow> member_row list \<Rightarrow> bool" where
  "members_wf sids uids ms \<longleftrightarrow> distinct (map m_id ms) \<and> distinct (map (\<lambda>m. (m_server m, m_user m)) ms) \<and>
     refers m_server ms sids \<and> refers m_user ms uids"

definition channels_wf :: "i64 set \<Rightarrow> channel_row list \<Rightarrow> bool" where
  "channels_wf sids cs \<longleftrightarrow> distinct (map c_id cs) \<and> distinct (map (\<lambda>c. (c_server c, c_name c)) cs) \<and>
     refers c_server cs sids"

definition messages_wf :: "i64 set \<Rightarrow> i64 set \<Rightarrow> message_row list \<Rightarrow> bool" where
  "messages_wf cids uids gs \<longleftrightarrow> distinct (map g_id gs) \<and> refers g_channel gs cids \<and> refers g_user gs uids"

definition dms_wf :: "i64 set \<Rightarrow> dm_row list \<Rightarrow> bool" where
  "dms_wf uids ds \<longleftrightarrow> distinct (map d_id ds) \<and> refers d_sender ds uids \<and> refers d_receiver ds uids"

abbreviation user_ids :: "db \<Rightarrow> i64 set" where "user_ids db \<equiv> u_id ` set (users db)"
abbreviation server_ids :: "db \<Rightarrow> i64 set" where "server_ids db \<equiv> s_id ` set (servers db)"
abbreviation channel_ids :: "db \<Rightarrow> i64 set" where "channel_ids db \<equiv> c_id ` set (channels db)"

definition db_wf :: "db \<Rightarrow> bool" where
  "db_wf db \<longleftrightarrow> users_wf (users db) \<and> friends_wf (user_ids db) (friends db) \<and> servers_wf (servers db) \<and>
     members_wf (server_ids db) (user_ids db) (members db) \<and> channels_wf (server_ids db) (channels db) \<and>
     messages_wf (channel_ids db) (user_ids db) (messages db) \<and> dms_wf (user_ids db) (dms db)"

lemmas wf_defs = users_wf_def friends_wf_def servers_wf_def members_wf_def channels_wf_def
  messages_wf_def dms_wf_def

lemma distinct_map_filter': "distinct (map f xs) \<Longrightarrow> distinct (map f (filter P xs))"
  by (rule distinct_map_filter)

lemma insert_id_Some:
  "insert_id env st ok ids = Some r \<Longrightarrow> ok \<and> r \<notin> set ids \<and> 0 <s r"
  by (auto simp: insert_id_def Let_def split: if_splits)

section \<open>Larger parents, smaller children\<close>

lemma wf_mono:
  "friends_wf U fs \<Longrightarrow> U \<subseteq> U' \<Longrightarrow> friends_wf U' fs"
  "members_wf S U ms \<Longrightarrow> S \<subseteq> S' \<Longrightarrow> U \<subseteq> U' \<Longrightarrow> members_wf S' U' ms"
  "channels_wf S cs \<Longrightarrow> S \<subseteq> S' \<Longrightarrow> channels_wf S' cs"
  "messages_wf C U gs \<Longrightarrow> C \<subseteq> C' \<Longrightarrow> U \<subseteq> U' \<Longrightarrow> messages_wf C' U' gs"
  "dms_wf U ds \<Longrightarrow> U \<subseteq> U' \<Longrightarrow> dms_wf U' ds"
  unfolding wf_defs by blast+

lemma wf_filter:
  "friends_wf U fs \<Longrightarrow> friends_wf U (filter P fs)"
  "members_wf S U ms \<Longrightarrow> members_wf S U (filter P1 ms)"
  by (auto simp: wf_defs distinct_map_filter)

section \<open>Every function of the database layer keeps the invariant\<close>

lemma wf_create_user [wf]:
  assumes "db_wf db" shows "db_wf (snd (db_create_user env db name hash))"
proof -
  have "users_wf (users db @ [\<lparr>u_id = r, u_name = name, u_email = e, u_hash = hash, u_status = []\<rparr>])"
    if "insert_id env INSERT_USER (name \<notin> set (map u_name (users db)) \<and> e \<notin> set (map u_email (users db)))
      (map u_id (users db)) = Some r" for r e
    using assms insert_id_Some [OF that] by (auto simp: db_wf_def users_wf_def)
  then show ?thesis
    using assms
    by (auto simp: db_wf_def db_create_user_def Let_def split: option.splits intro: wf_mono)
qed

lemma wf_users_update:
  "db_wf db \<Longrightarrow> users_wf us \<Longrightarrow> u_id ` set us = user_ids db \<Longrightarrow> db_wf (db\<lparr>users := us\<rparr>)"
  by (simp add: db_wf_def)

lemma wf_update_status [wf]: "db_wf db \<Longrightarrow> db_wf (snd (db_update_user_status env db i st))"
proof -
  assume db: "db_wf db"
  let ?f = "\<lambda>u. if u_id u = i then u\<lparr>u_status := st\<rparr> else u"
  have same: "map u_id (map ?f us) = map u_id us" "map u_name (map ?f us) = map u_name us"
    "map u_email (map ?f us) = map u_email us" for us by (auto simp: comp_def)
  have ids: "u_id ` ?f ` set us = u_id ` set us" for us
    using arg_cong [OF same(1), of set us] by (simp only: set_map)
  have "users_wf (map ?f (users db))" if "length st \<le> 64 \<or> i \<notin> set (map u_id (users db))"
    using that db unfolding db_wf_def users_wf_def same by auto
  then have "db_wf (db\<lparr>users := map ?f (users db)\<rparr>)"
    if "length st \<le> 64 \<or> i \<notin> set (map u_id (users db))"
    by (intro wf_users_update [OF db]) (use that ids in \<open>simp_all only: set_map\<close>)
  with db show ?thesis unfolding db_update_user_status_def by simp
qed

lemma wf_save_message [wf]: "db_wf db \<Longrightarrow> db_wf (snd (db_save_message env db c u s))"
  by (auto simp: db_save_message_def db_wf_def messages_wf_def dest!: insert_id_Some split: option.splits)

lemma wf_save_direct_message [wf]: "db_wf db \<Longrightarrow> db_wf (snd (db_save_direct_message env db a b s))"
  by (auto simp: db_save_direct_message_def db_wf_def dms_wf_def dest!: insert_id_Some split: option.splits)

lemma wf_join_server [wf]: "db_wf db \<Longrightarrow> db_wf (snd (db_join_server env db v u a))"
  by (auto simp: db_join_server_def db_wf_def members_wf_def dest!: insert_id_Some split: option.splits)

lemma wf_create_server [wf]:
  assumes "db_wf db" shows "db_wf (snd (db_create_server env db name u))"
proof -
  have "db_wf (db\<lparr>servers := servers db @ [\<lparr>s_id = r, s_name = name\<rparr>]\<rparr>)"
    if "insert_id env INSERT_SERVER (name \<notin> set (map s_name (servers db))) (map s_id (servers db)) = Some r" for r
    using assms insert_id_Some [OF that] by (auto simp: db_wf_def servers_wf_def intro: wf_mono)
  then show ?thesis using assms by (auto simp: db_create_server_def intro: wf split: option.splits)
qed

lemma wf_delete_members [wf]: "db_wf db \<Longrightarrow> db_wf (delete_members v u db)"
  by (simp add: delete_members_def db_wf_def wf_filter)

lemma wf_leave_server [wf]: "db_wf db \<Longrightarrow> db_wf (snd (db_leave_server env db v u))"
  by (simp add: db_leave_server_def wf)

lemma wf_kick [wf]: "db_wf db \<Longrightarrow> db_wf (snd (db_kick_server_member env db v u))"
  by (simp add: db_kick_server_member_def wf)

lemma wf_delete_server_rows [wf]:
  assumes "db_wf db" shows "db_wf (delete_server_rows v db)"
proof -
  let ?cs = "filter (\<lambda>c. c_server c \<noteq> v) (channels db)"
  let ?gone = "set (map c_id (filter (\<lambda>c. c_server c = v) (channels db)))"
  have "messages_wf (c_id ` set ?cs) (user_ids db) (filter (\<lambda>g. g_channel g \<notin> ?gone) (messages db))"
  proof -
    have "g_channel g \<in> c_id ` set ?cs" if "g \<in> set (messages db)" "g_channel g \<notin> ?gone" for g
    proof -
      have "g_channel g \<in> channel_ids db" using assms that(1) by (auto simp: db_wf_def messages_wf_def)
      then obtain c where c: "c \<in> set (channels db)" "g_channel g = c_id c" by blast
      moreover have "c_server c \<noteq> v" using c that(2) by auto
      ultimately show ?thesis by simp
    qed
    moreover have "distinct (map g_id (messages db)) \<and> refers g_user (messages db) (user_ids db)"
      using assms by (simp add: db_wf_def messages_wf_def)
    ultimately show ?thesis by (auto simp: messages_wf_def distinct_map_filter)
  qed
  moreover have "servers_wf (filter (\<lambda>s. s_id s \<noteq> v) (servers db))"
    using assms by (simp add: db_wf_def servers_wf_def distinct_map_filter)
  moreover have "members_wf (s_id ` set (filter (\<lambda>s. s_id s \<noteq> v) (servers db))) (user_ids db)
      (filter (\<lambda>m. m_server m \<noteq> v) (members db))"
    using assms by (auto simp: db_wf_def members_wf_def distinct_map_filter)
  moreover have "channels_wf (s_id ` set (filter (\<lambda>s. s_id s \<noteq> v) (servers db))) ?cs"
    using assms by (auto simp: db_wf_def channels_wf_def distinct_map_filter)
  ultimately show ?thesis
    using assms by (simp add: db_wf_def delete_server_rows_def Let_def)
qed

lemma wf_delete_server [wf]: "db_wf db \<Longrightarrow> db_wf (snd (db_delete_server env db v u))"
  by (simp add: db_delete_server_def wf)

lemma wf_create_channel [wf]:
  assumes "db_wf db" shows "db_wf (snd (db_create_channel env db v name))"
  using assms by (auto simp: db_create_channel_def db_wf_def channels_wf_def dest!: insert_id_Some
      split: option.splits intro: wf_mono)

lemma wf_delete_channel [wf]:
  assumes "db_wf db" shows "db_wf (snd (db_delete_channel env db c))"
  using assms unfolding db_wf_def wf_defs db_delete_channel_def delete_channel_rows_def
  by (auto simp: distinct_map_filter)

lemma wf_accept [wf]:
  assumes "db_wf db" shows "db_wf (snd (db_accept_friend_request env db a b))"
proof -
  let ?f = "\<lambda>r. if between b a r then r\<lparr>f_accepted := True\<rparr> else r"
  have same: "map f_id (map ?f fs) = map f_id fs" "map f_user (map ?f fs) = map f_user fs"
    "map f_friend (map ?f fs) = map f_friend fs"
    "map (\<lambda>f. (f_user f, f_friend f)) (map ?f fs) = map (\<lambda>f. (f_user f, f_friend f)) fs" for fs
    by (auto simp: comp_def)
  have "friends_wf (user_ids db) (accept_rows b a (friends db))"
    using assms unfolding db_wf_def friends_wf_def accept_rows_def same
    by (auto simp flip: set_map simp: same simp del: map_map)
  then show ?thesis
    using assms by (auto simp: db_accept_friend_request_def Let_def db_wf_def drop_rows_def wf_filter
        split: option.splits)
qed

lemma wf_send_request [wf]:
  assumes "db_wf db" shows "db_wf (snd (db_send_friend_request env db a b))"
proof -
  have "friends_wf (user_ids db) (friends db @ [\<lparr>f_id = i, f_user = a, f_friend = b, f_accepted = False\<rparr>])"
    if "insert_id env INSERT_FRIEND ((a, b) \<notin> set (map (\<lambda>r. (f_user r, f_friend r)) (friends db)) \<and>
       a \<in> set (map u_id (users db)) \<and> b \<in> set (map u_id (users db))) (map f_id (friends db)) = Some i" for i
    using assms insert_id_Some [OF that] by (auto simp: db_wf_def friends_wf_def)
  then have new: "db_wf (db\<lparr>friends := friends db @ [\<lparr>f_id = i, f_user = a, f_friend = b, f_accepted = False\<rparr>]\<rparr>)"
    if "insert_id env INSERT_FRIEND ((a, b) \<notin> set (map (\<lambda>r. (f_user r, f_friend r)) (friends db)) \<and>
       a \<in> set (map u_id (users db)) \<and> b \<in> set (map u_id (users db))) (map f_id (friends db)) = Some i" for i
    using that assms by (simp add: db_wf_def)
  show ?thesis
    using assms new wf_accept [OF assms, of env a b]
    by (auto simp: db_send_friend_request_def Let_def case_prod_beta split: option.splits)
qed

lemma wf_remove [wf]: "db_wf db \<Longrightarrow> db_wf (snd (db_remove_friendship env db a b))"
  by (auto simp: db_remove_friendship_def db_wf_def drop_rows_def wf_filter)

lemma wf_reject [wf]: "db_wf db \<Longrightarrow> db_wf (snd (db_reject_friend_request env db a b))"
  by (auto simp: db_reject_friend_request_def db_wf_def drop_rows_def wf_filter)

end
