(* ===== verification/DbLaws.thy ===== *)
theory DbLaws
  imports DbInvariant "HOL-Library.Multiset"
begin

text \<open>
  What the queries and statements of \<^verbatim>\<open>server/db.c\<close> promise the handlers: the membership
  interface, on which the rights to delete, kick and edit rest; accounts; the order and the
  bound of the message histories; what a deletion takes with it.
\<close>

section \<open>Membership and administrators\<close>

text \<open>
  The interface: \<open>lookup\<close> is the administrator flag of a member. No operation raises it.
\<close>

locale membership =
  fixes lookup :: "'db \<Rightarrow> 's \<Rightarrow> 'u \<Rightarrow> bool option"
    and join :: "'db \<Rightarrow> 's \<Rightarrow> 'u \<Rightarrow> bool \<Rightarrow> int \<times> 'db"
    and leave :: "'db \<Rightarrow> 's \<Rightarrow> 'u \<Rightarrow> int \<times> 'db"
    and kick :: "'db \<Rightarrow> 's \<Rightarrow> 'u \<Rightarrow> int \<times> 'db"
  assumes join_ok: "join db v u a = (0, db') \<Longrightarrow> lookup db v u = None \<and> lookup db' v u = Some a"
    and join_failed: "join db v u a = (rc, db') \<Longrightarrow> rc \<noteq> 0 \<Longrightarrow> db' = db"
    and join_other: "join db v u a = (rc, db') \<Longrightarrow> (v', u') \<noteq> (v, u) \<Longrightarrow> lookup db' v' u' = lookup db v' u'"
    and leave_ok: "leave db v u = (0, db') \<Longrightarrow> lookup db' v u = None"
    and leave_failed: "leave db v u = (rc, db') \<Longrightarrow> rc \<noteq> 0 \<Longrightarrow> db' = db"
    and leave_other: "leave db v u = (rc, db') \<Longrightarrow> (v', u') \<noteq> (v, u) \<Longrightarrow> lookup db' v' u' = lookup db v' u'"
    and kick_ok: "kick db v u = (0, db') \<Longrightarrow> lookup db v u \<noteq> None \<and> lookup db' v u = None"
    and kick_failed: "kick db v u = (rc, db') \<Longrightarrow> rc \<noteq> 0 \<Longrightarrow> lookup db' = lookup db"
    and kick_other: "kick db v u = (rc, db') \<Longrightarrow> (v', u') \<noteq> (v, u) \<Longrightarrow> lookup db' v' u' = lookup db v' u'"
begin

lemma join_admin:
  assumes "lookup (snd (join db v u a)) v' u' = Some True"
  shows "lookup db v' u' = Some True \<or> (v', u') = (v, u) \<and> a"
proof -
  obtain rc db' where run: "join db v u a = (rc, db')" by fastforce
  show ?thesis
  proof (cases "rc = 0 \<and> (v', u') = (v, u)")
    case True
    with join_ok [of db v u a db'] run assms show ?thesis by auto
  next
    case False
    with join_failed [OF run] join_other [OF run] run assms show ?thesis by (cases "rc = 0") auto
  qed
qed

lemma leave_admin:
  assumes "lookup (snd (leave db v u)) v' u' = Some True"
  shows "lookup db v' u' = Some True"
proof -
  obtain rc db' where run: "leave db v u = (rc, db')" by fastforce
  show ?thesis
  proof (cases "rc = 0 \<and> (v', u') = (v, u)")
    case True
    with leave_ok [of db v u db'] run assms show ?thesis by auto
  next
    case False
    with leave_failed [OF run] leave_other [OF run] run assms show ?thesis by (cases "rc = 0") auto
  qed
qed

lemma kick_admin:
  assumes "lookup (snd (kick db v u)) v' u' = Some True"
  shows "lookup db v' u' = Some True"
proof -
  obtain rc db' where run: "kick db v u = (rc, db')" by fastforce
  show ?thesis
  proof (cases "rc = 0 \<and> (v', u') = (v, u)")
    case True
    with kick_ok [of db v u db'] run assms show ?thesis by auto
  next
    case False
    with kick_failed [OF run] kick_other [OF run] run assms show ?thesis by (cases "rc = 0") auto
  qed
qed

end

text \<open>The flag in the table, which the query reads when the database works.\<close>

definition is_admin_of :: "db \<Rightarrow> i64 \<Rightarrow> i64 \<Rightarrow> bool option" where
  "is_admin_of db v u = map_option m_admin (find (\<lambda>m. m_server m = v \<and> m_user m = u) (members db))"

lemma filter_find: "filter P xs = [] \<and> find P xs = None \<or> (\<exists>x ys. filter P xs = x # ys \<and> find P xs = Some x)"
  by (induction xs) auto

lemma first_row_find: "first_row env st (filter P xs) = Some x \<Longrightarrow> find P xs = Some x"
  using filter_find [of P xs]
  by (auto simp: first_row_def step_rows_def take_Cons' split: if_splits option.splits nat.splits list.splits)

lemma admin_query:
  "db_user_is_server_admin env db v u = Some a \<Longrightarrow> is_admin_of db v u = Some a"
  by (auto simp: db_user_is_server_admin_def is_admin_of_def dest: first_row_find)

lemma admin_query_healthy:
  "healthy env \<Longrightarrow> db_user_is_server_admin env db v u = is_admin_of db v u"
  using filter_find [of "\<lambda>m. m_server m = v \<and> m_user m = u" "members db"]
  by (auto simp: db_user_is_server_admin_def is_admin_of_def healthy_simps)

lemma find_append: "find P (xs @ ys) = (case find P xs of None \<Rightarrow> find P ys | r \<Rightarrow> r)"
  by (induction xs) auto

lemma is_admin_None:
  "is_admin_of db v u = None \<longleftrightarrow> (v, u) \<notin> set (map (\<lambda>m. (m_server m, m_user m)) (members db))"
  by (auto simp: is_admin_of_def find_None_iff)

lemma is_admin_delete:
  "is_admin_of (delete_members v u db) v' u' = (if (v', u') = (v, u) then None else is_admin_of db v' u')"
proof -
  have "find (\<lambda>m. m_server m = v' \<and> m_user m = u')
      (filter (\<lambda>m. \<not> (m_server m = v \<and> m_user m = u)) ms) =
    (if (v', u') = (v, u) then None else find (\<lambda>m. m_server m = v' \<and> m_user m = u') ms)"
    for ms :: "member_row list"
    by (induction ms) auto
  then show ?thesis by (simp add: is_admin_of_def delete_members_def)
qed

lemma is_admin_append:
  "is_admin_of (db\<lparr>members := members db @ [m]\<rparr>) v u =
     (case is_admin_of db v u of
        None \<Rightarrow> if m_server m = v \<and> m_user m = u then Some (m_admin m) else None
      | r \<Rightarrow> r)"
  by (auto simp: is_admin_of_def find_append split: option.splits)

interpretation member: membership is_admin_of "db_join_server env" "db_leave_server env"
  "db_kick_server_member env" for env :: env
proof (unfold_locales, goal_cases)
  case (1 db v u a db')
  then show ?case
    using is_admin_None [of db v u]
    by (auto simp: db_join_server_def is_admin_append split: option.splits dest!: insert_id_Some)
next
  case (2 db v u a rc db')
  then show ?case by (auto simp: db_join_server_def split: option.splits)
next
  case (3 db v u a rc db' v' u')
  then show ?case by (auto simp: db_join_server_def is_admin_append split: option.splits)
next
  case (4 db v u db')
  then show ?case by (auto simp: db_leave_server_def is_admin_delete split: if_splits)
next
  case (5 db v u rc db')
  then show ?case by (auto simp: db_leave_server_def split: if_splits)
next
  case (6 db v u rc db' v' u')
  then show ?case by (auto simp: db_leave_server_def is_admin_delete split: if_splits)
next
  case (7 db v u db')
  then show ?case
    using is_admin_None [of db v u]
    by (auto simp: db_kick_server_member_def is_admin_delete split: if_splits)
next
  case (8 db v u rc db')
  then show ?case
    using is_admin_None [of db v u]
    by (intro ext) (auto simp: db_kick_server_member_def is_admin_delete split: if_splits)
next
  case (9 db v u rc db' v' u')
  then show ?case by (auto simp: db_kick_server_member_def is_admin_delete split: if_splits)
qed

lemma create_server_admin:
  "is_admin_of (snd (db_create_server env db name u)) v' u' = Some True \<Longrightarrow>
   is_admin_of db v' u' = Some True \<or> u' = u \<and> v' \<notin> server_ids db"
proof -
  assume admin: "is_admin_of (snd (db_create_server env db name u)) v' u' = Some True"
  have same: "is_admin_of (db\<lparr>servers := ss\<rparr>) = is_admin_of db" for ss
    by (intro ext) (simp add: is_admin_of_def)
  show ?thesis
  proof (cases "insert_id env INSERT_SERVER (name \<notin> set (map s_name (servers db))) (map s_id (servers db))")
    case None
    with admin show ?thesis by (simp add: db_create_server_def)
  next
    case (Some r)
    with admin have "is_admin_of (snd (db_join_server env
        (db\<lparr>servers := servers db @ [\<lparr>s_id = r, s_name = name\<rparr>]\<rparr>) r u True)) v' u' = Some True"
      by (simp add: db_create_server_def)
    from member.join_admin [OF this] insert_id_Some [OF Some] show ?thesis by (auto simp: same)
  qed
qed

section \<open>Accounts\<close>

text \<open>
  An account that was created can be found again: the lookups by its name return its id
  and the hash it was created with, and no second account of the same name can be created.
\<close>

theorem account_roundtrip:
  assumes "db_create_user env db name hash = (Some i, db')" and "healthy env'"
  shows "db_get_password_hash env' db' name = Some (i, hash) \<and>
    db_get_user_id_by_name env' db' name = Some i \<and>
    fst (db_create_user env'' db' name hash') = None"
proof -
  from assms(1) have fresh: "name \<notin> set (map u_name (users db))" and
    us: "users db' = users db @ [\<lparr>u_id = i, u_name = name, u_email = take 255 (name @ ''@dummy.com''),
      u_hash = hash, u_status = []\<rparr>]"
    by (auto simp: db_create_user_def Let_def split: option.splits dest!: insert_id_Some)
  then have "filter (\<lambda>u. u_name u = name) (users db') = [\<lparr>u_id = i, u_name = name,
      u_email = take 255 (name @ ''@dummy.com''), u_hash = hash, u_status = []\<rparr>]"
    by (auto simp: filter_empty_conv)
  moreover have "insert_id env'' INSERT_USER (name \<notin> set (map u_name (users db')) \<and> e) ids = None"
    for e ids using us by (simp add: insert_id_def)
  ultimately show ?thesis
    by (simp add: db_get_password_hash_def db_get_user_id_by_name_def db_create_user_def Let_def
        healthy_simps [OF assms(2)])
qed

theorem account_roundtrip_witness:
  "db_get_password_hash sample_env (snd (db_create_user sample_env sample_db ''cat'' ''$x'')) ''cat'' =
     Some (3, ''$x'')"
proof -
  have h: "healthy sample_env" by (simp add: healthy_def sample_defs)
  have run: "db_create_user sample_env sample_db ''cat'' ''$x'' =
      (Some 3, snd (db_create_user sample_env sample_db ''cat'' ''$x''))"
    by (simp add: db_create_user_def Let_def insert_id_def write_ok_def sample_defs word_sless_alt)
  show ?thesis using account_roundtrip [OF run h] by blast
qed

section \<open>Message histories\<close>

text \<open>A join with a table along its key: at most one row matches.\<close>

lemma join_single:
  "distinct (map k us) \<Longrightarrow> concat (map (\<lambda>s. if x = k s then g s else []) us) =
     (case find (\<lambda>s. x = k s) us of None \<Rightarrow> [] | Some s \<Rightarrow> g s)"
proof (induction us)
  case (Cons u us)
  have "find (\<lambda>s. x = k s) us = None" if "x = k u"
    using Cons.prems that by (auto simp: find_None_iff)
  with Cons show ?case by auto
qed simp

lemma distinct_join:
  assumes "distinct (map k ds)" and "\<And>d. length (g d) \<le> 1" and "\<And>d y. y \<in> set (g d) \<Longrightarrow> h y = k d"
  shows "distinct (map h (concat (map g ds)))"
  using assms(1)
proof (induction ds)
  case (Cons d ds)
  have "distinct (map h (g d))" using assms(2) [of d] by (cases "g d") auto
  moreover have "h ` set (g d) \<subseteq> {k d}" using assms(3) by auto
  moreover have "h ` set (concat (map g ds)) \<subseteq> k ` set ds" using assms(3) by force
  moreover have "k d \<notin> k ` set ds" using Cons.prems by simp
  ultimately show ?case using Cons by (fastforce simp: image_subset_iff)
qed simp

lemma conversation_distinct:
  assumes "db_wf db" shows "distinct (map fst (conversation db a b))"
proof -
  have us: "distinct (map u_id (users db))" and ds: "distinct (map d_id (dms db))"
    using assms by (simp_all add: db_wf_def users_wf_def dms_wf_def)
  show ?thesis
    unfolding conversation_def join_single [OF us]
    by (rule distinct_join [OF ds]) (auto split: option.splits if_splits)
qed

text \<open>What a LIMIT after a descending ORDER BY keeps, put in ascending order again.\<close>

lemma last_rows:
  fixes f :: "'a \<Rightarrow> int" and n :: nat
  assumes "distinct (map f xs)"
  defines "rows \<equiv> sort_key f (take n (sort_key (\<lambda>x. - f x) xs))"
  shows "sorted_wrt (<) (map f rows)" and "length rows = min n (length xs)"
    and "set rows \<subseteq> set xs" and "x \<in> set xs - set rows \<Longrightarrow> y \<in> set rows \<Longrightarrow> f x < f y"
proof -
  let ?l = "sort_key (\<lambda>x. - f x) xs"
  have l: "set ?l = set xs" "length ?l = length xs" "distinct (map f ?l)"
    using assms(1) by (simp_all add: distinct_map)
  have "distinct (map f (take n ?l))" using l(3) by (simp flip: take_map)
  then have "distinct (map f rows)" by (simp add: rows_def distinct_map)
  moreover have "sorted (map f rows)" by (simp add: rows_def)
  ultimately show "sorted_wrt (<) (map f rows)" by (simp add: strict_sorted_iff)
  show "length rows = min n (length xs)" by (simp add: rows_def l)
  show "set rows \<subseteq> set xs" using l(1) set_take_subset [of n ?l] by (auto simp: rows_def)
  assume x: "x \<in> set xs - set rows" and y: "y \<in> set rows"
  have "set (take n ?l) \<union> set (drop n ?l) = set xs" using l(1) by (metis append_take_drop_id set_append)
  with x y have "x \<in> set (drop n ?l)" and "y \<in> set (take n ?l)" by (auto simp: rows_def)
  moreover have "sorted (map (\<lambda>x. - f x) (take n ?l) @ map (\<lambda>x. - f x) (drop n ?l))"
    by (simp flip: map_append)
  ultimately have "f x \<le> f y" by (auto simp: sorted_append)
  moreover have "f x \<noteq> f y"
    using x y \<open>set rows \<subseteq> set xs\<close> assms(1) by (auto simp: distinct_map inj_on_def)
  ultimately show "f x < f y" by simp
qed

text \<open>
  C36: The direct message history that is read from the database holds the newest messages
  between the two users, at most 50 and all of them when there are no more, in increasing
  order of their ids, and no message of anybody else.
\<close>

theorem direct_messages_window:
  assumes "db_wf db" and "healthy env" and "db_list_direct_messages env db a b = (rc, rows)"
  shows "rc = 0 \<and> sorted_wrt (<) (map (\<lambda>r. sint (fst r)) rows) \<and>
    length rows = min 50 (length (conversation db a b)) \<and> set rows \<subseteq> set (conversation db a b) \<and>
    (\<forall>x \<in> set (conversation db a b) - set rows. \<forall>y \<in> set rows. sint (fst x) < sint (fst y))"
proof -
  have "distinct (map (\<lambda>r. sint (fst r)) (conversation db a b))"
    using conversation_distinct [OF assms(1), of a b]
    by (auto simp: distinct_map inj_on_def signed_word_eqI)
  from last_rows [OF this, where n = 50] assms(2,3) show ?thesis
    by (auto simp: db_list_direct_messages_def healthy_simps)
qed

theorem direct_messages_window_witness:
  "\<exists>db rows. length (conversation db 1 2) = 1 \<and>
     db_list_direct_messages sample_env db 1 2 = (0, rows) \<and> length rows = 1"
proof -
  let ?db = "sample_db\<lparr>dms := [\<lparr>d_id = 1, d_sender = 1, d_receiver = 2, d_content = ''hi'', d_created = 3\<rparr>]\<rparr>"
  have wf: "db_wf ?db" by (simp add: db_wf_def wf_defs sample_defs word_sless_alt)
  have h: "healthy sample_env" by (simp add: healthy_def sample_defs)
  obtain rc rows where run: "db_list_direct_messages sample_env ?db 1 2 = (rc, rows)" by fastforce
  have one: "length (conversation ?db 1 2) = 1" by (simp add: conversation_def sample_defs)
  from direct_messages_window [OF wf h run] run one show ?thesis
    by (intro exI [of _ ?db] exI [of _ rows]) simp
qed

text \<open>
  The channel history that is read from the database is the complete one, every message
  of the channel as often as it was saved, in the order of the times they were saved at.
\<close>

theorem channel_history_complete:
  assumes "healthy env" and "db_list_channel_messages env db c = (rc, rows)"
  shows "rc = 0 \<and> mset rows = mset (channel_log db c) \<and>
    sorted (map (\<lambda>(_, _, _, t). sint t) rows)"
  using assms by (auto simp: db_list_channel_messages_def healthy_simps split_def)

theorem channel_history_complete_witness:
  "\<exists>rows. db_list_channel_messages sample_env sample_db 1 = (0, rows) \<and> rows = []"
proof -
  have h: "healthy sample_env" by (simp add: healthy_def sample_defs)
  obtain rc rows where run: "db_list_channel_messages sample_env sample_db 1 = (rc, rows)" by fastforce
  from channel_history_complete [OF h run] run show ?thesis by (simp add: channel_log_def sample_defs)
qed

section \<open>Deleting a server\<close>

text \<open>
  C37: Deleting a server takes its row, its members, its channels and their messages with it,
  and nothing else: the rows of all other servers, their members, channels and messages stay
  as they are, and so do users, friends and direct messages.
\<close>

theorem delete_server_cascades:
  assumes "db_wf db" and "db_delete_server env db v u = (0, db')"
  shows "servers db' = filter (\<lambda>s. s_id s \<noteq> v) (servers db) \<and>
    members db' = filter (\<lambda>m. m_server m \<noteq> v) (members db) \<and>
    channels db' = filter (\<lambda>c. c_server c \<noteq> v) (channels db) \<and>
    messages db' = filter (\<lambda>g. \<forall>c \<in> set (channels db). c_server c = v \<longrightarrow> g_channel g \<noteq> c_id c) (messages db) \<and>
    v \<notin> server_ids db' \<and>
    (\<forall>c. c \<in> set (channels db) \<and> c_server c = v \<longrightarrow> channel_log db' (c_id c) = []) \<and>
    (\<forall>c. c \<in> set (channels db) \<and> c_server c \<noteq> v \<longrightarrow> channel_log db' (c_id c) = channel_log db (c_id c)) \<and>
    users db' = users db \<and> friends db' = friends db \<and> dms db' = dms db"
proof -
  have db': "db' = delete_server_rows v db"
    using assms(2) by (auto simp: db_delete_server_def split: if_splits)
  let ?gone = "set (map c_id (filter (\<lambda>c. c_server c = v) (channels db)))"
  have log: "channel_log db' c = (if c \<in> ?gone then [] else channel_log db c)" for c
  proof -
    have none: "message_rows us c g = []" if "g_channel g \<noteq> c" for us g
      using that by (auto simp: message_rows_def)
    have "concat (map (message_rows us c) (filter (\<lambda>g. g_channel g \<notin> gone) gs)) =
        (if c \<in> gone then [] else concat (map (message_rows us c) gs))" for us gs and gone :: "i64 set"
    proof (induction gs)
      case (Cons g gs)
      then show ?case by (cases "g_channel g = c"; cases "c \<in> gone") (simp_all add: none)
    qed simp
    then show ?thesis by (simp add: channel_log_def db' delete_server_rows_def Let_def)
  qed
  have ids: "distinct (map c_id (channels db))" using assms(1) by (simp add: db_wf_def channels_wf_def)
  have gone: "c_id c \<in> ?gone \<longleftrightarrow> c_server c = v" if "c \<in> set (channels db)" for c
    using that ids by (auto simp: distinct_map inj_on_def)
  have rows: "servers db' = filter (\<lambda>s. s_id s \<noteq> v) (servers db)"
      "members db' = filter (\<lambda>m. m_server m \<noteq> v) (members db)"
      "channels db' = filter (\<lambda>c. c_server c \<noteq> v) (channels db)"
      "messages db' = filter (\<lambda>g. \<forall>c \<in> set (channels db). c_server c = v \<longrightarrow> g_channel g \<noteq> c_id c) (messages db)"
    by (auto simp: db' delete_server_rows_def Let_def intro!: filter_cong)
  then have away: "v \<notin> server_ids db'" "users db' = users db" "friends db' = friends db" "dms db' = dms db"
    by (auto simp: db' delete_server_rows_def Let_def)
  show ?thesis using away rows gone by (simp add: log)
qed

theorem delete_server_cascades_witness:
  "\<exists>db'. db_delete_server sample_env sample_db 1 1 = (0, db') \<and> 1 \<notin> server_ids db'"
proof -
  have wf: "db_wf sample_db" by (simp add: db_wf_def wf_defs sample_defs word_sless_alt)
  have run: "db_delete_server sample_env sample_db 1 1 = (0, delete_server_rows 1 sample_db)"
    by (simp add: db_delete_server_def db_user_is_server_admin_def first_row_def step_rows_def
        write_ok_def sample_defs)
  from delete_server_cascades [OF wf run] run show ?thesis by blast
qed

end
