(* ===== verification/Responses.thy ===== *)
theory Responses
  imports DbLaws Receive
begin

text \<open>
  The server's state (\<^verbatim>\<open>server/include/server.h\<close>) and the reply functions of
  \<^verbatim>\<open>server/client_helper.c\<close>.

  \<open>srv\<close> is \<open>ServerContext\<close> with the first \<open>client_count\<close> entries of its client array as a
  list; a \<open>ClientNode*\<close> is an index into it. The static list counter of
  \<^verbatim>\<open>client_helper.c\<close> and the database belong to it, and \<open>out\<close> logs the packets handed to
  \<open>packet_send\<close> with the socket they are for. Fields that nothing reads (\<open>membership\<close>,
  \<open>tizcord_servers\<close>, \<open>current_client_index\<close>) are left out, and so are the guards against
  NULL contexts and databases: \<open>main\<close> does not start the loop without them.
\<close>

section \<open>The state of the server\<close>

record client =
  cid :: i64
  socket_fd :: int
  is_authenticated :: bool
  username :: string
  joined_server_count :: i32
  current_server_index :: i32
  receive_buffer :: "byte list"
  receive_offset :: nat

record srv =
  server_fd :: int
  clients :: "client list"
  database :: db
  next_list_id :: i32
  out :: "(int \<times> packet) list"

text \<open>\<open>packet_send (fd, &p)\<close>: the packet is logged, the result is the environment's.\<close>

definition send_to :: "env \<Rightarrow> int \<Rightarrow> packet \<Rightarrow> srv \<Rightarrow> int \<times> srv" where
  "send_to env fd p s = (if send_ok env (out s) fd then 0 else -1, s\<lparr>out := out s @ [(fd, p)]\<rparr>)"

text \<open>The call where its result is ignored.\<close>

definition post :: "env \<Rightarrow> int \<Rightarrow> packet \<Rightarrow> srv \<Rightarrow> srv" where
  "post env fd p s = snd (send_to env fd p s)"

section \<open>Replies\<close>

definition allocate_list_id :: "srv \<Rightarrow> i32 \<times> srv" where
  "allocate_list_id s =
     (let n = (if next_list_id s \<le>s 0 then 1 else next_list_id s) in (n, s\<lparr>next_list_id := n + 1\<rparr>))"

definition send_packet_to_client :: "env \<Rightarrow> int \<Rightarrow> packet \<Rightarrow> srv \<Rightarrow> int \<times> srv" where
  "send_packet_to_client env fd p s = (if fd < 0 then (-1, s) else send_to env fd p s)"

text \<open>A packet whose type is the integer \<open>t\<close>, zero but for what is given.\<close>

definition plain_packet :: "payload \<Rightarrow> packet" where
  "plain_packet pl = \<lparr>sender_id = 0, list_id = 0, list_index = 0, list_total = 0, list_frame = 0,
     payload = pl, timestamp = 0\<rparr>"

definition action_payload :: "i32 \<Rightarrow> i32 \<Rightarrow> i32 \<Rightarrow> string option \<Rightarrow> payload" where
  "action_payload t action status_code message =
     (case packet_kind_of t of
        Some PACKET_AUTH \<Rightarrow> Auth (zero_auth\<lparr>auth_action := action, auth_status := status_code\<rparr>)
      | Some PACKET_DM \<Rightarrow> Dm (zero_dm\<lparr>dm_action := action, dm_status := status_code\<rparr>)
      | Some PACKET_SERVER \<Rightarrow> Server (zero_server\<lparr>srv_action := action, srv_status := status_code\<rparr>)
      | Some PACKET_CHANNEL \<Rightarrow> Channel (zero_channel\<lparr>ch_action := action, ch_status := status_code\<rparr>)
      | Some PACKET_SOCIAL \<Rightarrow> Social (zero_social\<lparr>soc_action := action, soc_status_code := status_code\<rparr>)
      | None \<Rightarrow> System t (zero_system\<lparr>sys_action := action, sys_status := status_code,
          sys_message := (case message of None \<Rightarrow> [] | Some m \<Rightarrow> strncpy0 (SYSTEM_MESSAGE_LEN - 1) m)\<rparr>))"

definition send_action_response ::
  "env \<Rightarrow> int \<Rightarrow> i32 \<Rightarrow> i32 \<Rightarrow> i32 \<Rightarrow> string option \<Rightarrow> srv \<Rightarrow> int \<times> srv" where
  "send_action_response env fd t action status_code message s =
     send_packet_to_client env fd (plain_packet (action_payload t action status_code message)) s"

definition send_list_item_response :: "env \<Rightarrow> int \<Rightarrow> packet \<Rightarrow> srv \<Rightarrow> int \<times> srv" where
  "send_list_item_response env fd p s = send_packet_to_client env fd p s"

text \<open>The payload of an empty list, and of a list's item; other packet types have none.\<close>

definition empty_payload :: "i32 \<Rightarrow> i32 \<Rightarrow> payload option" where
  "empty_payload t action =
     (case packet_kind_of t of
        Some PACKET_SERVER \<Rightarrow> Some (Server (zero_server\<lparr>srv_action := action, srv_status := resp RESP_DONE\<rparr>))
      | Some PACKET_CHANNEL \<Rightarrow> Some (Channel (zero_channel\<lparr>ch_action := action, ch_status := resp RESP_DONE\<rparr>))
      | Some PACKET_SOCIAL \<Rightarrow> Some (Social (zero_social\<lparr>soc_action := action, soc_status_code := resp RESP_DONE\<rparr>))
      | _ \<Rightarrow> None)"

definition item_payload :: "i32 \<Rightarrow> i32 \<Rightarrow> string \<Rightarrow> i64 option \<Rightarrow> i32 option \<Rightarrow> payload option" where
  "item_payload t action name i cnt =
     (let i0 = (case i of None \<Rightarrow> 0 | Some i \<Rightarrow> i);
          c0 = (case cnt of None \<Rightarrow> 0 | Some c \<Rightarrow> c);
          name0 = strncpy0 (MAX_NAME_LEN - 1) name in
      case packet_kind_of t of
        Some PACKET_SERVER \<Rightarrow> Some (Server (zero_server\<lparr>srv_action := action, srv_status := resp RESP_OK,
          srv_server_id := i0, srv_member_count := c0, srv_name := name0\<rparr>))
      | Some PACKET_CHANNEL \<Rightarrow> Some (Channel (zero_channel\<lparr>ch_action := action, ch_status := resp RESP_OK,
          ch_channel_id := i0, ch_name := name0\<rparr>))
      | Some PACKET_SOCIAL \<Rightarrow> Some (Social (zero_social\<lparr>soc_action := action, soc_status_code := resp RESP_OK,
          soc_target := i0, soc_username := name0\<rparr>))
      | _ \<Rightarrow> None)"

definition frame_of :: "nat \<Rightarrow> nat \<Rightarrow> list_frame_type" where
  "frame_of n i = (if n = 1 then LIST_FRAME_SINGLE else if i = 0 then LIST_FRAME_START
     else if i = n - 1 then LIST_FRAME_END else LIST_FRAME_MIDDLE)"

definition list_packet :: "i32 \<Rightarrow> i32 \<Rightarrow> i32 \<Rightarrow> list_frame_type \<Rightarrow> payload \<Rightarrow> packet" where
  "list_packet lid index n frame pl = (plain_packet pl)\<lparr>list_id := lid, list_index := index,
     list_total := n, list_frame := frame_code frame\<rparr>"

text \<open>The loop over the items from index \<open>i\<close>; it stops at the first failure.\<close>

fun send_items :: "env \<Rightarrow> int \<Rightarrow> i32 \<Rightarrow> i32 \<Rightarrow> i32 \<Rightarrow> nat \<Rightarrow> nat \<Rightarrow>
    (string \<times> i64 option \<times> i32 option) list \<Rightarrow> srv \<Rightarrow> int \<times> srv" where
  "send_items env fd t action lid n i [] s = (0, s)"
| "send_items env fd t action lid n i ((name, ident, cnt) # items) s =
     (case item_payload t action name ident cnt of
        None \<Rightarrow> (-1, s)
      | Some pl \<Rightarrow>
          (case send_packet_to_client env fd (list_packet lid (of_nat i) (of_nat n) (frame_of n i) pl) s of
             (r, s') \<Rightarrow> if r \<noteq> 0 then (-1, s')
                        else send_items env fd t action lid n (Suc i) items s'))"

text \<open>
  \<open>items\<close> zips the C arrays \<open>items\<close>, \<open>item_ids\<close> and \<open>item_counts\<close>; the entries of an
  absent array are \<open>None\<close>.
\<close>

definition send_list_response :: "env \<Rightarrow> int \<Rightarrow> i32 \<Rightarrow> i32 \<Rightarrow>
    (string \<times> i64 option \<times> i32 option) list \<Rightarrow> srv \<Rightarrow> int \<times> srv" where
  "send_list_response env fd t action items s =
     (if 2 ^ 31 - 1 < length items then (-1, s)
      else case allocate_list_id s of
        (lid, s1) \<Rightarrow>
          if items = [] then
            (case empty_payload t action of
               None \<Rightarrow> (-1, s1)
             | Some pl \<Rightarrow> send_packet_to_client env fd (list_packet lid (-1) 0 LIST_FRAME_SINGLE pl) s1)
          else send_items env fd t action lid (length items) 0 items s1)"

definition send_list_end_response :: "env \<Rightarrow> int \<Rightarrow> i32 \<Rightarrow> srv \<Rightarrow> int \<times> srv" where
  "send_list_end_response env fd t s =
     (case packet_kind_of t of
        Some PACKET_SERVER \<Rightarrow> send_packet_to_client env fd (list_packet 0 (-1) (-1) LIST_FRAME_END
          (Server (zero_server\<lparr>srv_status := resp RESP_DONE\<rparr>))) s
      | Some PACKET_CHANNEL \<Rightarrow> send_packet_to_client env fd (list_packet 0 (-1) (-1) LIST_FRAME_END
          (Channel (zero_channel\<lparr>ch_status := resp RESP_DONE\<rparr>))) s
      | Some PACKET_SOCIAL \<Rightarrow> send_packet_to_client env fd (list_packet 0 (-1) (-1) LIST_FRAME_END
          (Social (zero_social\<lparr>soc_status_code := resp RESP_DONE\<rparr>))) s
      | _ \<Rightarrow> (-1, s))"

section \<open>Operations that only speak\<close>

text \<open>
  Replying and notifying change neither the clients nor the database: they send packets and
  may use up list ids. \<open>speaks s s'\<close> is that relation, and the interface \<open>speaker\<close> is an
  operation within it; loops of such operations are such operations.
\<close>

definition speaks :: "srv \<Rightarrow> srv \<Rightarrow> bool" where
  "speaks s s' \<longleftrightarrow> clients s' = clients s \<and> database s' = database s \<and> server_fd s' = server_fd s \<and>
     (\<exists>ps. out s' = out s @ ps)"

lemma speaks_refl [simp]: "speaks s s"
  by (simp add: speaks_def)

lemma speaks_trans: "speaks s t \<Longrightarrow> speaks t u \<Longrightarrow> speaks s u"
  by (auto simp: speaks_def)

lemma speaksD:
  "speaks s s' \<Longrightarrow> clients s' = clients s" "speaks s s' \<Longrightarrow> database s' = database s"
  "speaks s s' \<Longrightarrow> server_fd s' = server_fd s"
  by (simp_all add: speaks_def)

locale speaker =
  fixes say :: "'a \<Rightarrow> srv \<Rightarrow> srv"
  assumes quiet: "speaks s (say x s)"
begin

lemma quiet_fold: "speaks s (fold say xs s)"
  by (rule fold_invariant_list [where P = "speaks s"]) (auto intro: speaks_trans quiet)

lemma clients_say [simp]: "clients (say x s) = clients s" "clients (fold say xs s) = clients s"
  by (rule speaksD(1) [OF quiet], rule speaksD(1) [OF quiet_fold])

lemma database_say [simp]: "database (say x s) = database s" "database (fold say xs s) = database s"
  by (rule speaksD(2) [OF quiet], rule speaksD(2) [OF quiet_fold])

end

lemma speaks_send_to: "speaks s (snd (send_to env fd p s))"
  by (simp add: send_to_def speaks_def)

lemma speaks_post: "speaks s (post env fd p s)"
  by (simp add: post_def speaks_send_to)

interpretation posting: speaker "\<lambda>(fd, p). post env fd p" for env
  by unfold_locales (simp add: speaks_post split: prod.split)

lemma speaks_packet: "speaks s (snd (send_packet_to_client env fd p s))"
  by (simp add: send_packet_to_client_def speaks_send_to)

lemma speaks_action: "speaks s (snd (send_action_response env fd t a c m s))"
  by (simp add: send_action_response_def speaks_packet)

lemma speaks_allocate: "speaks s (snd (allocate_list_id s))"
  by (simp add: allocate_list_id_def Let_def speaks_def)

lemma speaks_items: "speaks s (snd (send_items env fd t a lid n i items s))"
proof (induction items arbitrary: i s)
  case (Cons x items)
  obtain name ident cnt where x: "x = (name, ident, cnt)" by (cases x)
  show ?case
  proof (cases "item_payload t a name ident cnt")
    case (Some pl)
    obtain r s' where sent: "send_packet_to_client env fd
        (list_packet lid (of_nat i) (of_nat n) (frame_of n i) pl) s = (r, s')" by fastforce
    with speaks_packet [of s env fd "list_packet lid (of_nat i) (of_nat n) (frame_of n i) pl"]
    have "speaks s s'" by simp
    with Some sent x Cons.IH [of s' "Suc i"] show ?thesis by (auto intro: speaks_trans)
  qed (simp add: x)
qed simp

lemma speaks_list: "speaks s (snd (send_list_response env fd t a items s))"
proof -
  obtain lid s1 where 1: "allocate_list_id s = (lid, s1)" by fastforce
  with speaks_allocate [of s] have "speaks s s1" by simp
  then show ?thesis
    using speaks_packet speaks_items
    by (auto simp: send_list_response_def 1 split: option.split intro: speaks_trans)
qed

section \<open>What is sent\<close>

lemma kind_eval [simp]:
  "packet_kind_of 0 = Some PACKET_AUTH" "packet_kind_of 1 = Some PACKET_DM"
  "packet_kind_of 2 = Some PACKET_SERVER" "packet_kind_of 3 = Some PACKET_CHANNEL"
  "packet_kind_of 4 = Some PACKET_SOCIAL"
  by (simp_all add: enum_of_def)

text \<open>
  A list id is positive, whatever the counter holds, so that a list's packets can be
  told from packets outside a list, whose list id is 0.
\<close>

theorem list_id_positive: "0 <s fst (allocate_list_id s)"
  by (auto simp: allocate_list_id_def Let_def word_sless_alt word_sle_eq)

text \<open>The packets of a list's items.\<close>

definition item_packets :: "i32 \<Rightarrow> i32 \<Rightarrow> i32 \<Rightarrow> nat \<Rightarrow> nat \<Rightarrow>
    (string \<times> i64 option \<times> i32 option) list \<Rightarrow> packet list" where
  "item_packets t action lid n i items =
     map (\<lambda>(j, name, ident, cnt). list_packet lid (of_nat j) (of_nat n) (frame_of n j)
           (the (item_payload t action name ident cnt)))
       (enumerate i items)"

lemma send_items_sent:
  assumes "\<And>log. send_ok env log fd" and "0 \<le> fd"
    and "t \<in> {packet_kind_code PACKET_SERVER, packet_kind_code PACKET_CHANNEL, packet_kind_code PACKET_SOCIAL}"
  shows "send_items env fd t a lid n i items s =
    (0, s\<lparr>out := out s @ map (Pair fd) (item_packets t a lid n i items)\<rparr>)"
  using assms(1,2)
proof (induction items arbitrary: i s)
  case (Cons x items)
  obtain name ident cnt where x: "x = (name, ident, cnt)" by (cases x)
  have "item_payload t a name ident cnt \<noteq> None"
    using assms(3) by (auto simp: item_payload_def Let_def)
  then obtain pl where "item_payload t a name ident cnt = Some pl" by blast
  with Cons x show ?case
    by (simp add: send_packet_to_client_def send_to_def item_packets_def)
qed (simp add: item_packets_def)

text \<open>
  A list reply that can be sent is one complete list: a packet for every item, in
  order, all with one positive list id, the item's index and the number of items, framed as
  SINGLE when it is alone and else as START, MIDDLE and END.
\<close>

theorem list_response_stream:
  assumes "\<forall>log. send_ok env log fd" and "0 \<le> fd" and "items \<noteq> []" and "length items < 2 ^ 31"
    and "k \<in> {PACKET_SERVER, PACKET_CHANNEL, PACKET_SOCIAL}"
    and "send_list_response env fd (packet_kind_code k) a items s = (r, s')"
  shows "\<exists>lid ps. r = 0 \<and> out s' = out s @ map (Pair fd) ps \<and> 0 <s lid \<and> length ps = length items \<and>
    (\<forall>i < length items. packet_type (ps ! i) = packet_kind_code k \<and> list_id (ps ! i) = lid \<and>
       sint (list_index (ps ! i)) = int i \<and> sint (list_total (ps ! i)) = int (length items) \<and>
       list_frame (ps ! i) = frame_code
         (if length items = 1 then LIST_FRAME_SINGLE else if i = 0 then LIST_FRAME_START
          else if i = length items - 1 then LIST_FRAME_END else LIST_FRAME_MIDDLE))"
proof -
  obtain lid s1 where alloc: "allocate_list_id s = (lid, s1)" by fastforce
  let ?t = "packet_kind_code k"
  let ?ps = "item_packets ?t a lid (length items) 0 items"
  have t: "?t \<in> {packet_kind_code PACKET_SERVER, packet_kind_code PACKET_CHANNEL,
      packet_kind_code PACKET_SOCIAL}" using assms(5) by blast
  have small: "sint (word_of_nat i :: i32) = int i" if "i < 2 ^ 31" for i
    using that by (simp add: signed_of_nat signed_take_bit_int_eq_self)
  have "out s1 = out s" and "0 <s lid"
    using alloc list_id_positive [of s] by (auto simp: allocate_list_id_def Let_def)
  moreover from this assms have "r = 0" and "out s' = out s @ map (Pair fd) ?ps"
    using send_items_sent [OF assms(1)[rule_format] assms(2) t, of a lid "length items" 0 items s1]
    by (auto simp: send_list_response_def alloc)
  moreover have "packet_type (?ps ! i) = ?t \<and> list_id (?ps ! i) = lid \<and>
      sint (list_index (?ps ! i)) = int i \<and> sint (list_total (?ps ! i)) = int (length items) \<and>
      list_frame (?ps ! i) = frame_code (frame_of (length items) i)" if "i < length items" for i
  proof -
    obtain name ident cnt where "items ! i = (name, ident, cnt)" by (cases "items ! i")
    then have p: "?ps ! i = list_packet lid (of_nat i) (of_nat (length items)) (frame_of (length items) i)
        (the (item_payload ?t a name ident cnt))"
      using that by (simp add: item_packets_def nth_enumerate_eq)
    have "payload_type (the (item_payload ?t a name ident cnt)) = ?t"
      using assms(5) by (auto simp: item_payload_def Let_def)
    with p small [of i] small [of "length items"] assms(4) that show ?thesis
      by (simp add: list_packet_def plain_packet_def packet_type_def)
  qed
  ultimately show ?thesis
    by (intro exI [of _ lid] exI [of _ ?ps]) (simp add: item_packets_def frame_of_def)
qed

definition sample_srv :: srv where
  "sample_srv = \<lparr>server_fd = 3, clients =
     [\<lparr>cid = 1, socket_fd = 4, is_authenticated = True, username = ''ann'', joined_server_count = 0,
       current_server_index = -1, receive_buffer = replicate 624 0, receive_offset = 0\<rparr>,
      \<lparr>cid = 0, socket_fd = 5, is_authenticated = False, username = [], joined_server_count = 0,
       current_server_index = -1, receive_buffer = replicate 624 0, receive_offset = 0\<rparr>],
     database = sample_db, next_list_id = 1, out = []\<rparr>"

theorem list_response_stream_witness:
  "\<exists>s'. send_list_response sample_env 4 2 4 [(''a'', Some 1, None), (''b'', Some 2, None)] sample_srv = (0, s') \<and>
     length (out s') = 2"
proof -
  let ?items = "[(''a'', Some 1, None), (''b'', Some (2 :: i64), None)]"
  obtain r s' where run: "send_list_response sample_env 4 (packet_kind_code PACKET_SERVER) 4 ?items sample_srv = (r, s')"
    by fastforce
  have ok: "\<forall>log. send_ok sample_env log 4" by (simp add: sample_defs)
  from list_response_stream [OF ok _ _ _ _ run] run show ?thesis
    by (auto simp: sample_srv_def)
qed

end
