(* ===== verification/TizServer.thy ===== *)
theory TizServer
  imports Responses
begin

text \<open>
  The handlers of server requests, \<^verbatim>\<open>server/tizcord_server.c\<close>: joining, leaving, creating
  and deleting servers, the lists of servers, channels and members, kicking, and the
  refreshed member lists that clients get without having asked. A handler takes the index
  of the client that sent the request.
\<close>

section \<open>Collecting rows\<close>

abbreviation (input) MAX_SERVERS :: nat where "MAX_SERVERS \<equiv> 16"
abbreviation (input) MAX_CHANNELS :: nat where "MAX_CHANNELS \<equiv> 16"
abbreviation (input) MAX_SERVER_MEMBERS :: nat where "MAX_SERVER_MEMBERS \<equiv> 64"

text \<open>
  The accumulators of the callbacks, as the entries they hand to \<open>send_list_response\<close>; rows
  beyond their capacity are dropped. (The flag \<open>truncated\<close> is never read.)
\<close>

type_synonym entry = "string \<times> i64 option \<times> i32 option"

definition collect_server_list_item :: "i64 \<times> string \<times> i32 \<Rightarrow> entry list \<Rightarrow> entry list" where
  "collect_server_list_item row acc =
     (case row of (server_id, name, n) \<Rightarrow>
        if MAX_SERVERS \<le> length acc then acc
        else acc @ [(strncpy0 (MAX_NAME_LEN - 1) name, Some server_id, Some n)])"

definition collect_channel_list_item :: "i64 \<times> string \<Rightarrow> entry list \<Rightarrow> entry list" where
  "collect_channel_list_item row acc =
     (case row of (channel_id, name) \<Rightarrow>
        if MAX_CHANNELS \<le> length acc then acc
        else acc @ [(strncpy0 (MAX_NAME_LEN - 1) name, Some channel_id, None)])"

definition MEMBER_FLAG_ADMIN :: i32 where "MEMBER_FLAG_ADMIN = 1"
definition MEMBER_FLAG_ONLINE :: i32 where "MEMBER_FLAG_ONLINE = 2"

text \<open>A user is online when some connected client is logged in as them.\<close>

definition client_online :: "client list \<Rightarrow> i64 \<Rightarrow> bool" where
  "client_online cs user_id \<longleftrightarrow> list_ex (\<lambda>c. 0 < socket_fd c \<and> is_authenticated c \<and> cid c = user_id) cs"

definition collect_member_list_item :: "client list \<Rightarrow> i64 \<times> string \<times> bool \<Rightarrow> entry list \<Rightarrow> entry list" where
  "collect_member_list_item cs row acc =
     (case row of (user_id, name, is_admin) \<Rightarrow>
        if MAX_SERVER_MEMBERS \<le> length acc then acc
        else
          let flags = (if is_admin then MEMBER_FLAG_ADMIN else 0);
              flags = (if client_online cs user_id then or flags MEMBER_FLAG_ONLINE else flags)
          in acc @ [(strncpy0 (MAX_NAME_LEN - 1) name, Some user_id, Some flags)])"

section \<open>Replies\<close>

text \<open>\<open>send_action_response (client->socket_fd, PACKET_SERVER, ...)\<close>, its result unused.\<close>

definition reply_server :: "env \<Rightarrow> nat \<Rightarrow> server_action \<Rightarrow> response_code \<Rightarrow> srv \<Rightarrow> srv" where
  "reply_server env i action code s =
     snd (send_action_response env (socket_fd (clients s ! i)) (packet_kind_code PACKET_SERVER)
       (server_code action) (resp code) None s)"

definition reply_server_list :: "env \<Rightarrow> nat \<Rightarrow> server_action \<Rightarrow> entry list \<Rightarrow> srv \<Rightarrow> srv" where
  "reply_server_list env i action items s =
     (case send_list_response env (socket_fd (clients s ! i)) (packet_kind_code PACKET_SERVER)
             (server_code action) items s of
        (r, s') \<Rightarrow> if r \<noteq> 0 then reply_server env i action RESP_ERR_INTERNAL s' else s')"

section \<open>Lists\<close>

definition list_tizcord_servers :: "env \<Rightarrow> nat \<Rightarrow> srv \<Rightarrow> srv" where
  "list_tizcord_servers env i s =
     (if \<not> is_authenticated (clients s ! i) then reply_server env i SERVER_LIST RESP_ERR_UNAUTHORIZED s
      else case db_list_servers env (database s) of
        (rc, rows) \<Rightarrow>
          if rc \<noteq> 0 then reply_server env i SERVER_LIST RESP_ERR_DB s
          else reply_server_list env i SERVER_LIST (fold collect_server_list_item rows []) s)"

definition list_tizcord_channels :: "env \<Rightarrow> nat \<Rightarrow> i64 \<Rightarrow> srv \<Rightarrow> srv" where
  "list_tizcord_channels env i server_id s =
     (if server_id \<le>s 0 then reply_server env i SERVER_LIST_CHANNELS RESP_ERR_INVALID s
      else if \<not> is_authenticated (clients s ! i)
        then reply_server env i SERVER_LIST_CHANNELS RESP_ERR_UNAUTHORIZED s
      else case db_list_server_channels env (database s) server_id of
        (rc, rows) \<Rightarrow>
          if rc \<noteq> 0 then reply_server env i SERVER_LIST_CHANNELS RESP_ERR_DB s
          else reply_server_list env i SERVER_LIST_CHANNELS (fold collect_channel_list_item rows []) s)"

text \<open>Whose member list a client asked for last is where it is (\<open>current_server_index\<close>).\<close>

definition list_members :: "env \<Rightarrow> nat \<Rightarrow> i64 \<Rightarrow> srv \<Rightarrow> srv" where
  "list_members env i server_id s =
     (if server_id \<le>s 0 then reply_server env i SERVER_LIST_MEMBERS RESP_ERR_INVALID s
      else if \<not> is_authenticated (clients s ! i)
        then reply_server env i SERVER_LIST_MEMBERS RESP_ERR_UNAUTHORIZED s
      else
        let s1 = s\<lparr>clients := (clients s)[i := (clients s ! i)\<lparr>current_server_index := to_i32 server_id\<rparr>]\<rparr> in
        case db_list_server_members env (database s1) server_id of
          (rc, rows) \<Rightarrow>
            if rc \<noteq> 0 then reply_server env i SERVER_LIST_MEMBERS RESP_ERR_DB s1
            else reply_server_list env i SERVER_LIST_MEMBERS
                   (fold (collect_member_list_item (clients s1)) rows []) s1)"

definition list_joined_servers :: "env \<Rightarrow> nat \<Rightarrow> srv \<Rightarrow> srv" where
  "list_joined_servers env i s =
     (if \<not> is_authenticated (clients s ! i) then reply_server env i SERVER_LIST_JOINED RESP_ERR_UNAUTHORIZED s
      else case db_list_joined_servers env (database s) (cid (clients s ! i)) of
        (rc, rows) \<Rightarrow>
          if rc \<noteq> 0 then reply_server env i SERVER_LIST_JOINED RESP_ERR_DB s
          else reply_server_list env i SERVER_LIST_JOINED (fold collect_server_list_item rows []) s)"

definition get_tizcord_server_info :: "env \<Rightarrow> nat \<Rightarrow> i64 \<Rightarrow> srv \<Rightarrow> srv" where
  "get_tizcord_server_info env i server_id s =
     list_members env i server_id (list_tizcord_channels env i server_id s)"

section \<open>Refreshed member lists\<close>

text \<open>The member list goes to the clients that are at the server.\<close>

definition refresh_client :: "env \<Rightarrow> i64 \<Rightarrow> nat \<Rightarrow> srv \<Rightarrow> srv" where
  "refresh_client env server_id i s =
     (let c = clients s ! i in
      if socket_fd c \<le> 0 \<or> \<not> is_authenticated c then s
      else if to_i64 (current_server_index c) \<noteq> server_id then s
      else list_members env i server_id s)"

definition notify_server_member_list :: "env \<Rightarrow> i64 \<Rightarrow> srv \<Rightarrow> srv" where
  "notify_server_member_list env server_id s =
     (if server_id \<le>s 0 then s else fold (refresh_client env server_id) [0..<length (clients s)] s)"

definition refresh_joined_server_cb :: "env \<Rightarrow> i64 \<times> string \<times> i32 \<Rightarrow> srv \<Rightarrow> srv" where
  "refresh_joined_server_cb env row s = (case row of (server_id, _, _) \<Rightarrow> notify_server_member_list env server_id s)"

definition notify_server_member_lists_for_user :: "env \<Rightarrow> i64 \<Rightarrow> srv \<Rightarrow> srv" where
  "notify_server_member_lists_for_user env user_id s =
     (if user_id \<le>s 0 then s
      else fold (refresh_joined_server_cb env) (snd (db_list_joined_servers env (database s) user_id)) s)"

section \<open>Joining, leaving, creating, deleting, kicking\<close>

definition join_tizcord_server :: "env \<Rightarrow> nat \<Rightarrow> i64 \<Rightarrow> srv \<Rightarrow> srv" where
  "join_tizcord_server env i server_id s =
     (if server_id \<le>s 0 then reply_server env i SERVER_JOIN RESP_ERR_INVALID s
      else if \<not> is_authenticated (clients s ! i) then reply_server env i SERVER_JOIN RESP_ERR_UNAUTHORIZED s
      else case db_join_server env (database s) server_id (cid (clients s ! i)) False of
        (rc, db) \<Rightarrow>
          let s1 = s\<lparr>database := db\<rparr> in
          if rc = 0 then notify_server_member_list env server_id (reply_server env i SERVER_JOIN RESP_OK s1)
          else reply_server env i SERVER_JOIN RESP_ERR_DB s1)"

definition leave_tizcord_server :: "env \<Rightarrow> nat \<Rightarrow> i64 \<Rightarrow> srv \<Rightarrow> srv" where
  "leave_tizcord_server env i server_id s =
     (if server_id \<le>s 0 then reply_server env i SERVER_LEAVE RESP_ERR_INVALID s
      else if \<not> is_authenticated (clients s ! i) then reply_server env i SERVER_LEAVE RESP_ERR_UNAUTHORIZED s
      else case db_leave_server env (database s) server_id (cid (clients s ! i)) of
        (rc, db) \<Rightarrow>
          let s1 = s\<lparr>database := db\<rparr> in
          if rc = 0 then
            let s2 = (if to_i64 (current_server_index (clients s1 ! i)) = server_id
                      then s1\<lparr>clients := (clients s1)[i := (clients s1 ! i)\<lparr>current_server_index := -1\<rparr>]\<rparr>
                      else s1)
            in notify_server_member_list env server_id (reply_server env i SERVER_LEAVE RESP_OK s2)
          else reply_server env i SERVER_LEAVE RESP_ERR_DB s1)"

definition create_tizcord_server :: "env \<Rightarrow> nat \<Rightarrow> string \<Rightarrow> srv \<Rightarrow> srv" where
  "create_tizcord_server env i server_name s =
     (if server_name = [] then reply_server env i SERVER_CREATE RESP_ERR_INVALID s
      else if \<not> is_authenticated (clients s ! i) then reply_server env i SERVER_CREATE RESP_ERR_UNAUTHORIZED s
      else case db_create_server env (database s) server_name (cid (clients s ! i)) of
        (rc, db) \<Rightarrow>
          reply_server env i SERVER_CREATE (if rc = 0 then RESP_OK else RESP_ERR_DB) (s\<lparr>database := db\<rparr>))"

definition delete_tizcord_server :: "env \<Rightarrow> nat \<Rightarrow> i64 \<Rightarrow> srv \<Rightarrow> srv" where
  "delete_tizcord_server env i server_id s =
     (if server_id \<le>s 0 then reply_server env i SERVER_DELETE RESP_ERR_INVALID s
      else if \<not> is_authenticated (clients s ! i) then reply_server env i SERVER_DELETE RESP_ERR_UNAUTHORIZED s
      else if db_user_is_server_admin env (database s) server_id (cid (clients s ! i)) \<noteq> Some True
        then reply_server env i SERVER_DELETE RESP_ERR_UNAUTHORIZED s
      else case db_delete_server env (database s) server_id (cid (clients s ! i)) of
        (rc, db) \<Rightarrow>
          reply_server env i SERVER_DELETE (if rc = 0 then RESP_OK else RESP_ERR_DB) (s\<lparr>database := db\<rparr>))"

definition kick_server_member :: "env \<Rightarrow> nat \<Rightarrow> i64 \<Rightarrow> i64 \<Rightarrow> srv \<Rightarrow> srv" where
  "kick_server_member env i server_id target_user_id s =
     (if server_id \<le>s 0 \<or> target_user_id \<le>s 0 then reply_server env i SERVER_KICK_MEMBER RESP_ERR_INVALID s
      else if \<not> is_authenticated (clients s ! i)
        then reply_server env i SERVER_KICK_MEMBER RESP_ERR_UNAUTHORIZED s
      else if db_user_is_server_admin env (database s) server_id (cid (clients s ! i)) \<noteq> Some True
        then reply_server env i SERVER_KICK_MEMBER RESP_ERR_UNAUTHORIZED s
      else case db_kick_server_member env (database s) server_id target_user_id of
        (rc, db) \<Rightarrow>
          reply_server env i SERVER_KICK_MEMBER (if rc = 0 then RESP_OK else RESP_ERR_DB) (s\<lparr>database := db\<rparr>))"

section \<open>Dispatch\<close>

definition handle_server_packet :: "env \<Rightarrow> nat \<Rightarrow> server_payload \<Rightarrow> srv \<Rightarrow> srv" where
  "handle_server_packet env i p s =
     (let server_id = srv_server_id p; target_user_id = srv_target p in
      case server_action_of (srv_action p) of
        Some SERVER_JOIN \<Rightarrow> join_tizcord_server env i server_id s
      | Some SERVER_LEAVE \<Rightarrow> leave_tizcord_server env i server_id s
      | Some SERVER_CREATE \<Rightarrow> create_tizcord_server env i (srv_name p) s
      | Some SERVER_DELETE \<Rightarrow> delete_tizcord_server env i server_id s
      | Some SERVER_LIST \<Rightarrow> list_tizcord_servers env i s
      | Some SERVER_LIST_CHANNELS \<Rightarrow> list_tizcord_channels env i server_id s
      | Some SERVER_LIST_MEMBERS \<Rightarrow> list_members env i server_id s
      | Some SERVER_LIST_JOINED \<Rightarrow> list_joined_servers env i s
      | Some SERVER_KICK_MEMBER \<Rightarrow> kick_server_member env i server_id target_user_id s
      | None \<Rightarrow> snd (send_action_response env (socket_fd (clients s ! i)) (packet_kind_code PACKET_SERVER)
          (srv_action p) (resp RESP_ERR_INVALID) None s))"

end
