(* ===== verification/TizServerLaws.thy ===== *)
theory TizServerLaws
  imports TizServer
begin

text \<open>
  What the server handlers leave alone, what each does to the database, and who may make
  them do it. The notifications are interpretations of \<open>speaker\<close>; the rights rest on the
  \<open>membership\<close> interface of the database.
\<close>

section \<open>Notifications only speak\<close>

lemma to_i32_to_i64 [simp]: "to_i32 (to_i64 x) = x"
  by (rule bit_word_eqI) (simp add: bit_simps)

lemma speaks_reply: "speaks s (reply_server env i a c s)"
  by (simp add: reply_server_def speaks_action)

lemma speaks_reply_list: "speaks s (reply_server_list env i a items s)"
proof -
  obtain r s' where run: "send_list_response env (socket_fd (clients s ! i))
      (packet_kind_code PACKET_SERVER) (server_code a) items s = (r, s')" by fastforce
  with speaks_list [of s env "socket_fd (clients s ! i)" "packet_kind_code PACKET_SERVER"]
  have "speaks s s'" by (metis snd_conv)
  then show ?thesis
    by (simp add: reply_server_list_def run del: packet_kind_code.simps)
      (blast intro: speaks_trans speaks_reply)
qed

lemma list_members_speaks:
  assumes "(clients s ! i)\<lparr>current_server_index := to_i32 v\<rparr> = clients s ! i"
  shows "speaks s (list_members env i v s)"
  using assms
  by (auto simp: list_members_def Let_def speaks_reply speaks_reply_list split: prod.split)

lemma refresh_speaks: "speaks s (refresh_client env v i s)"
proof (cases "to_i64 (current_server_index (clients s ! i)) = v")
  case True
  then have "(clients s ! i)\<lparr>current_server_index := to_i32 v\<rparr> = clients s ! i" by auto
  then show ?thesis by (simp add: refresh_client_def Let_def list_members_speaks)
qed (simp add: refresh_client_def Let_def)

interpretation refresh: speaker "refresh_client env v" for env v
  by unfold_locales (rule refresh_speaks)

interpretation notify_list: speaker "notify_server_member_list env" for env
  by unfold_locales (simp add: notify_server_member_list_def refresh.quiet_fold)

interpretation joined_cb: speaker "refresh_joined_server_cb env" for env
  by unfold_locales (simp add: refresh_joined_server_cb_def notify_list.quiet split: prod.split)

interpretation notify_user: speaker "notify_server_member_lists_for_user env" for env
  by unfold_locales (simp add: notify_server_member_lists_for_user_def joined_cb.quiet_fold)

section \<open>Sessions are left alone\<close>

text \<open>All of a client but the server it looks at.\<close>

definition session :: "client \<Rightarrow> i64 \<times> int \<times> bool \<times> string \<times> byte list \<times> nat" where
  "session c = (cid c, socket_fd c, is_authenticated c, username c, receive_buffer c, receive_offset c)"

definition sessions :: "srv \<Rightarrow> (i64 \<times> int \<times> bool \<times> string \<times> byte list \<times> nat) list" where
  "sessions s = map session (clients s)"

lemma session_index [simp]: "session (c\<lparr>current_server_index := x\<rparr>) = session c"
  by (simp add: session_def)

lemma sessions_update [simp]:
  "sessions (t\<lparr>clients := (clients s)[i := (clients s ! i)\<lparr>current_server_index := x\<rparr>]\<rparr>) = sessions s"
proof (cases "i < length (clients s)")
  case True
  then have "(map session (clients s))[i := session (clients s ! i)] = map session (clients s)"
    by (metis length_map list_update_id nth_map)
  then show ?thesis by (simp add: sessions_def map_update)
qed (simp add: sessions_def list_update_beyond)

lemma sessions_database [simp]: "sessions (s\<lparr>database := db\<rparr>) = sessions s"
  by (simp add: sessions_def)

lemma speaks_sessions: "speaks s s' \<Longrightarrow> sessions s' = sessions s"
  by (simp add: sessions_def speaksD)

lemmas speaks_frames =
  speaks_reply [THEN speaks_sessions] speaks_reply [THEN speaksD(2)]
  speaks_reply [THEN speaksD(1)] speaks_reply_list [THEN speaks_sessions]
  speaks_reply_list [THEN speaksD(2)] speaks_action [THEN speaks_sessions]
  speaks_action [THEN speaksD(2)] notify_list.quiet [THEN speaks_sessions]
  notify_list.quiet [THEN speaksD(2)]

lemma sessions_frame [frame]:
  "sessions (list_tizcord_servers env i s) = sessions s"
  "sessions (list_tizcord_channels env i v s) = sessions s"
  "sessions (list_members env i v s) = sessions s"
  "sessions (list_joined_servers env i s) = sessions s"
  "sessions (join_tizcord_server env i v s) = sessions s"
  "sessions (leave_tizcord_server env i v s) = sessions s"
  "sessions (create_tizcord_server env i name s) = sessions s"
  "sessions (delete_tizcord_server env i v s) = sessions s"
  "sessions (kick_server_member env i v u s) = sessions s"
  by (simp_all add: list_tizcord_servers_def list_tizcord_channels_def list_members_def
      list_joined_servers_def join_tizcord_server_def leave_tizcord_server_def
      create_tizcord_server_def delete_tizcord_server_def kick_server_member_def speaks_frames
      Let_def case_prod_beta)

lemma sessions_handle_server [frame]: "sessions (handle_server_packet env i p s) = sessions s"
  by (auto simp: handle_server_packet_def Let_def frame speaks_frames
      split: option.split server_action.split)

section \<open>Effects on the database\<close>

abbreviation caller :: "nat \<Rightarrow> srv \<Rightarrow> i64" where "caller i s \<equiv> cid (clients s ! i)"

abbreviation caller_admin :: "env \<Rightarrow> nat \<Rightarrow> i64 \<Rightarrow> srv \<Rightarrow> bool" where
  "caller_admin env i v s \<equiv> db_user_is_server_admin env (database s) v (caller i s) = Some True"

text \<open>The database after a request, its guards included.\<close>

definition server_effect :: "env \<Rightarrow> nat \<Rightarrow> server_payload \<Rightarrow> srv \<Rightarrow> db" where
  "server_effect env i p s =
     (let v = srv_server_id p; db = database s in
      if \<not> is_authenticated (clients s ! i) then db
      else case server_action_of (srv_action p) of
        Some SERVER_JOIN \<Rightarrow> if v \<le>s 0 then db else snd (db_join_server env db v (caller i s) False)
      | Some SERVER_LEAVE \<Rightarrow> if v \<le>s 0 then db else snd (db_leave_server env db v (caller i s))
      | Some SERVER_CREATE \<Rightarrow> if srv_name p = [] then db else snd (db_create_server env db (srv_name p) (caller i s))
      | Some SERVER_DELETE \<Rightarrow> if v \<le>s 0 \<or> \<not> caller_admin env i v s then db
          else snd (db_delete_server env db v (caller i s))
      | Some SERVER_KICK_MEMBER \<Rightarrow> if v \<le>s 0 \<or> srv_target p \<le>s 0 \<or> \<not> caller_admin env i v s then db
          else snd (db_kick_server_member env db v (srv_target p))
      | _ \<Rightarrow> db)"

lemma database_lists [frame]:
  "database (list_tizcord_servers env i s) = database s"
  "database (list_tizcord_channels env i v s) = database s"
  "database (list_members env i v s) = database s"
  "database (list_joined_servers env i s) = database s"
  by (simp_all add: list_tizcord_servers_def list_tizcord_channels_def list_members_def
      list_joined_servers_def speaks_frames Let_def case_prod_beta)

lemma database_changes:
  "database (join_tizcord_server env i v s) = (if v \<le>s 0 \<or> \<not> is_authenticated (clients s ! i)
     then database s else snd (db_join_server env (database s) v (caller i s) False))"
  "database (leave_tizcord_server env i v s) = (if v \<le>s 0 \<or> \<not> is_authenticated (clients s ! i)
     then database s else snd (db_leave_server env (database s) v (caller i s)))"
  "database (create_tizcord_server env i name s) = (if name = [] \<or> \<not> is_authenticated (clients s ! i)
     then database s else snd (db_create_server env (database s) name (caller i s)))"
  "database (delete_tizcord_server env i v s) = (if v \<le>s 0 \<or> \<not> is_authenticated (clients s ! i) \<or>
     \<not> caller_admin env i v s then database s else snd (db_delete_server env (database s) v (caller i s)))"
  "database (kick_server_member env i v u s) = (if v \<le>s 0 \<or> u \<le>s 0 \<or> \<not> is_authenticated (clients s ! i) \<or>
     \<not> caller_admin env i v s then database s else snd (db_kick_server_member env (database s) v u))"
  by (simp_all add: join_tizcord_server_def leave_tizcord_server_def create_tizcord_server_def
      delete_tizcord_server_def kick_server_member_def speaks_frames Let_def case_prod_beta)

lemma database_handle_server: "database (handle_server_packet env i p s) = server_effect env i p s"
  by (simp add: handle_server_packet_def server_effect_def Let_def database_changes frame speaks_frames
      split: option.split server_action.split)

lemma wf_handle_server [wf]: "db_wf (database s) \<Longrightarrow> db_wf (database (handle_server_packet env i p s))"
  unfolding database_handle_server server_effect_def Let_def
  by (simp add: wf split: option.split server_action.split)

section \<open>Who may change what\<close>

lemma reply_server_eq:
  "reply_server env i a c s = (if socket_fd (clients s ! i) < 0 then s
     else s\<lparr>out := out s @ [(socket_fd (clients s ! i), plain_packet (Server (zero_server\<lparr>
       srv_action := server_code a, srv_status := resp c\<rparr>)))]\<rparr>)"
  by (simp add: reply_server_def send_action_response_def send_packet_to_client_def send_to_def
      action_payload_def)

text \<open>
  Without a login a server request is refused: the handler's only effect is one reply to
  the client, with the action of the request and an error.
\<close>

theorem server_request_needs_login:
  assumes "\<not> is_authenticated (clients s ! i)" and "0 \<le> socket_fd (clients s ! i)"
  shows "\<exists>c \<in> {RESP_ERR_INVALID, RESP_ERR_UNAUTHORIZED}. handle_server_packet env i p s =
    s\<lparr>out := out s @ [(socket_fd (clients s ! i), plain_packet (Server (zero_server\<lparr>
      srv_action := srv_action p, srv_status := resp c\<rparr>)))]\<rparr>"
proof (cases "server_action_of (srv_action p)")
  case None
  then show ?thesis
    using assms(2)
    by (auto simp: handle_server_packet_def Let_def send_action_response_def send_packet_to_client_def
        send_to_def action_payload_def)
next
  case (Some a)
  then have "srv_action p = server_code a" by (simp add: serverE.enum_of_Some)
  with Some assms show ?thesis
    by (cases a) (auto simp: handle_server_packet_def Let_def join_tizcord_server_def
        leave_tizcord_server_def create_tizcord_server_def delete_tizcord_server_def
        list_tizcord_servers_def list_tizcord_channels_def list_members_def list_joined_servers_def
        kick_server_member_def reply_server_eq simp del: server_code.simps resp.simps)
qed

definition sample_request :: "server_action \<Rightarrow> i64 \<Rightarrow> server_payload" where
  "sample_request a v = zero_server\<lparr>srv_action := server_code a, srv_server_id := v\<rparr>"

theorem server_request_needs_login_witness:
  "database (handle_server_packet sample_env 1 (sample_request SERVER_DELETE 1) sample_srv) = sample_db \<and>
   length (out (handle_server_packet sample_env 1 (sample_request SERVER_DELETE 1) sample_srv)) = 1"
proof -
  have "\<not> is_authenticated (clients sample_srv ! 1)" and "0 \<le> socket_fd (clients sample_srv ! 1)"
    by (simp_all add: sample_srv_def)
  from server_request_needs_login [OF this, of sample_env "sample_request SERVER_DELETE 1"]
  show ?thesis by (auto simp: sample_srv_def)
qed

text \<open>
  C24: A server is deleted only by a request \<open>SERVER_DELETE\<close> for it from a client that is
  logged in as one of its administrators.
\<close>

theorem server_deletion_needs_admin:
  assumes "v \<in> server_ids (database s)"
    and "v \<notin> server_ids (database (handle_server_packet env i p s))"
  shows "is_authenticated (clients s ! i) \<and>
    is_admin_of (database s) v (cid (clients s ! i)) = Some True \<and>
    server_action_of (srv_action p) = Some SERVER_DELETE \<and> srv_server_id p = v"
proof -
  have join: "server_ids (snd (db_join_server env db w u a)) = server_ids db" for db w u a
    by (simp add: db_join_server_def split: option.split)
  have others: "server_ids (snd (db_leave_server env db w u)) = server_ids db"
      "server_ids (snd (db_kick_server_member env db w u)) = server_ids db" for db w u
    by (simp_all add: db_leave_server_def db_kick_server_member_def delete_members_def)
  have create: "v \<in> server_ids (snd (db_create_server env db name u))" if "v \<in> server_ids db" for db name u
    using that by (auto simp: db_create_server_def join split: option.split)
  have delete: "server_ids (snd (db_delete_server env db w u)) =
      (if db_user_is_server_admin env db w u = None \<or> \<not> write_ok env DELETE_SERVER then server_ids db
       else server_ids db - {w})" for db w u
    by (auto simp: db_delete_server_def delete_server_rows_def Let_def)
  show ?thesis
    using assms unfolding database_handle_server server_effect_def Let_def
    by (auto simp: join others create delete admin_query split: option.splits server_action.splits if_splits)
qed

theorem server_deletion_needs_admin_witness:
  "is_admin_of (database sample_srv) 1 (cid (clients sample_srv ! 0)) = Some True"
proof -
  let ?p = "sample_request SERVER_DELETE 1"
  have "1 \<in> server_ids (database sample_srv)" by (simp add: sample_srv_def sample_defs)
  moreover have "1 \<notin> server_ids (database (handle_server_packet sample_env 0 ?p sample_srv))"
    unfolding database_handle_server
    by (simp add: server_effect_def sample_request_def sample_srv_def sample_defs zero_server_def
        db_user_is_server_admin_def db_delete_server_def first_row_def step_rows_def write_ok_def
        delete_server_rows_def enum_of_def word_sle_eq)
  ultimately show ?thesis using server_deletion_needs_admin by blast
qed

lemma server_effect_admin:
  "is_admin_of (server_effect env i p s) v u = Some True \<Longrightarrow> is_admin_of (database s) v u = Some True \<or>
   u = caller i s \<and> v \<notin> server_ids (database s) \<and> is_authenticated (clients s ! i) \<and>
   server_action_of (srv_action p) = Some SERVER_CREATE"
proof -
  have delete: "is_admin_of db v u = Some True"
    if "is_admin_of (snd (db_delete_server env db w c)) v u = Some True" for db w c
  proof -
    have "find (\<lambda>m. m_server m = v \<and> m_user m = u) (filter (\<lambda>m. m_server m \<noteq> w) ms) =
        (if v = w then None else find (\<lambda>m. m_server m = v \<and> m_user m = u) ms)" for ms :: "member_row list"
      by (induction ms) auto
    with that show ?thesis
      by (auto simp: db_delete_server_def delete_server_rows_def Let_def is_admin_of_def split: if_splits)
  qed
  assume "is_admin_of (server_effect env i p s) v u = Some True"
  then show ?thesis
    unfolding server_effect_def Let_def
    by (auto split: option.splits server_action.splits if_splits
        dest: delete member.join_admin member.leave_admin member.kick_admin create_server_admin)
qed

text \<open>
  C25: No escalation: no server request makes anybody an administrator of a server that
  exists already; only who creates a new server becomes its administrator.
\<close>

theorem no_admin_escalation:
  assumes "is_admin_of (database (handle_server_packet env i p s)) v u = Some True"
  shows "is_admin_of (database s) v u = Some True \<or>
    u = cid (clients s ! i) \<and> v \<notin> server_ids (database s) \<and> is_authenticated (clients s ! i) \<and>
    server_action_of (srv_action p) = Some SERVER_CREATE"
  using assms unfolding database_handle_server by (rule server_effect_admin)

theorem no_admin_escalation_witness:
  "2 \<notin> server_ids (database sample_srv) \<and>
   is_admin_of (database (handle_server_packet sample_env 0
     (sample_request SERVER_CREATE 0\<lparr>srv_name := ''new''\<rparr>) sample_srv)) 2 1 = Some True"
proof -
  let ?p = "sample_request SERVER_CREATE 0\<lparr>srv_name := ''new''\<rparr>"
  have admin: "is_admin_of (database (handle_server_packet sample_env 0 ?p sample_srv)) 2 1 = Some True"
    unfolding database_handle_server
    by (simp add: server_effect_def sample_request_def sample_srv_def sample_defs zero_server_def
        db_create_server_def db_join_server_def insert_id_def write_ok_def is_admin_of_def
        enum_of_def word_sless_alt)
  from no_admin_escalation [OF admin] admin show ?thesis
    by (auto simp: sample_srv_def sample_defs is_admin_of_def)
qed

text \<open>
  C26: Memberships change only at the hands of the user they belong to or of an administrator
  of the server, logged in.
\<close>

theorem membership_changes_authorised:
  assumes "is_admin_of (database (handle_server_packet env i p s)) v u \<noteq> is_admin_of (database s) v u"
  shows "is_authenticated (clients s ! i) \<and> (u = cid (clients s ! i) \<or>
    is_admin_of (database s) v (cid (clients s ! i)) = Some True)"
proof -
  have join: "u' = u" if "is_admin_of (snd (db_join_server env db v' u' a)) v u \<noteq> is_admin_of db v u" for db v' u' a
  proof (rule ccontr)
    assume "u' \<noteq> u"
    moreover obtain rc db' where "db_join_server env db v' u' a = (rc, db')" by fastforce
    ultimately show False using member.join_other [of env db v' u' a rc db' v u] that by simp
  qed
  have leave: "u' = u" if "is_admin_of (snd (db_leave_server env db v' u')) v u \<noteq> is_admin_of db v u" for db v' u'
  proof (rule ccontr)
    assume "u' \<noteq> u"
    moreover obtain rc db' where "db_leave_server env db v' u' = (rc, db')" by fastforce
    ultimately show False using member.leave_other [of env db v' u' rc db' v u] that by simp
  qed
  have kick: "v' = v" if "is_admin_of (snd (db_kick_server_member env db v' u')) v u \<noteq> is_admin_of db v u" for db v' u'
  proof (rule ccontr)
    assume "v' \<noteq> v"
    moreover obtain rc db' where "db_kick_server_member env db v' u' = (rc, db')" by fastforce
    ultimately show False using member.kick_other [of env db v' u' rc db' v u] that by simp
  qed
  have create: "u' = u" if "is_admin_of (snd (db_create_server env db name u')) v u \<noteq> is_admin_of db v u" for db name u'
  proof -
    have same: "is_admin_of (db\<lparr>servers := ss\<rparr>) = is_admin_of db" for ss
      by (intro ext) (simp add: is_admin_of_def)
    from that show ?thesis
      using join [of "db\<lparr>servers := servers db @ [r]\<rparr>" for r]
      by (auto simp: db_create_server_def same split: option.splits)
  qed
  have delete: "w = v" if "is_admin_of (snd (db_delete_server env db w c)) v u \<noteq> is_admin_of db v u" for db w c
  proof (rule ccontr)
    assume "w \<noteq> v"
    moreover have "find (\<lambda>m. m_server m = v \<and> m_user m = u) (filter (\<lambda>m. m_server m \<noteq> w) ms) =
        (if v = w then None else find (\<lambda>m. m_server m = v \<and> m_user m = u) ms)" for ms :: "member_row list"
      by (induction ms) auto
    ultimately show False
      using that by (auto simp: db_delete_server_def delete_server_rows_def Let_def is_admin_of_def split: if_splits)
  qed
  show ?thesis
    using assms unfolding database_handle_server server_effect_def Let_def
    by (auto split: option.splits server_action.splits if_splits
        dest: join leave kick create delete admin_query)
qed

theorem membership_changes_authorised_witness:
  "is_admin_of (database (handle_server_packet sample_env 0 (sample_request SERVER_LEAVE 1) sample_srv)) 1 1 = None \<and>
   is_authenticated (clients sample_srv ! 0)"
proof -
  have gone: "is_admin_of (database (handle_server_packet sample_env 0 (sample_request SERVER_LEAVE 1) sample_srv)) 1 1 = None"
    unfolding database_handle_server
    by (simp add: server_effect_def sample_request_def sample_srv_def sample_defs zero_server_def
        db_leave_server_def delete_members_def write_ok_def is_admin_of_def enum_of_def word_sle_eq)
  have "is_admin_of (database sample_srv) 1 1 = Some True"
    by (simp add: sample_srv_def sample_defs is_admin_of_def)
  with membership_changes_authorised [of sample_env 0 "sample_request SERVER_LEAVE 1" sample_srv 1 1] gone
  show ?thesis by simp
qed

end
