(* ===== verification/Social.thy ===== *)
theory Social
  imports TizServerLaws
begin

text \<open>
  The handlers of social requests, \<^verbatim>\<open>server/tizcord_social.c\<close>: the friendship requests, the
  lists of friends and users as START, MIDDLE and END packets, the profile status, and the
  notifications to other clients. Then what they leave alone, and what they do to the
  database.
\<close>

section \<open>Packets\<close>

text \<open>\<open>create_base_packet (PACKET_SOCIAL)\<close> with its social payload filled in.\<close>

definition social_packet :: "env \<Rightarrow> social_payload \<Rightarrow> packet" where
  "social_packet env p = (create_base_packet (now env) PACKET_SOCIAL)\<lparr>payload := Social p\<rparr>"

definition friend_request_cb :: "env \<Rightarrow> int \<Rightarrow> i32 \<Rightarrow> i64 \<times> string \<times> i32 \<Rightarrow> i32 \<times> srv \<Rightarrow> i32 \<times> srv" where
  "friend_request_cb env fd lid row ctx =
     (case (row, ctx) of ((target_user_id, name, is_incoming), (current_index, s)) \<Rightarrow>
        (current_index + 1,
         post env fd ((social_packet env (zero_social\<lparr>soc_action := social_code SOCIAL_LIST_FRIENDS,
             soc_target := target_user_id, soc_username := strncpy0 (MAX_NAME_LEN - 1) name,
             soc_status_code := is_incoming\<rparr>))
           \<lparr>list_id := lid, list_index := current_index, list_total := -1,
            list_frame := frame_code LIST_FRAME_MIDDLE\<rparr>) s))"

definition user_list_cb :: "env \<Rightarrow> int \<Rightarrow> i32 \<Rightarrow> i64 \<times> string \<times> string \<Rightarrow> i32 \<times> srv \<Rightarrow> i32 \<times> srv" where
  "user_list_cb env fd lid row ctx =
     (case (row, ctx) of ((user_id, name, status_text), (current_index, s)) \<Rightarrow>
        let is_online = client_online (clients s) user_id in
        (current_index + 1,
         post env fd ((social_packet env (zero_social\<lparr>soc_action := social_code SOCIAL_LIST_USERS,
             soc_presence := presence_code (if is_online then STATUS_ONLINE else STATUS_OFFLINE),
             soc_target := user_id, soc_username := strncpy0 (MAX_NAME_LEN - 1) name,
             soc_status_text := strncpy0 PROFILE_STATUS_LEN status_text,
             soc_status_code := of_bool is_online\<rparr>))
           \<lparr>list_id := lid, list_index := current_index, list_total := -1,
            list_frame := frame_code LIST_FRAME_MIDDLE\<rparr>) s))"

text \<open>
  The three steps the code repeats for every list it streams: a START packet, the callback
  for every row, an END packet with the number of rows sent.
\<close>

definition stream_list :: "env \<Rightarrow> social_action \<Rightarrow>
    (env \<Rightarrow> int \<Rightarrow> i32 \<Rightarrow> 'r \<Rightarrow> i32 \<times> srv \<Rightarrow> i32 \<times> srv) \<Rightarrow> 'r list \<Rightarrow> int \<Rightarrow> i64 \<Rightarrow> srv \<Rightarrow> srv" where
  "stream_list env action cb rows fd user_id s =
     (let lid = to_i32 user_id;
          p = social_packet env (zero_social\<lparr>soc_action := social_code action\<rparr>);
          s1 = post env fd (p\<lparr>list_id := lid, list_frame := frame_code LIST_FRAME_START\<rparr>) s;
          (n, s2) = fold (cb env fd lid) rows (0, s1)
      in post env fd (p\<lparr>list_id := lid, list_total := n, list_frame := frame_code LIST_FRAME_END\<rparr>) s2)"

definition stream_friends :: "env \<Rightarrow> int \<Rightarrow> i64 \<Rightarrow> srv \<Rightarrow> srv" where
  "stream_friends env fd user_id s =
     stream_list env SOCIAL_LIST_FRIENDS friend_request_cb
       (snd (db_list_friend_requests env (database s) user_id)) fd user_id s"

definition stream_users :: "env \<Rightarrow> int \<Rightarrow> i64 \<Rightarrow> srv \<Rightarrow> srv" where
  "stream_users env fd user_id s =
     stream_list env SOCIAL_LIST_USERS user_list_cb (snd (db_list_all_users env (database s))) fd user_id s"

section \<open>Notifications\<close>

definition send_status_update_packet ::
  "env \<Rightarrow> int \<Rightarrow> response_code \<Rightarrow> i64 \<Rightarrow> string \<Rightarrow> string option \<Rightarrow> bool \<Rightarrow> srv \<Rightarrow> srv" where
  "send_status_update_packet env fd code user_id name status_text is_online s =
     post env fd (social_packet env (zero_social\<lparr>soc_action := social_code SOCIAL_UPDATE_STATUS,
       soc_status_code := resp code,
       soc_presence := presence_code (if is_online then STATUS_ONLINE else STATUS_OFFLINE),
       soc_target := user_id, soc_username := strncpy0 (MAX_NAME_LEN - 1) name,
       soc_status_text := (case status_text of None \<Rightarrow> [] | Some t \<Rightarrow> strncpy0 PROFILE_STATUS_LEN t)\<rparr>)) s"

text \<open>A loop over the clients that are logged in; its body changes no client.\<close>

definition for_logged_in :: "(client \<Rightarrow> srv \<Rightarrow> srv) \<Rightarrow> srv \<Rightarrow> srv" where
  "for_logged_in f s =
     fold (\<lambda>c s. if socket_fd c \<le> 0 \<or> \<not> is_authenticated c then s else f c s) (clients s) s"

definition notify_user_status_update :: "env \<Rightarrow> i64 \<Rightarrow> string \<Rightarrow> string \<Rightarrow> srv \<Rightarrow> srv" where
  "notify_user_status_update env user_id name status_text s =
     (let is_online = client_online (clients s) user_id in
      for_logged_in (\<lambda>c. send_status_update_packet env (socket_fd c) RESP_OK user_id name
        (Some status_text) is_online) s)"

definition notify_friend_list_update :: "env \<Rightarrow> i64 \<Rightarrow> srv \<Rightarrow> srv" where
  "notify_friend_list_update env target_user_id s =
     (case find (\<lambda>c. 0 < socket_fd c \<and> cid c = target_user_id) (clients s) of
        None \<Rightarrow> s
      | Some c \<Rightarrow> stream_friends env (socket_fd c) target_user_id s)"

definition notify_all_user_lists :: "env \<Rightarrow> srv \<Rightarrow> srv" where
  "notify_all_user_lists env s = for_logged_in (\<lambda>c. stream_users env (socket_fd c) (cid c)) s"

section \<open>Requests\<close>

definition reply_social :: "env \<Rightarrow> nat \<Rightarrow> i32 \<Rightarrow> response_code \<Rightarrow> string option \<Rightarrow> srv \<Rightarrow> srv" where
  "reply_social env i action code message s =
     snd (send_action_response env (socket_fd (clients s ! i)) (packet_kind_code PACKET_SOCIAL)
       action (resp code) message s)"

definition request_friend :: "env \<Rightarrow> nat \<Rightarrow> social_payload \<Rightarrow> srv \<Rightarrow> srv" where
  "request_friend env i p s =
     (let a = social_code SOCIAL_FRIEND_REQUEST; me = cid (clients s ! i) in
      case db_get_user_id_by_name env (database s) (soc_username p) of
        None \<Rightarrow> reply_social env i a RESP_ERR_NOT_FOUND (Some ''User not found.'') s
      | Some friend_id \<Rightarrow>
          if friend_id = me
          then reply_social env i a RESP_ERR_INVALID (Some ''You cannot send a friend request to yourself.'') s
          else case db_send_friend_request env (database s) me friend_id of
            (rc, db) \<Rightarrow>
              let s1 = s\<lparr>database := db\<rparr> in
              if rc = -2 then reply_social env i a RESP_ERR_CONFLICT (Some ''You are already friends!'') s1
              else if rc < 0 then reply_social env i a RESP_ERR_DB (Some ''Friend request failed.'') s1
              else if rc = 1 then
                notify_friend_list_update env friend_id (notify_friend_list_update env me
                  (reply_social env i a RESP_OK (Some ''Incoming request found. Friendship accepted!'') s1))
              else notify_friend_list_update env friend_id
                (reply_social env i a RESP_OK (Some ''Friend request sent!'') s1))"

definition accept_friend :: "env \<Rightarrow> nat \<Rightarrow> social_payload \<Rightarrow> srv \<Rightarrow> srv" where
  "accept_friend env i p s =
     (let a = social_code SOCIAL_FRIEND_ACCEPT; me = cid (clients s ! i) in
      case db_get_user_id_by_name env (database s) (soc_username p) of
        None \<Rightarrow> reply_social env i a RESP_ERR_NOT_FOUND (Some ''User not found.'') s
      | Some friend_id \<Rightarrow>
          (case db_accept_friend_request env (database s) me friend_id of
            (rc, db) \<Rightarrow>
              let s1 = s\<lparr>database := db\<rparr> in
              if rc = -1 then reply_social env i a RESP_ERR_NOT_FOUND (Some ''No incoming request from this user.'') s1
              else if rc = -2 then reply_social env i a RESP_ERR_CONFLICT (Some ''You are already friends!'') s1
              else notify_friend_list_update env friend_id
                (reply_social env i a RESP_OK (Some ''Friend request accepted!'') s1)))"

definition remove_friend_request :: "env \<Rightarrow> nat \<Rightarrow> social_payload \<Rightarrow> srv \<Rightarrow> srv" where
  "remove_friend_request env i p s =
     (let a = social_code SOCIAL_FRIEND_REMOVE; me = cid (clients s ! i) in
      case db_get_user_id_by_name env (database s) (soc_username p) of
        None \<Rightarrow> reply_social env i a RESP_ERR_NOT_FOUND (Some ''User not found.'') s
      | Some friend_id \<Rightarrow>
          (case db_remove_friendship env (database s) me friend_id of
            (rc, db) \<Rightarrow>
              let s1 = s\<lparr>database := db\<rparr> in
              if rc = -1 then reply_social env i a RESP_ERR_NOT_FOUND (Some ''You are not friends with this user.'') s1
              else notify_friend_list_update env friend_id
                (reply_social env i a RESP_OK (Some ''Friend removed.'') s1)))"

definition reject_friend :: "env \<Rightarrow> nat \<Rightarrow> social_payload \<Rightarrow> srv \<Rightarrow> srv" where
  "reject_friend env i p s =
     (let a = social_code SOCIAL_FRIEND_REJECT; me = cid (clients s ! i) in
      case db_get_user_id_by_name env (database s) (soc_username p) of
        None \<Rightarrow> reply_social env i a RESP_ERR_NOT_FOUND (Some ''User not found.'') s
      | Some friend_id \<Rightarrow>
          (case db_reject_friend_request env (database s) me friend_id of
            (rc, db) \<Rightarrow>
              let s1 = s\<lparr>database := db\<rparr> in
              if rc = -1 then reply_social env i a RESP_ERR_NOT_FOUND (Some ''No incoming request from this user.'') s1
              else notify_friend_list_update env friend_id
                (reply_social env i a RESP_OK (Some ''Friend request rejected.'') s1)))"

definition update_status :: "env \<Rightarrow> nat \<Rightarrow> social_payload \<Rightarrow> srv \<Rightarrow> srv" where
  "update_status env i p s =
     (let c = clients s ! i; status_len = length (soc_status_text p) in
      if status_len = 0 \<or> PROFILE_STATUS_LEN < status_len
      then send_status_update_packet env (socket_fd c) RESP_ERR_INVALID (cid c) (username c) None True s
      else case db_update_user_status env (database s) (cid c) (soc_status_text p) of
        (rc, db) \<Rightarrow>
          let s1 = s\<lparr>database := db\<rparr> in
          if rc \<noteq> 0
          then send_status_update_packet env (socket_fd c) RESP_ERR_DB (cid c) (username c) None True s1
          else notify_user_status_update env (cid c) (username c) (soc_status_text p) s1)"

definition handle_social_packet :: "env \<Rightarrow> nat \<Rightarrow> social_payload \<Rightarrow> srv \<Rightarrow> srv" where
  "handle_social_packet env i p s =
     (let c = clients s ! i in
      if \<not> is_authenticated c then reply_social env i (soc_action p) RESP_ERR_UNAUTHORIZED None s
      else case social_action_of (soc_action p) of
        Some SOCIAL_FRIEND_REQUEST \<Rightarrow> request_friend env i p s
      | Some SOCIAL_FRIEND_ACCEPT \<Rightarrow> accept_friend env i p s
      | Some SOCIAL_LIST_FRIENDS \<Rightarrow> stream_friends env (socket_fd c) (cid c) s
      | Some SOCIAL_FRIEND_REMOVE \<Rightarrow> remove_friend_request env i p s
      | Some SOCIAL_FRIEND_REJECT \<Rightarrow> reject_friend env i p s
      | Some SOCIAL_LIST_USERS \<Rightarrow> stream_users env (socket_fd c) (cid c) s
      | Some SOCIAL_UPDATE_STATUS \<Rightarrow> update_status env i p s
      | None \<Rightarrow> reply_social env i (soc_action p) RESP_ERR_INVALID (Some ''Invalid action.'') s)"

section \<open>Streaming and notifying only speak\<close>

lemma speaks_fold2:
  assumes "\<And>r n s. speaks s (snd (cb r (n, s)))"
  shows "speaks s (snd (fold cb rows (n, s)))"
proof (induction rows arbitrary: n s)
  case (Cons r rows)
  obtain n' s' where 1: "cb r (n, s) = (n', s')" by fastforce
  with assms [of s r n] have "speaks s s'" by simp
  with 1 Cons [where n = n' and s = s'] show ?case by (auto intro: speaks_trans)
qed simp

lemma speaks_stream_list:
  assumes "\<And>r n s. speaks s (snd (cb env fd (to_i32 u) r (n, s)))"
  shows "speaks s (stream_list env a cb rows fd u s)"
proof -
  let ?p = "social_packet env (zero_social\<lparr>soc_action := social_code a\<rparr>)"
  let ?s1 = "post env fd (?p\<lparr>list_id := to_i32 u, list_frame := frame_code LIST_FRAME_START\<rparr>) s"
  obtain n s2 where 2: "fold (cb env fd (to_i32 u)) rows (0, ?s1) = (n, s2)" by fastforce
  with speaks_fold2 [where cb = "cb env fd (to_i32 u)" and s = ?s1 and rows = rows and n = 0, OF assms] have "speaks ?s1 s2" by simp
  then have "speaks s s2" using speaks_post speaks_trans by blast
  then have "speaks s (post env fd q s2)" for q using speaks_post speaks_trans by blast
  then show ?thesis by (simp add: stream_list_def Let_def 2 del: frame_code.simps)
qed

interpretation friend_stream: speaker "\<lambda>(fd, u). stream_friends env fd u" for env
  by unfold_locales (auto simp: stream_friends_def friend_request_cb_def speaks_post
      intro!: speaks_stream_list)

interpretation user_stream: speaker "\<lambda>(fd, u). stream_users env fd u" for env
  by unfold_locales (auto simp: stream_users_def user_list_cb_def Let_def speaks_post
      intro!: speaks_stream_list)

lemma speaks_streams: "speaks s (stream_friends env fd u s)" "speaks s (stream_users env fd u s)"
  using friend_stream.quiet [of s env "(fd, u)"] user_stream.quiet [of s env "(fd, u)"] by simp_all

interpretation status_update: speaker
  "\<lambda>(fd, code, u, name, st, on). send_status_update_packet env fd code u name st on" for env
  by unfold_locales (simp add: send_status_update_packet_def speaks_post split: prod.split)

lemma speaks_for_logged_in: "(\<And>c s. speaks s (f c s)) \<Longrightarrow> speaks s (for_logged_in f s)"
  unfolding for_logged_in_def
  by (rule fold_invariant_list [where P = "speaks s"]) (auto intro: speaks_trans)

interpretation notify_friends: speaker "notify_friend_list_update env" for env
  by unfold_locales (simp add: notify_friend_list_update_def speaks_streams split: option.split)

interpretation notify_users: speaker "\<lambda>_ :: unit. notify_all_user_lists env" for env
  by unfold_locales (simp add: notify_all_user_lists_def speaks_for_logged_in speaks_streams)

lemma speaks_status: "speaks s (send_status_update_packet env fd code u name st on s)"
  using status_update.quiet [of s env "(fd, code, u, name, st, on)"] by simp

lemma speaks_status_all: "speaks s (notify_user_status_update env u name t s)"
  by (simp add: notify_user_status_update_def Let_def speaks_for_logged_in speaks_status)

lemma speaks_reply_social: "speaks s (reply_social env i a c m s)"
  by (simp add: reply_social_def speaks_action)

end
