(* ===== verification/SocialLaws.thy ===== *)
theory SocialLaws
  imports Social
begin

text \<open>
  What the social handlers leave alone and do to the database, who may make them do it, and
  what a streamed list consists of.
\<close>

section \<open>Frames and effects\<close>

lemmas social_speaks =
  speaks_reply_social speaks_status speaks_status_all speaks_streams notify_friends.quiet

lemmas social_frames = social_speaks [THEN speaks_sessions] social_speaks [THEN speaksD(2)]

lemma sessions_social_ops [frame]:
  "sessions (request_friend env i p s) = sessions s" "sessions (accept_friend env i p s) = sessions s"
  "sessions (remove_friend_request env i p s) = sessions s" "sessions (reject_friend env i p s) = sessions s"
  "sessions (update_status env i p s) = sessions s"
  by (simp_all add: request_friend_def accept_friend_def remove_friend_request_def reject_friend_def
      update_status_def social_frames Let_def case_prod_beta split: option.split)

lemma sessions_handle_social [frame]: "sessions (handle_social_packet env i p s) = sessions s"
  by (simp add: handle_social_packet_def Let_def frame social_frames split: option.split social_action.split)

text \<open>The database after a social request.\<close>

definition social_effect :: "env \<Rightarrow> nat \<Rightarrow> social_payload \<Rightarrow> srv \<Rightarrow> db" where
  "social_effect env i p s =
     (let db = database s; me = caller i s;
          with_friend = (\<lambda>op. case db_get_user_id_by_name env db (soc_username p) of
            None \<Rightarrow> db | Some f \<Rightarrow> snd (op env db me f)) in
      if \<not> is_authenticated (clients s ! i) then db
      else case social_action_of (soc_action p) of
        Some SOCIAL_FRIEND_REQUEST \<Rightarrow>
          if db_get_user_id_by_name env db (soc_username p) = Some me then db
          else with_friend db_send_friend_request
      | Some SOCIAL_FRIEND_ACCEPT \<Rightarrow> with_friend db_accept_friend_request
      | Some SOCIAL_FRIEND_REMOVE \<Rightarrow> with_friend db_remove_friendship
      | Some SOCIAL_FRIEND_REJECT \<Rightarrow> with_friend db_reject_friend_request
      | Some SOCIAL_UPDATE_STATUS \<Rightarrow>
          if soc_status_text p = [] \<or> PROFILE_STATUS_LEN < length (soc_status_text p) then db
          else snd (db_update_user_status env db me (soc_status_text p))
      | _ \<Rightarrow> db)"

lemma database_social_ops:
  "database (request_friend env i p s) =
     (case db_get_user_id_by_name env (database s) (soc_username p) of None \<Rightarrow> database s
      | Some f \<Rightarrow> if f = caller i s then database s
                  else snd (db_send_friend_request env (database s) (caller i s) f))"
  "database (accept_friend env i p s) =
     (case db_get_user_id_by_name env (database s) (soc_username p) of None \<Rightarrow> database s
      | Some f \<Rightarrow> snd (db_accept_friend_request env (database s) (caller i s) f))"
  "database (remove_friend_request env i p s) =
     (case db_get_user_id_by_name env (database s) (soc_username p) of None \<Rightarrow> database s
      | Some f \<Rightarrow> snd (db_remove_friendship env (database s) (caller i s) f))"
  "database (reject_friend env i p s) =
     (case db_get_user_id_by_name env (database s) (soc_username p) of None \<Rightarrow> database s
      | Some f \<Rightarrow> snd (db_reject_friend_request env (database s) (caller i s) f))"
  "database (update_status env i p s) =
     (if soc_status_text p = [] \<or> PROFILE_STATUS_LEN < length (soc_status_text p) then database s
      else snd (db_update_user_status env (database s) (caller i s) (soc_status_text p)))"
  by (simp_all add: request_friend_def accept_friend_def remove_friend_request_def reject_friend_def
      update_status_def social_frames Let_def case_prod_beta split: option.split)

lemma database_handle_social: "database (handle_social_packet env i p s) = social_effect env i p s"
  by (auto simp: handle_social_packet_def social_effect_def database_social_ops social_frames Let_def
      split: option.split social_action.split)

lemma wf_handle_social [wf]: "db_wf (database s) \<Longrightarrow> db_wf (database (handle_social_packet env i p s))"
  unfolding database_handle_social social_effect_def Let_def
  by (simp add: wf split: option.split social_action.split)

section \<open>Who may change what\<close>

text \<open>
  Without a login a social request is refused: its only effect is one reply to the
  client, with the action of the request and \<open>RESP_ERR_UNAUTHORIZED\<close>.
\<close>

theorem social_request_needs_login:
  assumes "\<not> is_authenticated (clients s ! i)" and "0 \<le> socket_fd (clients s ! i)"
  shows "handle_social_packet env i p s =
    s\<lparr>out := out s @ [(socket_fd (clients s ! i), plain_packet (Social (zero_social\<lparr>
      soc_action := soc_action p, soc_status_code := resp RESP_ERR_UNAUTHORIZED\<rparr>)))]\<rparr>"
  using assms by (simp add: handle_social_packet_def Let_def reply_social_def send_action_response_def
      send_packet_to_client_def send_to_def action_payload_def)

theorem social_request_needs_login_witness:
  "database (handle_social_packet sample_env 1 zero_social sample_srv) = sample_db"
proof -
  have "\<not> is_authenticated (clients sample_srv ! 1)" and "0 \<le> socket_fd (clients sample_srv ! 1)"
    by (simp_all add: sample_srv_def)
  from social_request_needs_login [OF this, of sample_env zero_social]
  show ?thesis by (simp add: sample_srv_def)
qed

text \<open>The rows that do not concern a user, and what is left when only theirs change.\<close>

definition others :: "i64 \<Rightarrow> friend_row list \<Rightarrow> friend_row list" where
  "others me rows = filter (\<lambda>r. f_user r \<noteq> me \<and> f_friend r \<noteq> me) rows"

lemma others_drop [simp]:
  "others me (drop_rows (\<lambda>r. f_user r = me \<and> P r) rows) = others me rows"
  "others me (drop_rows (\<lambda>r. f_user r = a \<and> f_friend r = me \<and> P r) rows) = others me rows"
  "others me (drop_rows (\<lambda>r. f_user r = me \<and> P r \<or> f_user r = a \<and> f_friend r = me) rows) = others me rows"
  unfolding others_def drop_rows_def filter_filter by (auto intro!: filter_cong)

lemma others_accept [simp]: "others me (accept_rows f me rows) = others me rows"
  unfolding others_def accept_rows_def by (induction rows) auto

text \<open>
  What one user may change: the friendship rows that name them and their own row among the
  users; everything else is the same in both databases.
\<close>

definition own_rows_only :: "i64 \<Rightarrow> db \<Rightarrow> db \<Rightarrow> bool" where
  "own_rows_only me db db' \<longleftrightarrow> others me (friends db') = others me (friends db) \<and>
     filter (\<lambda>u. u_id u \<noteq> me) (users db') = filter (\<lambda>u. u_id u \<noteq> me) (users db) \<and>
     servers db' = servers db \<and> members db' = members db \<and> channels db' = channels db \<and>
     messages db' = messages db \<and> dms db' = dms db"

lemma own_refl: "own_rows_only me db db"
  by (simp add: own_rows_only_def)

lemma own_accept: "own_rows_only me db (snd (db_accept_friend_request env db me f))"
  by (simp add: own_rows_only_def db_accept_friend_request_def Let_def split: option.split)

lemma own_remove: "own_rows_only me db (snd (db_remove_friendship env db me f))"
  by (simp add: own_rows_only_def db_remove_friendship_def)

lemma own_reject: "own_rows_only me db (snd (db_reject_friend_request env db me f))"
  by (simp add: own_rows_only_def db_reject_friend_request_def)

lemma own_send: "own_rows_only me db (snd (db_send_friend_request env db me f))"
proof -
  have "own_rows_only me db (db\<lparr>friends := friends db @ [\<lparr>f_id = i, f_user = me, f_friend = f,
      f_accepted = False\<rparr>]\<rparr>)" for i
    by (simp add: own_rows_only_def others_def)
  then show ?thesis
    using own_refl own_accept
    by (simp add: db_send_friend_request_def Let_def case_prod_beta split: option.split)
qed

lemma own_status: "own_rows_only me db (snd (db_update_user_status env db me st))"
proof -
  have "filter (\<lambda>u. u_id u \<noteq> me) (map (\<lambda>u. if u_id u = me then u\<lparr>u_status := st\<rparr> else u) us) =
      filter (\<lambda>u. u_id u \<noteq> me) us" for us :: "user_row list"
    by (induction us) auto
  then show ?thesis by (simp add: own_rows_only_def db_update_user_status_def)
qed

text \<open>
  A social request of a client reaches only what is its user's own: friendship rows
  between others, the rows of other users and every other table stay as they are, whatever
  statements fail.
\<close>

theorem social_request_own_rows_only:
  "own_rows_only (cid (clients s ! i)) (database s) (database (handle_social_packet env i p s))"
  unfolding database_handle_social social_effect_def Let_def
  by (simp add: own_refl own_accept own_remove own_reject own_send own_status
      split: option.split social_action.split)

section \<open>Streamed lists\<close>

text \<open>The packets of the user list, from index \<open>n\<close>.\<close>

definition user_row_packet :: "env \<Rightarrow> client list \<Rightarrow> i32 \<Rightarrow> i32 \<Rightarrow> i64 \<times> string \<times> string \<Rightarrow> packet" where
  "user_row_packet env cs lid n row = (case row of (u, name, st) \<Rightarrow>
     (social_packet env (zero_social\<lparr>soc_action := social_code SOCIAL_LIST_USERS,
         soc_presence := presence_code (if client_online cs u then STATUS_ONLINE else STATUS_OFFLINE),
         soc_target := u, soc_username := strncpy0 (MAX_NAME_LEN - 1) name,
         soc_status_text := strncpy0 PROFILE_STATUS_LEN st,
         soc_status_code := of_bool (client_online cs u)\<rparr>))
       \<lparr>list_id := lid, list_index := n, list_total := -1, list_frame := frame_code LIST_FRAME_MIDDLE\<rparr>)"

fun user_list_packets :: "env \<Rightarrow> client list \<Rightarrow> i32 \<Rightarrow> i32 \<Rightarrow> (i64 \<times> string \<times> string) list \<Rightarrow> packet list" where
  "user_list_packets env cs lid n [] = []"
| "user_list_packets env cs lid n (r # rows) =
     user_row_packet env cs lid n r # user_list_packets env cs lid (n + 1) rows"

lemma user_list_cb_eq: "user_list_cb env fd lid r (n, s) =
   (n + 1, s\<lparr>out := out s @ [(fd, user_row_packet env (clients s) lid n r)]\<rparr>)"
  by (cases r) (simp add: user_list_cb_def user_row_packet_def post_def send_to_def Let_def)

lemma fold_user_list_cb:
  "fold (user_list_cb env fd lid) rows (n, s) = (n + of_nat (length rows),
     s\<lparr>out := out s @ map (Pair fd) (user_list_packets env (clients s) lid n rows)\<rparr>)"
  by (induction rows arbitrary: n s) (simp_all add: user_list_cb_eq)

lemma user_list_packets_nth:
  "j < length rows \<Longrightarrow> user_list_packets env cs lid n rows ! j =
     user_row_packet env cs lid (n + of_nat j) (rows ! j)"
  by (induction rows arbitrary: n j) (auto simp: nth_Cons add.assoc split: nat.split)

lemma length_user_list_packets [simp]: "length (user_list_packets env cs lid n rows) = length rows"
  by (induction rows arbitrary: n) simp_all

definition users_by_name :: "srv \<Rightarrow> user_row list" where
  "users_by_name s = sort_key u_name (users (database s))"

text \<open>
  The user list a client gets is a START packet, one packet for every user of the
  database in the order of their names, and an END packet with their number. A user's
  packet says online exactly when a connected client is logged in as them.
\<close>

theorem user_list_stream:
  assumes "healthy env"
  shows "\<exists>first last ps. out (stream_users env fd me s) =
      out s @ (fd, first) # map (Pair fd) ps @ [(fd, last)] \<and>
    list_frame first = frame_code LIST_FRAME_START \<and> list_frame last = frame_code LIST_FRAME_END \<and>
    list_total last = of_nat (length (users_by_name s)) \<and> length ps = length (users_by_name s) \<and>
    (\<forall>j < length (users_by_name s). \<exists>q. payload (ps ! j) = Social q \<and> list_index (ps ! j) = of_nat j \<and>
       list_frame (ps ! j) = frame_code LIST_FRAME_MIDDLE \<and> soc_target q = u_id (users_by_name s ! j) \<and>
       soc_username q = take 31 (u_name (users_by_name s ! j)) \<and> soc_status_text q = take 64 (u_status (users_by_name s ! j)) \<and>
       (soc_presence q = presence_code STATUS_ONLINE \<longleftrightarrow>
         (\<exists>c \<in> set (clients s). 0 < socket_fd c \<and> is_authenticated c \<and> cid c = u_id (users_by_name s ! j))))"
proof -
  let ?rows = "map (\<lambda>u. (u_id u, u_name u, u_status u)) (users_by_name s)"
  let ?p = "social_packet env (zero_social\<lparr>soc_action := social_code SOCIAL_LIST_USERS\<rparr>)"
  let ?ps = "user_list_packets env (clients s) (to_i32 me) 0 ?rows"
  have list: "snd (db_list_all_users env (database s)) = ?rows"
    by (simp add: db_list_all_users_def healthy_simps [OF assms(1)] users_by_name_def)
  have item: "\<exists>q. payload (?ps ! j) = Social q \<and> list_index (?ps ! j) = of_nat j \<and>
       list_frame (?ps ! j) = frame_code LIST_FRAME_MIDDLE \<and> soc_target q = u_id (users_by_name s ! j) \<and>
       soc_username q = take 31 (u_name (users_by_name s ! j)) \<and> soc_status_text q = take 64 (u_status (users_by_name s ! j)) \<and>
       (soc_presence q = presence_code STATUS_ONLINE \<longleftrightarrow>
         (\<exists>c \<in> set (clients s). 0 < socket_fd c \<and> is_authenticated c \<and> cid c = u_id (users_by_name s ! j)))"
    if "j < length (users_by_name s)" for j
    using that by (auto simp: user_list_packets_nth user_row_packet_def social_packet_def
        create_base_packet_def zero_packet_def strncpy0_def client_online_def list_ex_iff)
  have out: "out (stream_users env fd me s) =
      out s @ (fd, ?p\<lparr>list_id := to_i32 me, list_frame := frame_code LIST_FRAME_START\<rparr>) # map (Pair fd) ?ps @
        [(fd, ?p\<lparr>list_id := to_i32 me, list_total := of_nat (length (users_by_name s)),
           list_frame := frame_code LIST_FRAME_END\<rparr>)]"
    unfolding stream_users_def list
    by (simp add: stream_list_def Let_def fold_user_list_cb post_def send_to_def del: frame_code.simps)
  show ?thesis
    by (rule exI, rule exI, rule exI [of _ ?ps], rule conjI [OF out]) (use item in simp)
qed

theorem user_list_stream_witness:
  "\<exists>first last ps. out (stream_users sample_env 4 1 sample_srv) = (4, first) # map (Pair 4) ps @ [(4, last)] \<and>
     length ps = 2"
proof -
  have h: "healthy sample_env" by (simp add: healthy_def sample_defs)
  have "length (users_by_name sample_srv) = 2" "out sample_srv = []"
    by (simp_all add: users_by_name_def sample_srv_def sample_defs)
  with user_list_stream [OF h, of 4 1 sample_srv] show ?thesis by auto
qed

end
