(* ===== verification/Chat.thy ===== *)
theory Chat
  imports SocialLaws
begin

text \<open>
  The chat handlers, \<^verbatim>\<open>server/tizcord_chat.c\<close>: channel messages, channel creation and
  deletion, channel history, direct messages and their history. They are given the socket
  of the sender and look its entry in the client array up themselves; none of them asks
  whether the sender is logged in.
\<close>

section \<open>Channels\<close>

definition channel_packet :: "env \<Rightarrow> channel_payload \<Rightarrow> packet" where
  "channel_packet env p = (create_base_packet (now env) PACKET_CHANNEL)\<lparr>payload := Channel p\<rparr>"

definition message_history_cb ::
  "env \<Rightarrow> int \<Rightarrow> i32 \<Rightarrow> i64 \<Rightarrow> i64 \<times> string \<times> string \<times> i64 \<Rightarrow> i32 \<times> srv \<Rightarrow> i32 \<times> srv" where
  "message_history_cb env fd lid channel_id row ctx =
     (case (row, ctx) of ((msg_id, name, content, t), (current_index, s)) \<Rightarrow>
        (current_index + 1,
         post env fd ((channel_packet env (zero_channel\<lparr>ch_action := channel_code CHANNEL_MESSAGE,
             ch_channel_id := channel_id, ch_message_id := msg_id,
             ch_name := strncpy0 (MAX_NAME_LEN - 1) name,
             ch_message := strncpy0 (MESSAGE_LEN - 1) content\<rparr>))
           \<lparr>list_id := lid, list_index := current_index,
            list_frame := frame_code LIST_FRAME_MIDDLE, timestamp := t\<rparr>) s))"

text \<open>Every connected socket but the excluded one, whatever the channel.\<close>

definition channel_broadcast :: "env \<Rightarrow> packet \<Rightarrow> int \<Rightarrow> srv \<Rightarrow> srv" where
  "channel_broadcast env p sender_fd s =
     fold (\<lambda>c s. if 0 < socket_fd c \<and> socket_fd c \<noteq> sender_fd then post env (socket_fd c) p s else s)
       (clients s) s"

text \<open>\<open>strncpy (dst, src, n)\<close> into an array that holds \<open>old\<close>: what follows the \<open>n\<close> bytes stays.\<close>

definition strncpy_over :: "nat \<Rightarrow> string \<Rightarrow> string \<Rightarrow> string" where
  "strncpy_over n src old = (if length src < n then src else take n src @ drop n old)"

definition find_sender :: "int \<Rightarrow> srv \<Rightarrow> client option" where
  "find_sender sender_fd s = find (\<lambda>c. socket_fd c = sender_fd) (clients s)"

definition channel_message :: "env \<Rightarrow> packet \<Rightarrow> channel_payload \<Rightarrow> int \<Rightarrow> srv \<Rightarrow> srv" where
  "channel_message env p c sender_fd s =
     (case find_sender sender_fd s of
        None \<Rightarrow> channel_broadcast env p (-1) s
      | Some node \<Rightarrow>
          let s1 = channel_broadcast env (p\<lparr>sender_id := cid node,
                payload := Channel (c\<lparr>ch_name := strncpy_over (MAX_NAME_LEN - 1) (username node) (ch_name c)\<rparr>)\<rparr>) (-1) s
          in s1\<lparr>database := snd (db_save_message env (database s1) (ch_channel_id c) (cid node) (ch_message c))\<rparr>)"

definition channel_create :: "env \<Rightarrow> channel_payload \<Rightarrow> int \<Rightarrow> srv \<Rightarrow> srv" where
  "channel_create env c sender_fd s =
     (let reply = zero_channel\<lparr>ch_action := channel_code CHANNEL_CREATE, ch_server_id := ch_server_id c\<rparr>;
          allowed = (case find_sender sender_fd s of None \<Rightarrow> False
            | Some node \<Rightarrow> db_user_is_server_admin env (database s) (ch_server_id c) (cid node) = Some True) in
      if \<not> allowed
      then post env sender_fd (channel_packet env (reply\<lparr>ch_status := resp RESP_ERR_UNAUTHORIZED\<rparr>)) s
      else case db_create_channel env (database s) (ch_server_id c) (ch_name c) of
        (None, db) \<Rightarrow> post env sender_fd (channel_packet env (reply\<lparr>ch_status := resp RESP_ERR_DB\<rparr>))
          (s\<lparr>database := db\<rparr>)
      | (Some i, db) \<Rightarrow> post env sender_fd (channel_packet env (reply\<lparr>ch_status := resp RESP_OK,
          ch_channel_id := i, ch_name := strncpy0 (MAX_NAME_LEN - 1) (ch_name c)\<rparr>)) (s\<lparr>database := db\<rparr>))"

definition channel_delete :: "env \<Rightarrow> channel_payload \<Rightarrow> int \<Rightarrow> srv \<Rightarrow> srv" where
  "channel_delete env c sender_fd s =
     (let reply = (\<lambda>code. channel_packet env (zero_channel\<lparr>ch_action := channel_code CHANNEL_DELETE,
            ch_channel_id := ch_channel_id c, ch_status := resp code\<rparr>)) in
      case find_sender sender_fd s of
        None \<Rightarrow> post env sender_fd (reply RESP_ERR_INTERNAL) s
      | Some node \<Rightarrow>
          (case db_get_channel_server_id env (database s) (ch_channel_id c) of
             None \<Rightarrow> post env sender_fd (reply RESP_ERR_NOT_FOUND) s
           | Some server_id \<Rightarrow>
               if db_user_is_server_admin env (database s) server_id (cid node) \<noteq> Some True
               then post env sender_fd (reply RESP_ERR_UNAUTHORIZED) s
               else case db_delete_channel env (database s) (ch_channel_id c) of
                 (rc, db) \<Rightarrow> post env sender_fd (reply (if rc = 0 then RESP_OK else RESP_ERR_DB))
                   (s\<lparr>database := db\<rparr>)))"

definition channel_history :: "env \<Rightarrow> channel_payload \<Rightarrow> int \<Rightarrow> srv \<Rightarrow> srv" where
  "channel_history env c sender_fd s =
     (let lid = to_i32 (ch_channel_id c);
          p = channel_packet env (zero_channel\<lparr>ch_action := channel_code CHANNEL_MESSAGE\<rparr>);
          s1 = post env sender_fd (p\<lparr>list_id := lid, list_frame := frame_code LIST_FRAME_START\<rparr>) s;
          (_, s2) = fold (message_history_cb env sender_fd lid (ch_channel_id c))
            (snd (db_list_channel_messages env (database s1) (ch_channel_id c))) (0, s1)
      in post env sender_fd (p\<lparr>list_id := lid, list_frame := frame_code LIST_FRAME_END\<rparr>) s2)"

definition handle_channel_message :: "env \<Rightarrow> packet \<Rightarrow> channel_payload \<Rightarrow> int \<Rightarrow> srv \<Rightarrow> srv" where
  "handle_channel_message env p c sender_fd s =
     (case channel_action_of (ch_action c) of
        Some CHANNEL_MESSAGE \<Rightarrow> channel_message env p c sender_fd s
      | Some CHANNEL_CREATE \<Rightarrow> channel_create env c sender_fd s
      | Some CHANNEL_DELETE \<Rightarrow> channel_delete env c sender_fd s
      | Some CHANNEL_HISTORY_REQUEST \<Rightarrow> channel_history env c sender_fd s
      | None \<Rightarrow> s)"

section \<open>Direct messages\<close>

definition dm_packet :: "env \<Rightarrow> dm_payload \<Rightarrow> packet" where
  "dm_packet env p = (create_base_packet (now env) PACKET_DM)\<lparr>payload := Dm p\<rparr>"

text \<open>
  A history row says by the author's name who sent it. The recipient field has 32 bits; it
  is widened for the database and for comparisons with client ids.
\<close>

definition direct_message_history_cb :: "env \<Rightarrow> int \<Rightarrow> i32 \<Rightarrow> i64 \<Rightarrow> i64 \<Rightarrow> string \<Rightarrow>
    i64 \<times> string \<times> string \<times> string \<times> i64 \<Rightarrow> i32 \<times> srv \<Rightarrow> i32 \<times> srv" where
  "direct_message_history_cb env fd lid my_user_id friend_id my_username row ctx =
     (case (row, ctx) of ((msg_id, sender_name, _, content, t), (current_index, s)) \<Rightarrow>
        (current_index + 1,
         post env fd ((dm_packet env (zero_dm\<lparr>dm_action := dm_code DM_MESSAGE,
             dm_recipient := to_i32 friend_id, dm_message_id := msg_id,
             dm_message := strncpy0 (MESSAGE_LEN - 1) content\<rparr>))
           \<lparr>list_id := lid, list_index := current_index, list_frame := frame_code LIST_FRAME_MIDDLE,
            sender_id := (if sender_name = my_username then my_user_id else friend_id),
            timestamp := t\<rparr>) s))"

definition direct_message :: "env \<Rightarrow> packet \<Rightarrow> dm_payload \<Rightarrow> int \<Rightarrow> srv \<Rightarrow> srv" where
  "direct_message env p d sender_fd s =
     (let node = find_sender sender_fd s;
          recipient = to_i64 (dm_recipient d);
          p1 = (case node of None \<Rightarrow> p | Some n \<Rightarrow> p\<lparr>sender_id := cid n\<rparr>);
          s1 = (case node of None \<Rightarrow> s
                | Some n \<Rightarrow> s\<lparr>database := snd (db_save_direct_message env (database s) (cid n) recipient (dm_message d))\<rparr>)
      in case find (\<lambda>c. 0 < socket_fd c \<and> cid c = recipient) (clients s1) of
           None \<Rightarrow> s1
         | Some c \<Rightarrow> post env (socket_fd c) p1 s1)"

definition direct_message_history :: "env \<Rightarrow> dm_payload \<Rightarrow> int \<Rightarrow> srv \<Rightarrow> srv" where
  "direct_message_history env d sender_fd s =
     (case find_sender sender_fd s of
        None \<Rightarrow> s
      | Some node \<Rightarrow>
          let lid = dm_recipient d; friend_id = to_i64 (dm_recipient d);
              my_username = strncpy0 (MAX_NAME_LEN - 1) (username node);
              p = dm_packet env (zero_dm\<lparr>dm_action := dm_code DM_MESSAGE, dm_recipient := to_i32 friend_id\<rparr>);
              s1 = post env sender_fd (p\<lparr>list_id := lid, list_frame := frame_code LIST_FRAME_START\<rparr>) s;
              (_, s2) = fold (direct_message_history_cb env sender_fd lid (cid node) friend_id my_username)
                (snd (db_list_direct_messages env (database s1) (cid node) friend_id)) (0, s1)
          in post env sender_fd (p\<lparr>list_id := lid, list_frame := frame_code LIST_FRAME_END\<rparr>) s2)"

definition handle_private_message :: "env \<Rightarrow> packet \<Rightarrow> dm_payload \<Rightarrow> int \<Rightarrow> srv \<Rightarrow> srv" where
  "handle_private_message env p d sender_fd s =
     (case dm_action_of (dm_action d) of
        Some DM_MESSAGE \<Rightarrow> direct_message env p d sender_fd s
      | Some DM_HISTORY_REQUEST \<Rightarrow> direct_message_history env d sender_fd s
      | None \<Rightarrow> s)"

definition handle_chat_packet :: "env \<Rightarrow> packet \<Rightarrow> int \<Rightarrow> srv \<Rightarrow> srv" where
  "handle_chat_packet env p sender_fd s =
     (case payload p of
        Dm d \<Rightarrow> handle_private_message env p d sender_fd s
      | Channel c \<Rightarrow> handle_channel_message env p c sender_fd s
      | _ \<Rightarrow> s)"

end
