(* ===== verification/ChatLaws.thy ===== *)
theory ChatLaws
  imports Chat
begin

text \<open>
  What the chat handlers leave alone, who their packets name and reach, who may create and
  delete channels, and what a handler lets a client do that is not logged in.
\<close>

section \<open>Frames and effects\<close>

lemma fold_broadcast:
  "fold (\<lambda>c s. if 0 < socket_fd c \<and> socket_fd c \<noteq> x then post env (socket_fd c) p s else s) cs s =
   s\<lparr>out := out s @ map (\<lambda>c. (socket_fd c, p)) (filter (\<lambda>c. 0 < socket_fd c \<and> socket_fd c \<noteq> x) cs)\<rparr>"
  by (induction cs arbitrary: s) (simp_all add: post_def send_to_def)

lemma channel_broadcast_eq:
  "channel_broadcast env p x s =
   s\<lparr>out := out s @ map (\<lambda>c. (socket_fd c, p)) (filter (\<lambda>c. 0 < socket_fd c \<and> socket_fd c \<noteq> x) (clients s))\<rparr>"
  unfolding channel_broadcast_def by (rule fold_broadcast)

interpretation broadcast: speaker "\<lambda>(p, x). channel_broadcast env p x" for env
  by unfold_locales (auto simp: channel_broadcast_eq speaks_def)

lemma speaks_streamed:
  assumes "\<And>r n s. speaks s (snd (cb r (n, s)))"
  shows "speaks s (post env fd q (snd (fold cb rows (n, post env fd p s))))"
  using speaks_fold2 [where cb = cb and s = "post env fd p s" and rows = rows and n = n, OF assms]
    speaks_post speaks_trans by metis

lemma speaks_channel_history: "speaks s (channel_history env c fd s)"
  unfolding channel_history_def Let_def case_prod_beta
  by (rule speaks_streamed) (auto simp: message_history_cb_def speaks_post split: prod.split)

lemma speaks_dm_history: "speaks s (direct_message_history env d fd s)"
proof (cases "find_sender fd s")
  case (Some node)
  show ?thesis
    unfolding direct_message_history_def Some option.case Let_def case_prod_beta
    by (rule speaks_streamed) (auto simp: direct_message_history_cb_def speaks_post split: prod.split)
qed (simp add: direct_message_history_def)

lemmas chat_frames = speaks_post [THEN speaks_sessions] speaks_post [THEN speaksD(2)]
  speaks_channel_history [THEN speaks_sessions] speaks_channel_history [THEN speaksD(2)]
  speaks_dm_history [THEN speaks_sessions] speaks_dm_history [THEN speaksD(2)]

lemma sessions_chat_ops [frame]:
  "sessions (channel_message env p c fd s) = sessions s"
  "sessions (channel_create env c fd s) = sessions s"
  "sessions (channel_delete env c fd s) = sessions s"
  "sessions (direct_message env p d fd s) = sessions s"
  by (auto simp: channel_message_def channel_create_def channel_delete_def direct_message_def Let_def
      chat_frames channel_broadcast_eq sessions_def [of "_\<lparr>out := _\<rparr>"] sessions_def [of s] case_prod_beta
      split: option.split)

lemma sessions_handle_chat [frame]: "sessions (handle_chat_packet env p fd s) = sessions s"
  by (simp add: handle_chat_packet_def handle_channel_message_def handle_private_message_def frame
      chat_frames split: payload.split option.split channel_action.split dm_action.split)

text \<open>The database after a chat packet.\<close>

definition chat_effect :: "env \<Rightarrow> packet \<Rightarrow> int \<Rightarrow> srv \<Rightarrow> db" where
  "chat_effect env p fd s =
     (let db = database s in
      case find_sender fd s of
        None \<Rightarrow> db
      | Some node \<Rightarrow>
          (case payload p of
             Channel c \<Rightarrow>
               (case channel_action_of (ch_action c) of
                  Some CHANNEL_MESSAGE \<Rightarrow> snd (db_save_message env db (ch_channel_id c) (cid node) (ch_message c))
                | Some CHANNEL_CREATE \<Rightarrow>
                    if db_user_is_server_admin env db (ch_server_id c) (cid node) = Some True
                    then snd (db_create_channel env db (ch_server_id c) (ch_name c)) else db
                | Some CHANNEL_DELETE \<Rightarrow>
                    (case db_get_channel_server_id env db (ch_channel_id c) of
                       None \<Rightarrow> db
                     | Some v \<Rightarrow> if db_user_is_server_admin env db v (cid node) = Some True
                         then snd (db_delete_channel env db (ch_channel_id c)) else db)
                | _ \<Rightarrow> db)
           | Dm d \<Rightarrow>
               (if dm_action_of (dm_action d) = Some DM_MESSAGE
                then snd (db_save_direct_message env db (cid node) (to_i64 (dm_recipient d)) (dm_message d)) else db)
           | _ \<Rightarrow> db))"

lemma database_chat_ops:
  "database (channel_message env p c fd s) = (case find_sender fd s of None \<Rightarrow> database s
     | Some node \<Rightarrow> snd (db_save_message env (database s) (ch_channel_id c) (cid node) (ch_message c)))"
  "database (channel_create env c fd s) = (case find_sender fd s of None \<Rightarrow> database s
     | Some node \<Rightarrow> if db_user_is_server_admin env (database s) (ch_server_id c) (cid node) = Some True
         then snd (db_create_channel env (database s) (ch_server_id c) (ch_name c)) else database s)"
  "database (channel_delete env c fd s) = (case find_sender fd s of None \<Rightarrow> database s
     | Some node \<Rightarrow> (case db_get_channel_server_id env (database s) (ch_channel_id c) of None \<Rightarrow> database s
         | Some v \<Rightarrow> if db_user_is_server_admin env (database s) v (cid node) = Some True
             then snd (db_delete_channel env (database s) (ch_channel_id c)) else database s))"
  "database (direct_message env p d fd s) = (case find_sender fd s of None \<Rightarrow> database s
     | Some node \<Rightarrow> snd (db_save_direct_message env (database s) (cid node) (to_i64 (dm_recipient d)) (dm_message d)))"
  by (auto simp: channel_message_def channel_create_def channel_delete_def direct_message_def Let_def
      chat_frames channel_broadcast_eq case_prod_beta split: option.split prod.split)

lemma database_handle_chat: "database (handle_chat_packet env p fd s) = chat_effect env p fd s"
  by (simp add: handle_chat_packet_def handle_channel_message_def handle_private_message_def
      chat_effect_def database_chat_ops chat_frames Let_def
      split: payload.split option.split channel_action.split dm_action.split)

lemma wf_handle_chat [wf]: "db_wf (database s) \<Longrightarrow> db_wf (database (handle_chat_packet env p fd s))"
  unfolding database_handle_chat chat_effect_def Let_def
  by (simp add: wf split: option.split channel_action.split payload.split)

section \<open>Whom messages name and reach\<close>

text \<open>The packets a step has sent.\<close>

definition sent :: "srv \<Rightarrow> srv \<Rightarrow> (int \<times> packet) list" where
  "sent s s' = drop (length (out s)) (out s')"

text \<open>The request is a live message: a channel message or a direct message.\<close>

fun is_message :: "packet \<Rightarrow> bool" where
  "is_message p = (case payload p of
      Channel c \<Rightarrow> channel_action_of (ch_action c) = Some CHANNEL_MESSAGE
    | Dm d \<Rightarrow> dm_action_of (dm_action d) = Some DM_MESSAGE
    | _ \<Rightarrow> False)"

text \<open>
  C23: Nobody can speak in another's name: whatever sender id a client puts into a message,
  every packet the server sends for it carries the id of the client whose connection it came
  from, and the message text unchanged; a channel message carries that client's user name.
\<close>

theorem messages_name_their_sender:
  assumes "is_message p" and "find_sender fd s = Some node"
    and "(fd', q) \<in> set (sent s (handle_chat_packet env p fd s))"
  shows "sender_id q = cid node \<and>
    (case (payload p, payload q) of
       (Channel c, Channel c') \<Rightarrow> ch_message c' = ch_message c \<and>
         (length (username node) \<le> 30 \<longrightarrow> ch_name c' = username node)
     | (Dm d, Dm d') \<Rightarrow> d' = d
     | _ \<Rightarrow> False)"
proof (cases "payload p")
  case (Channel c)
  with assms show ?thesis
    by (auto simp: handle_chat_packet_def handle_channel_message_def channel_message_def Let_def
        channel_broadcast_eq sent_def strncpy_over_def)
next
  case (Dm d)
  with assms show ?thesis
    by (auto simp: handle_chat_packet_def handle_private_message_def direct_message_def Let_def
        post_def send_to_def sent_def split: option.splits)
qed (use assms in simp_all)

definition sample_chat :: packet where
  "sample_chat = (zero_packet PACKET_CHANNEL)\<lparr>sender_id := 2, payload := Channel (zero_channel\<lparr>
     ch_action := channel_code CHANNEL_MESSAGE, ch_channel_id := 1, ch_message := ''hello''\<rparr>)\<rparr>"

theorem messages_name_their_sender_witness:
  "map (\<lambda>m. sender_id (snd m)) (sent sample_srv (handle_chat_packet sample_env sample_chat 4 sample_srv)) =
     replicate 2 1"
proof (rule replicate_eqI)
  have m: "is_message sample_chat" by (simp add: sample_chat_def enum_of_def)
  have f: "find_sender 4 sample_srv = Some (clients sample_srv ! 0)"
    by (simp add: find_sender_def sample_srv_def)
  have "sender_id q = 1"
    if "(fd', q) \<in> set (sent sample_srv (handle_chat_packet sample_env sample_chat 4 sample_srv))" for fd' q
    using messages_name_their_sender [OF m f that] by (simp add: sample_srv_def)
  then show "y = 1"
    if "y \<in> set (map (\<lambda>m. sender_id (snd m)) (sent sample_srv (handle_chat_packet sample_env sample_chat 4 sample_srv)))" for y
    using that by auto
  show "length (map (\<lambda>m. sender_id (snd m)) (sent sample_srv (handle_chat_packet sample_env sample_chat 4 sample_srv))) = 2"
    by (simp add: handle_chat_packet_def handle_channel_message_def channel_message_def Let_def
        channel_broadcast_eq sent_def find_sender_def sample_chat_def enum_of_def sample_srv_def)
qed

text \<open>
  A channel message goes to every connected client, once each and in the order of the
  client array, the sender included. The channel and the login play no part: clients that
  are not members of the channel's server, or not logged in at all, get it too.
\<close>

theorem channel_message_reaches_everyone:
  assumes "payload p = Channel c" and "channel_action_of (ch_action c) = Some CHANNEL_MESSAGE"
  shows "map fst (sent s (handle_chat_packet env p fd s)) =
    map socket_fd (filter (\<lambda>c. 0 < socket_fd c) (clients s))"
proof -
  have live: "filter (\<lambda>c. 0 < socket_fd c \<and> socket_fd c \<noteq> -1) (clients s) =
      filter (\<lambda>c. 0 < socket_fd c) (clients s)" by (rule filter_cong) auto
  show ?thesis
    using assms by (auto simp: handle_chat_packet_def handle_channel_message_def channel_message_def Let_def
        channel_broadcast_eq sent_def live comp_def split: option.split)
qed

theorem channel_message_reaches_everyone_witness:
  "\<not> is_authenticated (clients sample_srv ! 1) \<and> socket_fd (clients sample_srv ! 1) = 5 \<and>
   map fst (sent sample_srv (handle_chat_packet sample_env sample_chat 4 sample_srv)) = [4, 5]"
proof -
  obtain c where c: "payload sample_chat = Channel c" "channel_action_of (ch_action c) = Some CHANNEL_MESSAGE"
    by (simp add: sample_chat_def enum_of_def)
  show ?thesis
    using channel_message_reaches_everyone [OF c, of sample_srv sample_env 4] by (simp add: sample_srv_def)
qed

text \<open>
  A direct message goes to at most one socket, that of a client with the recipient's id,
  and is saved for that recipient under the sender's id; no other row of the database changes.
\<close>

theorem direct_message_reaches_recipient:
  assumes "payload p = Dm d" and "dm_action_of (dm_action d) = Some DM_MESSAGE"
    and "find_sender fd s = Some node"
  shows "(sent s (handle_chat_packet env p fd s) = [] \<or>
      (\<exists>c q. sent s (handle_chat_packet env p fd s) = [(socket_fd c, q)] \<and> c \<in> set (clients s) \<and>
         cid c = to_i64 (dm_recipient d))) \<and>
    (database (handle_chat_packet env p fd s) = database s \<or>
     (\<exists>i. database (handle_chat_packet env p fd s) = database s\<lparr>dms := dms (database s) @
        [\<lparr>d_id = i, d_sender = cid node, d_receiver = to_i64 (dm_recipient d),
          d_content = dm_message d, d_created = now env\<rparr>]\<rparr>))"
proof -
  let ?s1 = "s\<lparr>database := snd (db_save_direct_message env (database s) (cid node)
      (to_i64 (dm_recipient d)) (dm_message d))\<rparr>"
  have "sent s (handle_chat_packet env p fd s) = [] \<or>
      (\<exists>c q. sent s (handle_chat_packet env p fd s) = [(socket_fd c, q)] \<and> c \<in> set (clients s) \<and>
         cid c = to_i64 (dm_recipient d))"
  proof (cases "find (\<lambda>c. 0 < socket_fd c \<and> cid c = to_i64 (dm_recipient d)) (clients s)")
    case None
    then show ?thesis
      using assms by (simp add: handle_chat_packet_def handle_private_message_def direct_message_def
          Let_def sent_def)
  next
    case (Some c)
    then have "c \<in> set (clients s)" "cid c = to_i64 (dm_recipient d)"
      by (auto simp: find_Some_iff)
    with Some show ?thesis
      using assms by (auto simp: handle_chat_packet_def handle_private_message_def direct_message_def
          Let_def sent_def post_def send_to_def)
  qed
  moreover have "database (handle_chat_packet env p fd s) = database ?s1"
    unfolding database_handle_chat using assms by (simp add: chat_effect_def)
  ultimately show ?thesis
    by (auto simp: db_save_direct_message_def split: option.split)
qed

definition sample_dm :: packet where
  "sample_dm = (zero_packet PACKET_DM)\<lparr>payload := Dm (zero_dm\<lparr>dm_action := dm_code DM_MESSAGE,
     dm_recipient := 2, dm_message := ''psst''\<rparr>)\<rparr>"

theorem direct_message_reaches_recipient_witness:
  "sent sample_srv (handle_chat_packet sample_env sample_dm 4 sample_srv) = [] \<and>
   dms (database (handle_chat_packet sample_env sample_dm 4 sample_srv)) \<noteq> []"
proof -
  obtain d where d: "payload sample_dm = Dm d" "dm_action_of (dm_action d) = Some DM_MESSAGE" "dm_recipient d = 2"
      "dm_message d = ''psst''"
    by (simp add: sample_dm_def enum_of_def)
  have f: "find_sender 4 sample_srv = Some (clients sample_srv ! 0)"
    by (simp add: find_sender_def sample_srv_def)
  have saved: "dms (database (handle_chat_packet sample_env sample_dm 4 sample_srv)) \<noteq> []"
    unfolding database_handle_chat using d
    by (simp add: chat_effect_def find_sender_def db_save_direct_message_def insert_id_def write_ok_def sample_srv_def
        sample_defs word_sless_alt)
  have "\<forall>c \<in> set (clients sample_srv). cid c \<noteq> to_i64 2" by (simp add: sample_srv_def)
  with direct_message_reaches_recipient [OF d(1,2) f, of sample_env] d(3) saved
  show ?thesis by auto
qed

section \<open>Who may create and delete channels\<close>

text \<open>A channel that one of two databases has.\<close>

abbreviation channel_differs :: "channel_row \<Rightarrow> db \<Rightarrow> db \<Rightarrow> bool" where
  "channel_differs c db db' \<equiv> (c \<in> set (channels db)) \<noteq> (c \<in> set (channels db'))"

lemma created_channel:
  "channel_differs c db (snd (db_create_channel env db v name)) \<Longrightarrow> c_server c = v"
  by (cases "c \<in> set (channels db)") (simp_all add: db_create_channel_def split: option.splits)

lemma deleted_channel:
  assumes "db_wf db" and "channel_differs c db (snd (db_delete_channel env db k))"
    and "db_get_channel_server_id env db k = Some v"
  shows "c_server c = v"
proof -
  have "c \<in> set (channels db) \<and> c_id c = k"
    using assms(2) by (cases "c \<in> set (channels db)",
        simp_all add: db_delete_channel_def delete_channel_rows_def split: if_splits)
  then have here: "c \<in> set (channels db)" "c_id c = k" by simp_all
  obtain r where r: "find (\<lambda>r. c_id r = k) (channels db) = Some r" "c_server r = v"
    using assms(3) by (auto simp: db_get_channel_server_id_def dest!: first_row_find)
  then have "r \<in> set (channels db)" "c_id r = c_id c" using here(2) by (auto simp: find_Some_iff)
  with here assms(1) have "r = c" by (auto simp: db_wf_def channels_wf_def distinct_map inj_on_def)
  with r show ?thesis by simp
qed

text \<open>The two requests that change the channels, behind their checks.\<close>

lemma channel_request_changes:
  assumes "channel_differs c (database s) (chat_effect env p fd s)"
  shows "\<exists>node (k :: channel_payload) v. find_sender fd s = Some node \<and>
    db_user_is_server_admin env (database s) v (cid node) = Some True \<and>
    (channel_differs c (database s) (snd (db_create_channel env (database s) v (ch_name k))) \<or>
     db_get_channel_server_id env (database s) (ch_channel_id k) = Some v \<and>
     channel_differs c (database s) (snd (db_delete_channel env (database s) (ch_channel_id k))))"
proof -
  have same: "channels (snd (db_save_message env db a b t)) = channels db"
      "channels (snd (db_save_direct_message env db a b t)) = channels db" for db a b t
    by (simp_all add: db_save_message_def db_save_direct_message_def split: option.split)
  obtain node where node: "find_sender fd s = Some node"
    using assms by (cases "find_sender fd s") (simp_all add: chat_effect_def)
  note eff = chat_effect_def node Let_def
  obtain k where k: "payload p = Channel k"
    using assms by (cases "payload p") (auto simp: eff same split: if_splits)
  obtain a where a: "channel_action_of (ch_action k) = Some a"
    using assms by (cases "channel_action_of (ch_action k)") (simp_all add: eff k)
  show ?thesis
  proof (cases a)
    case CHANNEL_CREATE
    have "db_user_is_server_admin env (database s) (ch_server_id k) (cid node) = Some True \<and>
        channel_differs c (database s) (snd (db_create_channel env (database s) (ch_server_id k) (ch_name k)))"
      using assms CHANNEL_CREATE
      by (cases "db_user_is_server_admin env (database s) (ch_server_id k) (cid node) = Some True") (simp_all add: eff k a)
    with node show ?thesis
      by (intro exI [of _ node] exI [of _ k] exI [of _ "ch_server_id k"] conjI disjI1) simp_all
  next
    case CHANNEL_DELETE
    then obtain v where v: "db_get_channel_server_id env (database s) (ch_channel_id k) = Some v"
      using assms by (cases "db_get_channel_server_id env (database s) (ch_channel_id k)") (simp_all add: eff k a)
    then have "db_user_is_server_admin env (database s) v (cid node) = Some True \<and>
        channel_differs c (database s) (snd (db_delete_channel env (database s) (ch_channel_id k)))"
      using assms CHANNEL_DELETE
      by (cases "db_user_is_server_admin env (database s) v (cid node) = Some True") (simp_all add: eff k a)
    with node v show ?thesis by (intro exI [of _ node] exI [of _ k] exI [of _ v] conjI disjI2) simp_all
  qed (use assms in \<open>simp_all add: eff k a same\<close>)
qed

text \<open>
  C27: The channels change only at the hands of an administrator: a new or vanished channel
  belongs to a server that the client whose connection the packet came from administers.
\<close>

theorem channel_changes_need_admin:
  assumes "db_wf (database s)"
    and "(c \<in> set (channels (database s))) \<noteq> (c \<in> set (channels (database (handle_chat_packet env p fd s))))"
  shows "\<exists>node. find_sender fd s = Some node \<and> is_admin_of (database s) (c_server c) (cid node) = Some True"
proof -
  from assms(2) obtain node v and k :: channel_payload where r: "find_sender fd s = Some node"
      "db_user_is_server_admin env (database s) v (cid node) = Some True"
      "channel_differs c (database s) (snd (db_create_channel env (database s) v (ch_name k))) \<or>
       db_get_channel_server_id env (database s) (ch_channel_id k) = Some v \<and>
       channel_differs c (database s) (snd (db_delete_channel env (database s) (ch_channel_id k)))"
    using channel_request_changes [of c s env p fd] unfolding database_handle_chat by blast
  then have "c_server c = v" using created_channel deleted_channel [OF assms(1)] by blast
  with r(1,2) admin_query show ?thesis by blast
qed

theorem channel_changes_need_admin_witness:
  "is_admin_of (database sample_srv) 1 1 = Some True"
proof -
  let ?p = "(zero_packet PACKET_CHANNEL)\<lparr>payload := Channel (zero_channel\<lparr>
    ch_action := channel_code CHANNEL_DELETE, ch_channel_id := 1\<rparr>)\<rparr>"
  let ?c = "\<lparr>c_id = 1, c_server = 1, c_name = ''talk''\<rparr>"
  have wf: "db_wf (database sample_srv)" by (simp add: db_wf_def wf_defs sample_srv_def sample_defs word_sless_alt)
  have "(?c \<in> set (channels (database sample_srv))) \<noteq>
      (?c \<in> set (channels (database (handle_chat_packet sample_env ?p 4 sample_srv))))"
    unfolding database_handle_chat
    by (simp add: chat_effect_def find_sender_def enum_of_def sample_srv_def sample_defs zero_channel_def
        db_get_channel_server_id_def db_user_is_server_admin_def db_delete_channel_def
        delete_channel_rows_def first_row_def step_rows_def write_ok_def)
  from channel_changes_need_admin [OF wf this] show ?thesis
    by (auto simp: find_sender_def sample_srv_def split: if_splits)
qed

end
