(* ===== verification/Auth.thy ===== *)
theory Auth
  imports ChatLaws
begin

text \<open>
  The account handlers, \<^verbatim>\<open>server/auth.c\<close>: registering, logging in, which ends every other
  session of the account, and logging out. They are given the socket of the client. What
  they do to the client array and the database is proved here, for the session invariant.
\<close>

section \<open>Handlers\<close>

definition clear_client_session :: "client \<Rightarrow> client" where
  "clear_client_session c = c\<lparr>is_authenticated := False, cid := 0, username := [],
     joined_server_count := 0, current_server_index := -1\<rparr>"

text \<open>The assignments that link an account to a connection.\<close>

definition link_identity :: "i64 \<Rightarrow> string \<Rightarrow> client \<Rightarrow> client" where
  "link_identity user_id name c = c\<lparr>is_authenticated := True, cid := user_id,
     username := strncpy0 (MAX_NAME_LEN - 1) name\<rparr>"

definition link_socket :: "int \<Rightarrow> i64 \<Rightarrow> string \<Rightarrow> srv \<Rightarrow> srv" where
  "link_socket fd user_id name s =
     s\<lparr>clients := upd_first (\<lambda>c. socket_fd c = fd) (link_identity user_id name) (clients s)\<rparr>"

definition auth_packet :: "auth_action \<Rightarrow> i32 \<Rightarrow> string \<Rightarrow> packet" where
  "auth_packet action status name = plain_packet (Auth (zero_auth\<lparr>auth_action := auth_code action,
     auth_status := status, auth_username := strncpy0 (MAX_NAME_LEN - 1) name\<rparr>))"

definition revoke_client :: "env \<Rightarrow> int \<Rightarrow> i64 \<Rightarrow> string \<Rightarrow> nat \<Rightarrow> srv \<Rightarrow> srv" where
  "revoke_client env current_fd user_id name i s =
     (let other = clients s ! i in
      if socket_fd other \<le> 0 \<or> socket_fd other = current_fd then s
      else if \<not> is_authenticated other \<or> cid other \<noteq> user_id then s
      else (post env (socket_fd other) (auth_packet AUTH_LOGOUT (resp RESP_OK) name) s)
             \<lparr>clients := (clients s)[i := clear_client_session other]\<rparr>)"

definition revoke_existing_login :: "env \<Rightarrow> int \<Rightarrow> i64 \<Rightarrow> string \<Rightarrow> srv \<Rightarrow> srv" where
  "revoke_existing_login env current_fd user_id name s =
     fold (revoke_client env current_fd user_id name) [0..<length (clients s)] s"

definition register_account :: "env \<Rightarrow> int \<Rightarrow> auth_payload \<Rightarrow> srv \<Rightarrow> srv" where
  "register_account env fd a s =
     (let reply = (\<lambda>status. post env fd (auth_packet AUTH_REGISTER status [])) in
      case gensalt env of
        None \<Rightarrow> reply 1 s
      | Some setting \<Rightarrow>
          (case crypt env (auth_password a) setting of
             None \<Rightarrow> reply 1 s
           | Some hash \<Rightarrow>
               (case db_create_user env (database s) (auth_username a) hash of
                  (Some user_id, db) \<Rightarrow>
                    reply (resp RESP_OK) (notify_all_user_lists env
                      (link_socket fd user_id (auth_username a) (s\<lparr>database := db\<rparr>)))
                | (None, db) \<Rightarrow> reply (resp RESP_ERR_CONFLICT) (s\<lparr>database := db\<rparr>))))"

definition login_account :: "env \<Rightarrow> int \<Rightarrow> auth_payload \<Rightarrow> srv \<Rightarrow> srv" where
  "login_account env fd a s =
     (let reply = (\<lambda>status. post env fd (auth_packet AUTH_LOGIN status [])) in
      case db_get_password_hash env (database s) (auth_username a) of
        None \<Rightarrow> reply 1 s
      | Some (user_id, db_hash) \<Rightarrow>
          if crypt env (auth_password a) db_hash \<noteq> Some db_hash then reply (resp RESP_ERR_INVALID) s
          else reply (resp RESP_OK) (notify_all_user_lists env
            (notify_server_member_lists_for_user env user_id
              (link_socket fd user_id (auth_username a)
                (revoke_existing_login env fd user_id (auth_username a) s)))))"

definition logout_account :: "env \<Rightarrow> int \<Rightarrow> srv \<Rightarrow> srv" where
  "logout_account env fd s =
     (case find (\<lambda>c. socket_fd c = fd) (clients s) of
        None \<Rightarrow> s
      | Some c \<Rightarrow>
          if \<not> is_authenticated c
          then post env fd (auth_packet AUTH_LOGOUT (resp RESP_ERR_UNAUTHORIZED) []) s
          else post env fd (auth_packet AUTH_LOGOUT (resp RESP_DONE) (username c))
            (notify_all_user_lists env (notify_server_member_lists_for_user env (cid c)
              (s\<lparr>clients := upd_first (\<lambda>c. socket_fd c = fd) clear_client_session (clients s)\<rparr>))))"

definition handle_auth_packet :: "env \<Rightarrow> int \<Rightarrow> auth_payload \<Rightarrow> srv \<Rightarrow> srv" where
  "handle_auth_packet env fd a s =
     (case auth_action_of (auth_action a) of
        Some AUTH_REGISTER \<Rightarrow> register_account env fd a s
      | Some AUTH_LOGIN \<Rightarrow> login_account env fd a s
      | Some AUTH_LOGOUT \<Rightarrow> logout_account env fd s
      | None \<Rightarrow> s)"

section \<open>Their effect on clients and database\<close>

text \<open>A loop over the indices that may replace the entry at hand is a map over the array.\<close>

lemma fold_clients:
  assumes "\<And>i s. clients (f i s) = (clients s)[i := g (clients s ! i)]"
  shows "n \<le> length (clients s) \<Longrightarrow>
    clients (fold f [0..<n] s) = map g (take n (clients s)) @ drop n (clients s)"
proof (induction n)
  case (Suc n)
  then have "clients (fold f [0..<n] s) = map g (take n (clients s)) @ drop n (clients s)"
    and n: "n < length (clients s)" by simp_all
  then show ?case
    by (simp add: assms nth_append take_Suc_conv_app_nth list_update_append min_def
        flip: Cons_nth_drop_Suc)
qed simp

text \<open>The sessions that a login ends.\<close>

definition revoked :: "int \<Rightarrow> i64 \<Rightarrow> client \<Rightarrow> bool" where
  "revoked fd user_id c \<longleftrightarrow> 0 < socket_fd c \<and> socket_fd c \<noteq> fd \<and> is_authenticated c \<and> cid c = user_id"

lemma clients_revoke:
  "clients (revoke_existing_login env fd u name s) =
     map (\<lambda>c. if revoked fd u c then clear_client_session c else c) (clients s)"
proof -
  have "clients (revoke_client env fd u name i t) = (clients t)[i :=
      (if revoked fd u (clients t ! i) then clear_client_session (clients t ! i) else clients t ! i)]" for i t
    by (auto simp: revoke_client_def Let_def revoked_def)
  from fold_clients [where f = "revoke_client env fd u name" and n = "length (clients s)" and s = s, OF this]
  show ?thesis by (simp add: revoke_existing_login_def)
qed

lemma database_revoke: "database (revoke_existing_login env fd u name s) = database s"
  unfolding revoke_existing_login_def
  by (rule fold_frame) (simp add: revoke_client_def Let_def speaks_post [THEN speaksD(2)])

lemma server_fd_revoke: "server_fd (revoke_existing_login env fd u name s) = server_fd s"
  unfolding revoke_existing_login_def
  by (rule fold_frame) (simp add: revoke_client_def Let_def speaks_post [THEN speaksD(3)])

lemmas auth_speaks = speaks_post notify_users.quiet notify_user.quiet

lemmas auth_frames = auth_speaks [THEN speaksD(1)] auth_speaks [THEN speaksD(2)]
  auth_speaks [THEN speaksD(3)] database_revoke server_fd_revoke clients_revoke

lemma login_effect:
  "database (login_account env fd a s) = database s"
  "clients (login_account env fd a s) =
     (case db_get_password_hash env (database s) (auth_username a) of
        Some (u, h) \<Rightarrow>
          if crypt env (auth_password a) h = Some h
          then upd_first (\<lambda>c. socket_fd c = fd) (link_identity u (auth_username a))
            (map (\<lambda>c. if revoked fd u c then clear_client_session c else c) (clients s))
          else clients s
      | None \<Rightarrow> clients s)"
  by (auto simp: login_account_def Let_def link_socket_def auth_frames split: option.split)

lemma register_effect:
  "(database (register_account env fd a s), clients (register_account env fd a s)) =
     (case gensalt env of None \<Rightarrow> (database s, clients s)
      | Some setting \<Rightarrow>
        (case crypt env (auth_password a) setting of None \<Rightarrow> (database s, clients s)
         | Some hash \<Rightarrow>
           (case db_create_user env (database s) (auth_username a) hash of
              (Some u, db) \<Rightarrow> (db, upd_first (\<lambda>c. socket_fd c = fd) (link_identity u (auth_username a)) (clients s))
            | (None, db) \<Rightarrow> (db, clients s))))"
  by (auto simp: register_account_def Let_def link_socket_def auth_frames split: option.split prod.split)

lemma logout_effect:
  "database (logout_account env fd s) = database s"
  "clients (logout_account env fd s) =
     (case find (\<lambda>c. socket_fd c = fd) (clients s) of
        Some c \<Rightarrow> if is_authenticated c
          then upd_first (\<lambda>c. socket_fd c = fd) clear_client_session (clients s) else clients s
      | None \<Rightarrow> clients s)"
  by (auto simp: logout_account_def auth_frames split: option.split)

lemma wf_register: "db_wf (database s) \<Longrightarrow> db_wf (database (register_account env fd a s))"
proof -
  assume db: "db_wf (database s)"
  have "database (register_account env fd a s) = fst (database (register_account env fd a s),
      clients (register_account env fd a s))" by simp
  also have "db_wf \<dots>"
    unfolding register_effect using db wf_create_user [OF db]
    by (auto split: option.split prod.split) (metis snd_conv)+
  finally show ?thesis .
qed

lemma wf_handle_auth [wf]: "db_wf (database s) \<Longrightarrow> db_wf (database (handle_auth_packet env fd a s))"
  by (simp add: handle_auth_packet_def wf_register login_effect logout_effect
      split: option.split auth_action.split)

end
