(* ===== verification/Sessions.thy ===== *)
theory Sessions
  imports Auth
begin

text \<open>
  The session invariant of the server: which sockets its clients have, that a client is
  logged in as an account of the database, and that no account is logged in twice. The
  handlers that touch no session keep it by the interface \<open>session_keeper\<close>; registering,
  logging in and logging out keep it by what they do to the client array.
\<close>

section \<open>The invariant\<close>

definition accounts :: "db \<Rightarrow> (i64 \<times> string) list" where
  "accounts db = map (\<lambda>u. (u_id u, u_name u)) (users db)"

text \<open>
  A client: its receive buffer and offset are in bounds; when it is logged in, its socket is
  a live one and its id and name are an account's; otherwise it has neither.
\<close>

definition client_ok :: "(i64 \<times> string) set \<Rightarrow> client \<Rightarrow> bool" where
  "client_ok accts c \<longleftrightarrow> 0 \<le> socket_fd c \<and> length (receive_buffer c) = PACKET_SIZE \<and>
     receive_offset c < PACKET_SIZE \<and>
     (if is_authenticated c
      then 0 < socket_fd c \<and> (\<exists>name. (cid c, name) \<in> accts \<and> username c = take 31 name)
      else cid c = 0 \<and> username c = [])"

definition one_login :: "client list \<Rightarrow> bool" where
  "one_login cs \<longleftrightarrow> distinct (map cid (filter is_authenticated cs))"

definition clients_ok :: "(i64 \<times> string) set \<Rightarrow> client list \<Rightarrow> bool" where
  "clients_ok accts cs \<longleftrightarrow> distinct (map socket_fd cs) \<and> (\<forall>c \<in> set cs. client_ok accts c) \<and> one_login cs"

definition srv_inv :: "srv \<Rightarrow> bool" where
  "srv_inv s \<longleftrightarrow> db_wf (database s) \<and> clients_ok (set (accounts (database s))) (clients s) \<and>
     server_fd s \<notin> socket_fd ` set (clients s)"

text \<open>It depends on the sessions alone.\<close>

lemma clients_ok_cong:
  assumes "map session cs = map session cs'"
  shows "clients_ok accts cs \<longleftrightarrow> clients_ok accts cs'"
proof -
  have fds: "map socket_fd cs = map socket_fd cs'"
    using arg_cong [OF assms, of "map (\<lambda>(_, fd, _). fd)"] by (simp add: session_def comp_def)
  have logins: "map cid (filter is_authenticated cs) = map cid (filter is_authenticated cs')"
    using arg_cong [OF assms, of "\<lambda>xs. map fst (filter (\<lambda>(_, _, a, _). a) xs)"]
    by (simp add: session_def filter_map comp_def)
  have ok: "list_all (client_ok accts) cs \<longleftrightarrow> list_all (client_ok accts) cs'"
  proof -
    have "list_all (client_ok accts) xs \<longleftrightarrow> list_all (\<lambda>(i, fd, a, name, buf, off).
        0 \<le> fd \<and> length buf = PACKET_SIZE \<and> off < PACKET_SIZE \<and>
        (if a then 0 < fd \<and> (\<exists>n. (i, n) \<in> accts \<and> name = take 31 n) else i = 0 \<and> name = []))
        (map session xs)" for xs
      by (simp add: list_all_iff session_def client_ok_def)
    then show ?thesis by (simp add: assms)
  qed
  show ?thesis using fds logins ok by (simp add: clients_ok_def one_login_def list_all_iff)
qed

lemma client_ok_mono: "client_ok A c \<Longrightarrow> A \<subseteq> B \<Longrightarrow> client_ok B c"
  by (auto simp: client_ok_def split: if_splits)

section \<open>Handlers that touch no session\<close>

locale session_keeper =
  fixes act :: "srv \<Rightarrow> srv"
  assumes keeps_sessions: "sessions (act s) = sessions s"
    and keeps_accounts: "accounts (database (act s)) = accounts (database s)"
    and keeps_wf: "db_wf (database s) \<Longrightarrow> db_wf (database (act s))"
    and keeps_listener: "server_fd (act s) = server_fd s"
begin

lemma keeps_fds: "map socket_fd (clients (act s)) = map socket_fd (clients s)"
  using arg_cong [OF keeps_sessions [of s], of "map (\<lambda>(_, fd, _). fd)"]
  by (simp add: sessions_def session_def comp_def)

lemma keeps_length: "length (clients (act s)) = length (clients s)"
  using keeps_fds by (metis length_map)

lemma keeps_inv: "srv_inv s \<Longrightarrow> srv_inv (act s)"
  using clients_ok_cong [of "clients (act s)" "clients s"] keeps_sessions [of s]
    keeps_fds [of s, THEN arg_cong, of set]
  by (simp add: srv_inv_def keeps_accounts keeps_wf keeps_listener sessions_def)

end

text \<open>The accounts that the functions of the database leave alone.\<close>

lemma accounts_users: "users db' = users db \<Longrightarrow> accounts db' = accounts db"
  by (simp add: accounts_def)

lemma accounts_join [simp]: "accounts (snd (db_join_server env db v u a)) = accounts db"
  by (rule accounts_users) (simp add: db_join_server_def split: option.split)

lemma accounts_ops [simp]:
  "accounts (snd (db_leave_server env db v u)) = accounts db"
  "accounts (snd (db_kick_server_member env db v u)) = accounts db"
  "accounts (snd (db_delete_server env db v u)) = accounts db"
  "accounts (snd (db_create_server env db name u)) = accounts db"
  "accounts (snd (db_save_message env db c u t)) = accounts db"
  "accounts (snd (db_save_direct_message env db a b t)) = accounts db"
  "accounts (snd (db_create_channel env db v name)) = accounts db"
  "accounts (snd (db_delete_channel env db c)) = accounts db"
  by (simp_all add: db_leave_server_def db_kick_server_member_def delete_members_def db_delete_server_def
      delete_server_rows_def db_create_server_def db_save_message_def db_save_direct_message_def
      db_create_channel_def db_delete_channel_def delete_channel_rows_def Let_def accounts_def
      db_join_server_def split: option.split)

lemma accounts_friend_ops [simp]:
  "accounts (snd (db_accept_friend_request env db a b)) = accounts db"
  "accounts (snd (db_remove_friendship env db a b)) = accounts db"
  "accounts (snd (db_reject_friend_request env db a b)) = accounts db"
  "accounts (snd (db_send_friend_request env db a b)) = accounts db"
proof -
  have same: "accounts (db\<lparr>friends := fs\<rparr>) = accounts db" for fs by (simp add: accounts_def)
  show acc: "accounts (snd (db_accept_friend_request env db a b)) = accounts db"
    by (auto simp: db_accept_friend_request_def Let_def same split: option.split)
  show "accounts (snd (db_remove_friendship env db a b)) = accounts db"
    by (simp add: db_remove_friendship_def same)
  show "accounts (snd (db_reject_friend_request env db a b)) = accounts db"
    by (simp add: db_reject_friend_request_def same)
  show "accounts (snd (db_send_friend_request env db a b)) = accounts db"
    using acc by (simp add: db_send_friend_request_def Let_def case_prod_beta same split: option.split)
qed

lemma accounts_status [simp]: "accounts (snd (db_update_user_status env db u t)) = accounts db"
proof -
  have "map (\<lambda>u. (u_id u, u_name u)) (map (\<lambda>v. if u_id v = u then v\<lparr>u_status := t\<rparr> else v) us) =
      map (\<lambda>u. (u_id u, u_name u)) us" for us :: "user_row list"
    by simp
  then show ?thesis by (simp add: db_update_user_status_def accounts_def)
qed

lemma accounts_effects:
  "accounts (server_effect env i p s) = accounts (database s)"
  "accounts (social_effect env i q s) = accounts (database s)"
  "accounts (chat_effect env r fd s) = accounts (database s)"
  by (simp_all add: server_effect_def social_effect_def chat_effect_def Let_def
      split: option.split server_action.split social_action.split payload.split channel_action.split)

lemmas listener_speaks =
  speaks_reply [THEN speaksD(3)] speaks_reply_list [THEN speaksD(3)] speaks_action [THEN speaksD(3)]
  notify_list.quiet [THEN speaksD(3)] social_speaks [THEN speaksD(3)] speaks_post [THEN speaksD(3)]
  speaks_channel_history [THEN speaksD(3)] speaks_dm_history [THEN speaksD(3)]

lemma listener_server: "server_fd (handle_server_packet env i p s) = server_fd s"
proof -
  have "server_fd (list_tizcord_servers env i s) = server_fd s"
    "server_fd (list_tizcord_channels env i v s) = server_fd s"
    "server_fd (list_members env i v s) = server_fd s"
    "server_fd (list_joined_servers env i s) = server_fd s"
    "server_fd (join_tizcord_server env i v s) = server_fd s"
    "server_fd (leave_tizcord_server env i v s) = server_fd s"
    "server_fd (create_tizcord_server env i name s) = server_fd s"
    "server_fd (delete_tizcord_server env i v s) = server_fd s"
    "server_fd (kick_server_member env i v u s) = server_fd s" for v u name
    by (simp_all add: list_tizcord_servers_def list_tizcord_channels_def list_members_def
        list_joined_servers_def join_tizcord_server_def leave_tizcord_server_def
        create_tizcord_server_def delete_tizcord_server_def kick_server_member_def listener_speaks
        Let_def case_prod_beta)
  then show ?thesis
    by (simp add: handle_server_packet_def Let_def listener_speaks split: option.split server_action.split)
qed

lemma listener_social: "server_fd (handle_social_packet env i p s) = server_fd s"
proof -
  have "server_fd (request_friend env i p s) = server_fd s" "server_fd (accept_friend env i p s) = server_fd s"
    "server_fd (remove_friend_request env i p s) = server_fd s" "server_fd (reject_friend env i p s) = server_fd s"
    "server_fd (update_status env i p s) = server_fd s"
    by (simp_all add: request_friend_def accept_friend_def remove_friend_request_def reject_friend_def
        update_status_def listener_speaks Let_def case_prod_beta split: option.split)
  then show ?thesis
    by (simp add: handle_social_packet_def Let_def listener_speaks split: option.split social_action.split)
qed

lemma listener_chat: "server_fd (handle_chat_packet env p fd s) = server_fd s"
proof -
  have "server_fd (channel_message env p c fd s) = server_fd s" "server_fd (channel_create env c fd s) = server_fd s"
    "server_fd (channel_delete env c fd s) = server_fd s" "server_fd (direct_message env p d fd s) = server_fd s" for c d
    by (simp_all add: channel_message_def channel_create_def channel_delete_def direct_message_def Let_def
        listener_speaks channel_broadcast_eq case_prod_beta split: option.split prod.split)
  then show ?thesis
    by (simp add: handle_chat_packet_def handle_channel_message_def handle_private_message_def
        listener_speaks split: payload.split option.split channel_action.split dm_action.split)
qed

lemmas accounts_handlers = accounts_effects
  [folded database_handle_server database_handle_social database_handle_chat]

interpretation server_keeper: session_keeper "handle_server_packet env i p" for env i p
  by unfold_locales (simp_all add: frame wf listener_server accounts_handlers)

interpretation social_keeper: session_keeper "handle_social_packet env i p" for env i p
  by unfold_locales (simp_all add: frame wf listener_social accounts_handlers)

interpretation chat_keeper: session_keeper "handle_chat_packet env p fd" for env p fd
  by unfold_locales (simp_all add: frame wf listener_chat accounts_handlers)

section \<open>Registering, logging in, logging out\<close>

lemma one_login_iff:
  assumes "distinct (map socket_fd cs)"
  shows "one_login cs \<longleftrightarrow> (\<forall>c \<in> set cs. \<forall>d \<in> set cs.
    is_authenticated c \<and> is_authenticated d \<and> cid c = cid d \<longrightarrow> socket_fd c = socket_fd d)"
proof -
  have "distinct cs" and inj: "inj_on socket_fd (set cs)"
    using assms by (simp_all add: distinct_map)
  then have "one_login cs \<longleftrightarrow> inj_on cid (set (filter is_authenticated cs))"
    by (simp add: one_login_def distinct_map)
  also have "\<dots> \<longleftrightarrow> (\<forall>c \<in> set cs. \<forall>d \<in> set cs.
      is_authenticated c \<and> is_authenticated d \<and> cid c = cid d \<longrightarrow> socket_fd c = socket_fd d)"
    using inj by (auto simp: inj_on_def)
  finally show ?thesis .
qed

text \<open>
  Changing the clients by a function that keeps the sockets keeps the invariant when it
  keeps \<open>client_ok\<close> and lets no account be logged in on two sockets.
\<close>

lemma clients_ok_map:
  assumes "clients_ok A cs" and fd: "\<And>c. socket_fd (f c) = socket_fd c"
    and "\<And>c. c \<in> set cs \<Longrightarrow> client_ok B (f c)"
    and "\<And>c d. c \<in> set cs \<Longrightarrow> d \<in> set cs \<Longrightarrow> is_authenticated (f c) \<Longrightarrow> is_authenticated (f d) \<Longrightarrow>
      cid (f c) = cid (f d) \<Longrightarrow> socket_fd c = socket_fd d"
  shows "clients_ok B (map f cs)"
proof -
  have d: "distinct (map socket_fd (map f cs))"
    using assms(1) by (simp add: clients_ok_def fd comp_def)
  have "one_login (map f cs)"
    unfolding one_login_iff [OF d] by (simp add: fd) (use assms(4) in blast)
  with d show ?thesis using assms(3) by (simp add: clients_ok_def)
qed

lemma one_loginD:
  "clients_ok A cs \<Longrightarrow> c \<in> set cs \<Longrightarrow> d \<in> set cs \<Longrightarrow> is_authenticated c \<Longrightarrow> is_authenticated d \<Longrightarrow>
   cid c = cid d \<Longrightarrow> socket_fd c = socket_fd d"
  using one_login_iff [of cs] unfolding clients_ok_def by blast

lemma client_okD:
  "clients_ok A cs \<Longrightarrow> c \<in> set cs \<Longrightarrow> client_ok A c"
  "clients_ok A cs \<Longrightarrow> c \<in> set cs \<Longrightarrow> is_authenticated c \<Longrightarrow> 0 < socket_fd c"
  "clients_ok A cs \<Longrightarrow> c \<in> set cs \<Longrightarrow> is_authenticated c \<Longrightarrow> \<exists>n. (cid c, n) \<in> A"
  by (auto simp: clients_ok_def client_ok_def split: if_splits)

text \<open>The session of a client with the socket \<open>fd\<close> replaced.\<close>

lemma clients_ok_upd:
  assumes "clients_ok A cs" and "\<And>c. socket_fd (f c) = socket_fd c"
  shows "upd_first (\<lambda>c. socket_fd c = fd) f cs = map (\<lambda>c. if socket_fd c = fd then f c else c) cs"
  by (rule upd_first_distinct) (use assms(1) in \<open>simp add: clients_ok_def\<close>)

lemma link_ok: "(u, name) \<in> A \<Longrightarrow> 0 < socket_fd c \<Longrightarrow> client_ok B c \<Longrightarrow> client_ok A (link_identity u name c)"
  by (auto simp: client_ok_def link_identity_def strncpy0_def)

lemma clear_ok: "client_ok A c \<Longrightarrow> client_ok A (clear_client_session c)"
  by (simp add: client_ok_def clear_client_session_def)

lemma session_fields [simp]:
  "socket_fd (link_identity u name c) = socket_fd c" "socket_fd (clear_client_session c) = socket_fd c"
  "is_authenticated (link_identity u name c)" "\<not> is_authenticated (clear_client_session c)"
  "cid (link_identity u name c) = u"
  by (simp_all add: link_identity_def clear_client_session_def)

text \<open>A login: every other session of the account is cleared, then the account is linked.\<close>

lemma login_clients_ok:
  assumes ok: "clients_ok A cs" and acct: "(u, name) \<in> A" and fd: "0 < fd"
  shows "clients_ok A (upd_first (\<lambda>c. socket_fd c = fd) (link_identity u name)
    (map (\<lambda>c. if revoked fd u c then clear_client_session c else c) cs))"
proof -
  let ?r = "\<lambda>c. if revoked fd u c then clear_client_session c else c"
  let ?f = "\<lambda>c. if socket_fd c = fd then link_identity u name (?r c) else ?r c"
  have fds: "distinct (map socket_fd (map ?r cs))"
    using ok by (simp add: clients_ok_def comp_def if_distrib [of socket_fd] cong: if_cong)
  have "upd_first (\<lambda>c. socket_fd c = fd) (link_identity u name) (map ?r cs) =
      map (\<lambda>c. if socket_fd c = fd then link_identity u name c else c) (map ?r cs)"
    by (rule upd_first_distinct [OF fds])
  also have "\<dots> = map ?f cs" by auto
  also have "clients_ok A (map ?f cs)"
  proof (rule clients_ok_map [OF ok])
    show "socket_fd (?f c) = socket_fd c" for c by simp
    show "client_ok A (?f c)" if "c \<in> set cs" for c
    proof -
      have r: "client_ok A (?r c)" using client_okD(1) [OF ok that] by (simp add: clear_ok)
      show ?thesis using link_ok [OF acct _ r] r fd by simp
    qed
    fix c d assume cd: "c \<in> set cs" "d \<in> set cs" "is_authenticated (?f c)" "is_authenticated (?f d)"
      "cid (?f c) = cid (?f d)"
    have only: "socket_fd x = fd" if "x \<in> set cs" "is_authenticated (?r x)" "cid (?r x) = u" for x
      using that client_okD(2) [OF ok that(1)] by (auto simp: revoked_def split: if_splits)
    have plain: "is_authenticated x \<and> ?r x = x" if "is_authenticated (?r x)" for x
      using that by (simp split: if_splits)
    show "socket_fd c = socket_fd d"
    proof (cases "socket_fd c = fd \<or> socket_fd d = fd")
      case True
      then show ?thesis using cd only [of c] only [of d] by (auto simp del: session_fields(4) split: if_splits)
    next
      case False
      then have "is_authenticated (?r c)" "is_authenticated (?r d)" "cid (?r c) = cid (?r d)"
        using cd(3-5) by simp_all
      with plain [of c] plain [of d] one_loginD [OF ok cd(1,2)] show ?thesis by simp
    qed
  qed
  finally show ?thesis .
qed

lemma fds_map: "(\<And>c. socket_fd (f c) = socket_fd c) \<Longrightarrow> socket_fd ` set (map f cs) = socket_fd ` set cs"
  by (simp add: image_image)

lemma find_SomeD: "find P xs = Some x \<Longrightarrow> x \<in> set xs \<and> P x"
  by (auto simp: find_Some_iff)

lemma create_user_accounts:
  "db_create_user env db name hash = (Some u, db') \<Longrightarrow>
   accounts db' = accounts db @ [(u, name)] \<and> (u, n) \<notin> set (accounts db)"
  by (auto simp: db_create_user_def Let_def accounts_def split: option.splits dest!: insert_id_Some)

lemma inv_login:
  assumes "srv_inv s" and "0 < fd" shows "srv_inv (login_account env fd a s)"
proof -
  have acct: "(u, auth_username a) \<in> set (accounts (database s))"
    if "db_get_password_hash env (database s) (auth_username a) = Some (u, h)" for u h
    using that by (auto simp: db_get_password_hash_def accounts_def dest!: first_row_find find_SomeD)
  have same: "socket_fd ` set (clients (login_account env fd a s)) = socket_fd ` set (clients s)"
  proof -
    have "map socket_fd (clients (login_account env fd a s)) = map socket_fd (clients s)"
      by (auto simp: login_effect map_upd_first split: option.split)
    then show ?thesis by (metis set_map)
  qed
  have "server_fd (login_account env fd a s) = server_fd s"
    by (auto simp: login_account_def Let_def link_socket_def auth_frames split: option.split)
  with assms same show ?thesis
    by (auto simp: srv_inv_def login_effect acct intro!: login_clients_ok split: option.split)
qed

lemma inv_register:
  assumes inv: "srv_inv s" and "0 < fd" shows "srv_inv (register_account env fd a s)"
proof -
  let ?s' = "register_account env fd a s"
  have fd': "server_fd ?s' = server_fd s"
    by (auto simp: register_account_def Let_def link_socket_def auth_frames split: option.split prod.split)
  have wf: "db_wf (database ?s')" using inv wf_register by (simp add: srv_inv_def)
  consider (same) "clients ?s' = clients s" "database ?s' = database s"
    | (new) u hash where "db_create_user env (database s) (auth_username a) hash = (Some u, database ?s')"
        "clients ?s' = upd_first (\<lambda>c. socket_fd c = fd) (link_identity u (auth_username a)) (clients s)"
    using register_effect [of env fd a s]
    by (auto simp: db_create_user_def Let_def split: option.splits prod.splits)
  then show ?thesis
  proof cases
    case same
    with inv fd' show ?thesis by (simp add: srv_inv_def)
  next
    case (new u hash)
    let ?name = "auth_username a"
    let ?A = "set (accounts (database s))" and ?B = "set (accounts (database ?s'))"
    have ok: "clients_ok ?A (clients s)" using inv by (simp add: srv_inv_def)
    have B: "?B = insert (u, ?name) ?A" and fresh: "(u, n) \<notin> ?A" for n
      using create_user_accounts [OF new(1), of n] by auto
    let ?f = "\<lambda>c. if socket_fd c = fd then link_identity u ?name c else c"
    have "clients_ok ?B (map ?f (clients s))"
    proof (rule clients_ok_map [OF ok])
      show "socket_fd (?f c) = socket_fd c" for c by simp
      show "client_ok ?B (?f c)" if "c \<in> set (clients s)" for c
      proof -
        have "client_ok ?B c" by (rule client_ok_mono [OF client_okD(1) [OF ok that]]) (simp add: B subset_insertI)
        moreover have "(u, ?name) \<in> ?B" by (simp add: B)
        ultimately show ?thesis using link_ok \<open>0 < fd\<close> by simp
      qed
      fix c d assume cd: "c \<in> set (clients s)" "d \<in> set (clients s)" "is_authenticated (?f c)"
        "is_authenticated (?f d)" "cid (?f c) = cid (?f d)"
      have other: "cid x \<noteq> u" if "x \<in> set (clients s)" "is_authenticated x" for x
        using client_okD(3) [OF ok that] fresh by auto
      show "socket_fd c = socket_fd d"
        using cd other [of c] other [of d] one_loginD [OF ok cd(1,2)] by (simp split: if_splits)
    qed
    moreover have "clients ?s' = map ?f (clients s)"
      unfolding new(2) by (rule clients_ok_upd [OF ok]) simp
    moreover have "socket_fd ` set (map ?f (clients s)) = socket_fd ` set (clients s)"
      by (rule fds_map) simp
    ultimately show ?thesis using inv wf fd' by (simp add: srv_inv_def)
  qed
qed

lemma inv_logout:
  assumes inv: "srv_inv s" shows "srv_inv (logout_account env fd s)"
proof -
  let ?f = "\<lambda>c. if socket_fd c = fd then clear_client_session c else c"
  have ok: "clients_ok (set (accounts (database s))) (clients s)" using inv by (simp add: srv_inv_def)
  have "clients_ok (set (accounts (database s))) (map ?f (clients s))"
  proof (rule clients_ok_map [OF ok])
    show "socket_fd (?f c) = socket_fd c" for c by simp
    show "client_ok (set (accounts (database s))) (?f c)" if "c \<in> set (clients s)" for c
      using ok that by (auto simp: clients_ok_def intro: clear_ok)
    fix c d assume cd: "c \<in> set (clients s)" "d \<in> set (clients s)" "is_authenticated (?f c)"
      "is_authenticated (?f d)" "cid (?f c) = cid (?f d)"
    from cd(3-5) one_loginD [OF ok cd(1,2)] show "socket_fd c = socket_fd d"
      by (simp split: if_splits)
  qed
  moreover have "upd_first (\<lambda>c. socket_fd c = fd) clear_client_session (clients s) = map ?f (clients s)"
    by (rule clients_ok_upd [OF ok]) simp
  moreover have "socket_fd ` set (map ?f (clients s)) = socket_fd ` set (clients s)"
    by (rule fds_map) simp
  moreover have "server_fd (logout_account env fd s) = server_fd s"
    by (auto simp: logout_account_def auth_frames split: option.split)
  ultimately show ?thesis
    using inv by (auto simp: srv_inv_def logout_effect split: option.split)
qed

lemma inv_handle_auth:
  "srv_inv s \<Longrightarrow> 0 < fd \<Longrightarrow> srv_inv (handle_auth_packet env fd a s)"
  by (simp add: handle_auth_packet_def inv_register inv_login inv_logout split: option.split auth_action.split)

lemma length_handle_auth: "length (clients (handle_auth_packet env fd a s)) = length (clients s)"
proof -
  have "length (clients (register_account env fd a s)) = length (clients s)"
    using register_effect [of env fd a s] by (auto split: option.splits prod.splits)
  then show ?thesis
    by (simp add: handle_auth_packet_def login_effect logout_effect split: option.split auth_action.split)
qed

end
