(* ===== verification/EventLoop.thy ===== *)
theory EventLoop
  imports Sessions
begin

text \<open>
  The server's event loop, \<^verbatim>\<open>server/server.c\<close>: accepting connections, dispatching packets,
  and the rounds of \<open>run_server_loop\<close>. Everything the kernel answers in a round is an
  argument: the sockets that \<open>select\<close> finds readable, the outcomes of \<open>accept\<close>, the
  \<open>recv\<close> events of each socket. A run is a sequence of rounds (\<open>reach\<close>).
\<close>

section \<open>The loop\<close>

abbreviation (input) MAX_CLIENTS :: nat where "MAX_CLIENTS \<equiv> 64"

definition init_server_context :: "int \<Rightarrow> db \<Rightarrow> srv" where
  "init_server_context listen_fd db = \<lparr>server_fd = listen_fd, clients = [], database = db,
     next_list_id = 1, out = []\<rparr>"

datatype accept_event = Accepted int | Accept_intr | Accept_fails

text \<open>
  Interrupted calls of \<open>accept\<close> are repeated. After \<open>select\<close> has announced a connection the
  script ends with an answer; an exhausted one counts as a failure.
\<close>

fun accept_connection :: "accept_event list \<Rightarrow> int" where
  "accept_connection [] = -1"
| "accept_connection (Accept_intr # evs) = accept_connection evs"
| "accept_connection (Accept_fails # evs) = -1"
| "accept_connection (Accepted fd # evs) = fd"

definition new_client :: "int \<Rightarrow> client" where
  "new_client fd = \<lparr>cid = 0, socket_fd = fd, is_authenticated = False, username = [],
     joined_server_count = 0, current_server_index = -1, receive_buffer = replicate PACKET_SIZE 0,
     receive_offset = 0\<rparr>"

text \<open>The new client's socket, or -1 when there is none or the server is full.\<close>

definition handle_new_connection :: "int \<Rightarrow> srv \<Rightarrow> int \<times> srv" where
  "handle_new_connection client_fd s =
     (if client_fd < 0 then (-1, s)
      else if MAX_CLIENTS \<le> length (clients s) then (-1, s)
      else (client_fd, s\<lparr>clients := clients s @ [new_client client_fd]\<rparr>))"

definition process_client_packet :: "env \<Rightarrow> nat \<Rightarrow> packet \<Rightarrow> srv \<Rightarrow> srv" where
  "process_client_packet env i p s =
     (let fd = socket_fd (clients s ! i) in
      case payload p of
        Auth a \<Rightarrow> handle_auth_packet env fd a s
      | Dm _ \<Rightarrow> handle_chat_packet env p fd s
      | Server v \<Rightarrow> handle_server_packet env i v s
      | Channel _ \<Rightarrow> handle_chat_packet env p fd s
      | Social v \<Rightarrow> handle_social_packet env i v s
      | System _ _ \<Rightarrow> s)"

text \<open>What happens in one round.\<close>

record round =
  world :: env
  selected :: "int set option"
  accepts :: "accept_event list"
  inbox :: "int \<Rightarrow> recv_event list"

text \<open>The server with the variables of \<open>run_server_loop\<close>.\<close>

record loop =
  server :: srv
  master_set :: "int set"
  max_fd :: int

text \<open>\<open>packet_receive_partial\<close> on a client, which updates its buffer and offset.\<close>

definition receive_from :: "endian \<Rightarrow> recv_event list \<Rightarrow> nat \<Rightarrow> srv \<Rightarrow> partial_result \<times> srv" where
  "receive_from e evs i s =
     (let c = clients s ! i in
      case packet_receive_partial e evs (receive_buffer c) (receive_offset c) of
        (r, buffer, offset, _) \<Rightarrow>
          (r, s\<lparr>clients := (clients s)[i := c\<lparr>receive_buffer := buffer, receive_offset := offset\<rparr>]\<rparr>))"

text \<open>A connection that is given up: its entry goes, and the others hear of it.\<close>

definition drop_client :: "env \<Rightarrow> nat \<Rightarrow> srv \<Rightarrow> srv" where
  "drop_client env i s =
     (let c = clients s ! i; s1 = s\<lparr>clients := remove_at i (clients s)\<rparr> in
      if is_authenticated c \<and> 0 <s cid c
      then notify_all_user_lists env (notify_server_member_lists_for_user env (cid c) s1) else s1)"

lemma length_process [simp]: "length (clients (process_client_packet env i p s)) = length (clients s)"
  by (simp add: process_client_packet_def Let_def length_handle_auth server_keeper.keeps_length
      social_keeper.keeps_length chat_keeper.keeps_length split: payload.split)

lemma length_receive_from: "receive_from e evs i s = (r, s') \<Longrightarrow> length (clients s') = length (clients s)"
  by (auto simp: receive_from_def Let_def split: prod.splits)

lemma clients_drop [simp]: "clients (drop_client env i s) = remove_at i (clients s)"
  by (simp add: drop_client_def Let_def)

text \<open>The loop over the clients, from index \<open>i\<close>, with the set of the sockets still watched.\<close>

function serve_clients :: "endian \<Rightarrow> env \<Rightarrow> (int \<Rightarrow> recv_event list) \<Rightarrow> int set \<Rightarrow> nat \<Rightarrow> srv \<Rightarrow> int set \<Rightarrow>
    srv \<times> int set" where
  "serve_clients e env inb read_set i s master =
     (if i < length (clients s) then
        let fd = socket_fd (clients s ! i) in
        if 0 < fd \<and> fd \<in> read_set then
          (case receive_from e (inb fd) i s of
             (Broken _, s1) \<Rightarrow> serve_clients e env inb read_set i (drop_client env i s1) (master - {fd})
           | (Pending, s1) \<Rightarrow> serve_clients e env inb read_set (Suc i) s1 master
           | (Got p, s1) \<Rightarrow> serve_clients e env inb read_set (Suc i) (process_client_packet env i p s1) master)
        else serve_clients e env inb read_set (Suc i) s master
      else (s, master))"
  by pat_completeness auto
termination
  by (relation "measure (\<lambda>(e, env, inb, read_set, i, s, master). length (clients s) - i)")
    (auto dest!: length_receive_from [OF sym])

declare serve_clients.simps [simp del]

lemma serve_end: "length (clients s) \<le> i \<Longrightarrow> serve_clients e env inb rs i s master = (s, master)"
  by (simp add: serve_clients.simps)

lemma serve_skip:
  "i < length (clients s) \<Longrightarrow> \<not> (0 < socket_fd (clients s ! i) \<and> socket_fd (clients s ! i) \<in> rs) \<Longrightarrow>
   serve_clients e env inb rs i s master = serve_clients e env inb rs (Suc i) s master"
  by (subst serve_clients.simps) auto

lemma serve_step:
  "i < length (clients s) \<Longrightarrow> 0 < socket_fd (clients s ! i) \<and> socket_fd (clients s ! i) \<in> rs \<Longrightarrow>
   receive_from e (inb (socket_fd (clients s ! i))) i s = (r, s1) \<Longrightarrow>
   serve_clients e env inb rs i s master = (case r of
       Broken n \<Rightarrow> serve_clients e env inb rs i (drop_client env i s1) (master - {socket_fd (clients s ! i)})
     | Pending \<Rightarrow> serve_clients e env inb rs (Suc i) s1 master
     | Got p \<Rightarrow> serve_clients e env inb rs (Suc i) (process_client_packet env i p s1) master)"
  by (subst serve_clients.simps) (simp add: Let_def split: partial_result.split)

text \<open>One round; \<open>None\<close> when \<open>select\<close> fails, which ends the server.\<close>

definition server_round :: "endian \<Rightarrow> round \<Rightarrow> loop \<Rightarrow> loop option" where
  "server_round e r l =
     (case selected r of
        None \<Rightarrow> None
      | Some sel \<Rightarrow>
          let read_set = {fd \<in> sel. fd \<in> master_set l \<and> fd \<le> max_fd l};
              (s1, master1, max1) =
                (if server_fd (server l) \<in> read_set then
                   (case handle_new_connection (accept_connection (accepts r)) (server l) of
                      (new_fd, s) \<Rightarrow>
                        if new_fd \<noteq> -1 then (s, insert new_fd (master_set l), max new_fd (max_fd l))
                        else (s, master_set l, max_fd l))
                 else (server l, master_set l, max_fd l));
              (s2, master2) = serve_clients e (world r) (inbox r) read_set 0 s1 master1
          in Some \<lparr>server = s2, master_set = master2, max_fd = max1\<rparr>)"

definition start_loop :: "srv \<Rightarrow> loop" where
  "start_loop s = \<lparr>server = s, master_set = {server_fd s}, max_fd = server_fd s\<rparr>"

section \<open>The invariant of the loop\<close>

text \<open>
  The sessions are in order, there are at most 64 clients, and the loop watches exactly the
  listening socket and the sockets of the clients.
\<close>

definition loop_inv :: "loop \<Rightarrow> bool" where
  "loop_inv l \<longleftrightarrow> srv_inv (server l) \<and> length (clients (server l)) \<le> MAX_CLIENTS \<and>
     master_set l = insert (server_fd (server l)) (socket_fd ` set (clients (server l))) \<and>
     (\<forall>fd \<in> master_set l. fd \<le> max_fd l)"

lemma inv_process:
  assumes "srv_inv s" and "0 < socket_fd (clients s ! i)"
  shows "srv_inv (process_client_packet env i p s)"
  using assms by (simp add: process_client_packet_def Let_def inv_handle_auth server_keeper.keeps_inv
      social_keeper.keeps_inv chat_keeper.keeps_inv split: payload.split)

lemma fds_auth: "map socket_fd (clients (handle_auth_packet env fd a s)) = map socket_fd (clients s)"
proof -
  have "map socket_fd (clients (register_account env fd a s)) = map socket_fd (clients s)"
    using register_effect [of env fd a s] by (auto simp: map_upd_first split: option.splits prod.splits)
  then show ?thesis
    by (simp add: handle_auth_packet_def login_effect logout_effect map_upd_first comp_def
        if_distrib [of socket_fd] cong: if_cong split: option.split auth_action.split)
qed

lemma fds_process: "map socket_fd (clients (process_client_packet env i p s)) = map socket_fd (clients s)"
  by (simp add: process_client_packet_def Let_def fds_auth server_keeper.keeps_fds
      social_keeper.keeps_fds chat_keeper.keeps_fds split: payload.split)

lemma listener_process: "server_fd (process_client_packet env i p s) = server_fd s"
proof -
  have "server_fd (handle_auth_packet env fd a s) = server_fd s" for fd a
    by (auto simp: handle_auth_packet_def register_account_def login_account_def logout_account_def
        Let_def link_socket_def auth_frames split: option.split auth_action.split prod.split)
  then show ?thesis
    by (simp add: process_client_packet_def Let_def listener_server listener_social listener_chat
        split: payload.split)
qed

text \<open>Receiving keeps the invariant unless the connection is given up.\<close>

lemma receive_from_inv:
  assumes inv: "srv_inv s" and i: "i < length (clients s)"
    and run: "receive_from e evs i s = (r, s')" and "\<forall>n. r \<noteq> Broken n"
  shows "srv_inv s'"
proof -
  let ?c = "clients s ! i"
  obtain buffer offset evs' where
    recv: "packet_receive_partial e evs (receive_buffer ?c) (receive_offset ?c) = (r, buffer, offset, evs')"
    and s': "s' = s\<lparr>clients := (clients s)[i := ?c\<lparr>receive_buffer := buffer, receive_offset := offset\<rparr>]\<rparr>"
    using run by (auto simp: receive_from_def Let_def split: prod.splits)
  have ok: "clients_ok (set (accounts (database s))) (clients s)" using inv by (simp add: srv_inv_def)
  then have c: "client_ok (set (accounts (database s))) ?c" using i by (simp add: clients_ok_def)
  then have "length buffer = PACKET_SIZE \<and> offset < PACKET_SIZE"
    using loop_bounds [OF _ _ recv] assms(4) by (simp add: client_ok_def)
  with c have c': "client_ok (set (accounts (database s))) (?c\<lparr>receive_buffer := buffer, receive_offset := offset\<rparr>)"
    by (simp add: client_ok_def)
  let ?cs = "(clients s)[i := ?c\<lparr>receive_buffer := buffer, receive_offset := offset\<rparr>]"
  have fds: "map socket_fd ?cs = map socket_fd (clients s)"
    using i by (simp add: map_update list_update_same_conv)
  have "map (\<lambda>c. (cid c, is_authenticated c)) ?cs = map (\<lambda>c. (cid c, is_authenticated c)) (clients s)"
    using i by (simp add: map_update list_update_same_conv)
  from arg_cong [OF this, of "\<lambda>xs. map fst (filter snd xs)"]
  have "map cid (filter is_authenticated ?cs) = map cid (filter is_authenticated (clients s))"
    by (simp add: filter_map comp_def)
  with ok fds have "clients_ok (set (accounts (database s))) ?cs"
    using c' i by (auto simp: clients_ok_def one_login_def dest!: set_update_subset_insert [THEN subsetD])
  moreover have "socket_fd ` set ?cs = socket_fd ` set (clients s)"
    using arg_cong [OF fds, of set] by simp
  ultimately show ?thesis using inv by (simp add: srv_inv_def s')
qed

text \<open>Dropping a client keeps it.\<close>

lemma remove_at_update [simp]: "remove_at i (xs[i := x]) = remove_at i xs"
  by (simp add: remove_at_def)

lemma clients_ok_remove:
  assumes "clients_ok A cs" shows "clients_ok A (remove_at i cs)"
proof -
  have sub: "set (remove_at i cs) \<subseteq> set cs" by (rule set_remove_at)
  have d: "distinct (map socket_fd (remove_at i cs))"
    using assms by (simp add: clients_ok_def map_remove_at distinct_remove_at)
  have "one_login (remove_at i cs)"
    unfolding one_login_iff [OF d] using sub one_loginD [OF assms] by blast
  with d sub assms show ?thesis by (auto simp: clients_ok_def)
qed

lemma drop_client_inv:
  assumes inv: "srv_inv s" and run: "receive_from e evs i s = (r, s1)"
  shows "srv_inv (drop_client env i s1)"
proof -
  have s1: "remove_at i (clients s1) = remove_at i (clients s)" "database s1 = database s" "server_fd s1 = server_fd s"
    using run by (auto simp: receive_from_def Let_def split: prod.splits)
  have "database (drop_client env i s1) = database s" "server_fd (drop_client env i s1) = server_fd s"
    by (simp_all add: drop_client_def Let_def s1 auth_frames)
  moreover have "clients_ok (set (accounts (database s))) (remove_at i (clients s))"
    using inv by (simp add: srv_inv_def clients_ok_remove)
  ultimately show ?thesis
    using inv set_remove_at [of i "clients s"] by (auto simp: srv_inv_def s1)
qed

lemma fds_remove:
  assumes "distinct (map socket_fd cs)" and "i < length cs"
  shows "socket_fd ` set (remove_at i cs) = socket_fd ` set cs - {socket_fd (cs ! i)}"
proof -
  have cs: "cs = take i cs @ cs ! i # drop (Suc i) cs" by (rule id_take_nth_drop [OF assms(2)])
  have "distinct (map socket_fd (take i cs @ cs ! i # drop (Suc i) cs))" using assms(1) cs by simp
  then have "socket_fd (cs ! i) \<notin> socket_fd ` (set (take i cs) \<union> set (drop (Suc i) cs))" by auto
  moreover have "set cs = insert (cs ! i) (set (take i cs) \<union> set (drop (Suc i) cs))"
    using arg_cong [OF cs, of set] by auto
  ultimately show ?thesis by (auto simp: remove_at_def)
qed

text \<open>Serving the clients keeps the invariant and the set of watched sockets exact.\<close>

definition watched :: "srv \<Rightarrow> int set \<Rightarrow> bool" where
  "watched s master \<longleftrightarrow> srv_inv s \<and> length (clients s) \<le> MAX_CLIENTS \<and>
     master = insert (server_fd s) (socket_fd ` set (clients s))"

lemma receive_from_frame:
  assumes "receive_from e evs i s = (r, s1)"
  shows "map socket_fd (clients s1) = map socket_fd (clients s)" and "server_fd s1 = server_fd s"
proof -
  have "map socket_fd ((clients s)[i := (clients s ! i)\<lparr>receive_buffer := b, receive_offset := o'\<rparr>]) =
      map socket_fd (clients s)" for b o'
    by (cases "i < length (clients s)") (simp_all add: map_update list_update_same_conv list_update_beyond)
  with assms show "map socket_fd (clients s1) = map socket_fd (clients s)" and "server_fd s1 = server_fd s"
    by (auto simp: receive_from_def Let_def split: prod.splits)
qed

lemma watched_cong:
  assumes "watched s master" and "srv_inv s'" and "map socket_fd (clients s') = map socket_fd (clients s)"
    and "server_fd s' = server_fd s"
  shows "watched s' master"
proof -
  have "length (clients s') = length (clients s)" using assms(3) by (metis length_map)
  moreover have "socket_fd ` set (clients s') = socket_fd ` set (clients s)"
    using arg_cong [OF assms(3), of set] by simp
  ultimately show ?thesis using assms by (simp add: watched_def)
qed

lemma watched_drop:
  assumes w: "watched s master" and i: "i < length (clients s)" and run: "receive_from e evs i s = (r, s1)"
  shows "watched (drop_client env i s1) (master - {socket_fd (clients s ! i)})"
proof -
  have cs: "clients (drop_client env i s1) = remove_at i (clients s)"
    using run by (auto simp: receive_from_def Let_def split: prod.splits)
  have fd: "server_fd (drop_client env i s1) = server_fd s"
    using receive_from_frame(2) [OF run] by (simp add: drop_client_def Let_def auth_frames)
  have inv: "srv_inv s" using w by (simp add: watched_def)
  then have d: "distinct (map socket_fd (clients s))" "server_fd s \<noteq> socket_fd (clients s ! i)"
    using i by (auto simp: srv_inv_def clients_ok_def)
  show ?thesis
    using w d fds_remove [OF d(1) i] drop_client_inv [OF inv run] i unfolding watched_def cs fd by auto
qed

lemma serve_clients_watched:
  "watched s master \<Longrightarrow> serve_clients e env inb rs i s master = (s', master') \<Longrightarrow>
   watched s' master' \<and> server_fd s' = server_fd s \<and> master' \<subseteq> master"
proof (induction e env inb rs i s master rule: serve_clients.induct)
  case (1 e env inb rs i s master)
  let ?fd = "socket_fd (clients s ! i)"
  show ?case
  proof (cases "i < length (clients s) \<and> 0 < ?fd \<and> ?fd \<in> rs")
    case False
    show ?thesis
    proof (cases "i < length (clients s)")
      case True
      with False have idle: "\<not> (0 < ?fd \<and> ?fd \<in> rs)" by simp
      with "1.IH"(4) [OF True refl idle] "1.prems" serve_skip [OF True idle] show ?thesis by simp
    qed (use "1.prems" in \<open>simp add: serve_end\<close>)
  next
    case True
    then have i: "i < length (clients s)" and rdy: "0 < ?fd \<and> ?fd \<in> rs" by simp_all
    obtain r s1 where run: "receive_from e (inb ?fd) i s = (r, s1)" by fastforce
    have inv: "srv_inv s" using "1.prems"(1) by (simp add: watched_def)
    note frame1 = receive_from_frame [OF run]
    note step = serve_step [where inb = inb, OF i rdy run]
    show ?thesis
    proof (cases r)
      case (Broken n)
      have "server_fd (drop_client env i s1) = server_fd s"
        using frame1(2) by (simp add: drop_client_def Let_def auth_frames)
      with "1.IH"(3) [OF i refl rdy run [symmetric] Broken] watched_drop [OF "1.prems"(1) i run]
        "1.prems"(2) step Broken show ?thesis by auto
    next
      case Pending
      have "watched s1 master"
        using watched_cong [OF "1.prems"(1) receive_from_inv [OF inv i run] frame1] Pending by simp
      with "1.IH"(1) [OF i refl rdy run [symmetric] Pending] "1.prems"(2) step Pending frame1
      show ?thesis by simp
    next
      case (Got p)
      have w1: "watched s1 master"
        using watched_cong [OF "1.prems"(1) receive_from_inv [OF inv i run] frame1] Got by simp
      have "socket_fd (clients s1 ! i) = ?fd"
        using arg_cong [OF frame1(1), of "\<lambda>xs. xs ! i"] i length_receive_from [OF run] by simp
      then have "watched (process_client_packet env i p s1) master"
        using watched_cong [OF w1 inv_process fds_process listener_process] w1 rdy
        by (simp add: watched_def)
      with "1.IH"(2) [OF i refl rdy run [symmetric] Got] "1.prems"(2) step Got frame1
      show ?thesis by (simp add: listener_process)
    qed
  qed
qed

end
