(* ===== verification/Runs.thy ===== *)
theory Runs
  imports EventLoop
begin

text \<open>
  Runs of the server as sequences of rounds, and what holds in every reachable state; what
  a login does to the sessions; what a round does with closed connections; a concrete run.
\<close>

section \<open>Runs\<close>

text \<open>
  A run starts with no client on a listening socket. In a round the kernel may hand out any
  socket that is not in use.
\<close>

definition kernel_fresh :: "round \<Rightarrow> loop \<Rightarrow> bool" where
  "kernel_fresh r l \<longleftrightarrow> (let fd = accept_connection (accepts r) in fd < 0 \<or> fd \<notin> master_set l)"

inductive reach :: "endian \<Rightarrow> int \<Rightarrow> db \<Rightarrow> loop \<Rightarrow> bool" for e lfd db where
  start: "reach e lfd db (start_loop (init_server_context lfd db))"
| step: "reach e lfd db l \<Longrightarrow> kernel_fresh r l \<Longrightarrow> server_round e r l = Some l' \<Longrightarrow> reach e lfd db l'"

inductive_cases reachE: "reach e lfd db l"

lemma new_client_inv:
  assumes "srv_inv s" and "0 \<le> fd" and "fd \<notin> insert (server_fd s) (socket_fd ` set (clients s))"
  shows "srv_inv (s\<lparr>clients := clients s @ [new_client fd]\<rparr>)"
  using assms by (auto simp: srv_inv_def clients_ok_def one_login_def client_ok_def new_client_def layout)

lemma round_inv:
  assumes inv: "loop_inv l" and fresh: "kernel_fresh r l" and run: "server_round e r l = Some l'"
  shows "loop_inv l'"
proof -
  let ?s = "server l" and ?fd = "accept_connection (accepts r)"
  obtain sel where sel: "selected r = Some sel" using run by (auto simp: server_round_def split: option.splits)
  let ?rs = "{fd \<in> sel. fd \<in> master_set l \<and> fd \<le> max_fd l}"
  obtain new_fd s where new: "handle_new_connection ?fd ?s = (new_fd, s)" by fastforce
  define st where "st = (if server_fd ?s \<in> ?rs \<and> new_fd \<noteq> -1
    then (s, insert new_fd (master_set l), max new_fd (max_fd l)) else (?s, master_set l, max_fd l))"
  obtain s1 m1 x1 where st1: "st = (s1, m1, x1)" by (cases st)
  obtain s2 m2 where serve: "serve_clients e (world r) (inbox r) ?rs 0 s1 m1 = (s2, m2)" by fastforce
  have idle: "new_fd = -1 \<Longrightarrow> s = ?s"
    using new by (auto simp: handle_new_connection_def split: if_splits)
  have l': "l' = \<lparr>server = s2, master_set = m2, max_fd = x1\<rparr>"
    using run st1 serve idle unfolding server_round_def sel st_def
    by (auto simp: Let_def new split: if_splits prod.splits)
  have "watched s1 m1 \<and> (\<forall>fd \<in> m1. fd \<le> x1)"
  proof (cases "server_fd ?s \<in> ?rs \<and> new_fd \<noteq> -1")
    case True
    then have s: "new_fd = ?fd" "0 \<le> ?fd" "length (clients ?s) < MAX_CLIENTS"
        "s = ?s\<lparr>clients := clients ?s @ [new_client ?fd]\<rparr>"
      using new by (auto simp: handle_new_connection_def split: if_splits)
    with inv fresh have "srv_inv s"
      using new_client_inv [of ?s ?fd] by (auto simp: loop_inv_def kernel_fresh_def Let_def)
    with True s inv st1 show ?thesis
      by (auto simp: st_def loop_inv_def watched_def new_client_def le_max_iff_disj)
  next
    case False
    with inv st1 show ?thesis by (auto simp: st_def loop_inv_def watched_def)
  qed
  with serve_clients_watched [OF _ serve] show ?thesis
    by (auto simp: loop_inv_def watched_def l')
qed

lemma reach_inv: "reach e lfd db l \<Longrightarrow> db_wf db \<Longrightarrow> loop_inv l"
proof (induction rule: reach.induct)
  case start
  then show ?case
    by (simp add: loop_inv_def start_loop_def init_server_context_def srv_inv_def clients_ok_def one_login_def)
next
  case (step l r l')
  then show ?case using round_inv by blast
qed

section \<open>A concrete run\<close>

text \<open>A connection is accepted, and its client registers an account.\<close>

lemma receive_one:
  assumes "sendable p" and "length buffer = PACKET_SIZE"
  shows "packet_receive_partial e [Data (wire e' p)] buffer 0 = (Got p, wire e' p, 0, [])"
proof -
  have len: "length (wire e' p) = PACKET_SIZE" by simp
  have pos: "0 < PACKET_SIZE" by (simp add: layout)
  then have ne: "wire e' p \<noteq> []" using len by (metis length_greater_0_conv)
  have loop: "partial_loop [Data (wire e' p)] buffer 0 = (None, wire e' p, PACKET_SIZE, [])"
    using partial_loop_step(6) [OF pos ne, of "[]" buffer] assms(2) len
    by (simp add: after_recv_def partial_loop_full put_bytes_def)
  show ?thesis
    using unwire_wire_other [OF assms(1)] by (simp add: packet_receive_partial_def loop)
qed

definition register_packet :: packet where
  "register_packet = (zero_packet PACKET_AUTH)\<lparr>payload := Auth (zero_auth\<lparr>
     auth_action := auth_code AUTH_REGISTER, auth_username := ''cat'', auth_password := ''pw''\<rparr>)\<rparr>"

definition sample_rounds :: "round list" where
  "sample_rounds =
     [\<lparr>world = sample_env, selected = Some {3}, accepts = [Accept_intr, Accepted 5], inbox = (\<lambda>_. [])\<rparr>,
      \<lparr>world = sample_env, selected = Some {5}, accepts = [],
       inbox = (\<lambda>_. [Data (wire Big register_packet)])\<rparr>]"

lemma sample_run:
  "\<exists>l. reach Little 3 sample_db l \<and> length (clients (server l)) = 1 \<and>
     is_authenticated (clients (server l) ! 0) \<and> cid (clients (server l) ! 0) = 3 \<and>
     username (clients (server l) ! 0) = ''cat'' \<and> socket_fd (clients (server l) ! 0) = 5"
proof -
  let ?l0 = "start_loop (init_server_context 3 sample_db)"
  let ?s1 = "(init_server_context 3 sample_db)\<lparr>clients := [new_client 5]\<rparr>"
  let ?l1 = "\<lparr>server = ?s1, master_set = {5, 3}, max_fd = 5\<rparr>"
  let ?r1 = "sample_rounds ! 0" and ?r2 = "sample_rounds ! 1"
  have 1: "server_round Little ?r1 ?l0 = Some ?l1"
    by (simp add: server_round_def sample_rounds_def start_loop_def init_server_context_def
        handle_new_connection_def serve_skip serve_end new_client_def Let_def)
  have "reach Little 3 sample_db ?l1"
    by (rule reach.step [OF reach.start _ 1])
      (simp add: kernel_fresh_def sample_rounds_def start_loop_def init_server_context_def)
  moreover
  let ?s2 = "?s1\<lparr>clients := [(new_client 5)\<lparr>receive_buffer := wire Big register_packet, receive_offset := 0\<rparr>]\<rparr>"
  let ?s3 = "process_client_packet sample_env 0 register_packet ?s2"
  have ok: "sendable register_packet"
    by (simp add: register_packet_def sendable_def packet_fits_def zero_defs fits_def packet_type_def)
  have recv: "receive_from Little (inbox ?r2 5) 0 ?s1 = (Got register_packet, ?s2)"
    using receive_one [OF ok, of "receive_buffer (new_client 5)"]
    by (simp add: receive_from_def sample_rounds_def new_client_def init_server_context_def)
  have serve: "serve_clients Little sample_env (inbox ?r2) {5} 0 ?s1 {5, 3} = (?s3, {5, 3})"
    using serve_step [where s = ?s1 and i = 0 and e = Little and inb = "inbox ?r2" and rs = "{5}"] recv
    by (simp add: new_client_def serve_end init_server_context_def)
  have "{fd. fd = (5 :: int) \<and> fd \<in> {5, 3} \<and> fd \<le> 5} = {5}" by auto
  then have 2: "server_round Little ?r2 ?l1 = Some \<lparr>server = ?s3, master_set = {5, 3}, max_fd = 5\<rparr>"
    using serve
    by (simp add: server_round_def sample_rounds_def init_server_context_def Let_def)
  ultimately have "reach Little 3 sample_db \<lparr>server = ?s3, master_set = {5, 3}, max_fd = 5\<rparr>"
    by (elim reach.step [OF _ _ 2]) (simp add: kernel_fresh_def sample_rounds_def)
  moreover have "clients ?s3 = [link_identity 3 ''cat''
      ((new_client 5)\<lparr>receive_buffer := wire Big register_packet, receive_offset := 0\<rparr>)]"
    using register_effect [of sample_env 5 "zero_auth\<lparr>auth_action := 1, auth_username := ''cat'',
        auth_password := ''pw''\<rparr>" ?s2]
    by (simp add: process_client_packet_def register_packet_def handle_auth_packet_def enum_of_def
        init_server_context_def new_client_def db_create_user_def insert_id_def write_ok_def sample_defs
        zero_auth_def word_sless_alt Let_def)
  ultimately show ?thesis
    by (intro exI [of _ "\<lparr>server = ?s3, master_set = {5, 3}, max_fd = 5\<rparr>"])
      (simp add: link_identity_def strncpy0_def new_client_def)
qed

lemma sample_db_wf: "db_wf sample_db"
  by (simp add: db_wf_def wf_defs sample_defs word_sless_alt)

section \<open>Properties of every run\<close>

text \<open>
  C1: Whatever clients send, whatever fails and in whatever order things happen, no account
  is ever logged in on two connections: two clients that are logged in with the same id are
  the same entry of the client array.
\<close>

theorem one_session_per_account:
  assumes "reach e lfd db l" and "db_wf db"
    and "i < length (clients (server l))" and "j < length (clients (server l))"
    and "is_authenticated (clients (server l) ! i)" and "is_authenticated (clients (server l) ! j)"
    and "cid (clients (server l) ! i) = cid (clients (server l) ! j)"
  shows "i = j"
proof -
  have ok: "clients_ok (set (accounts (database (server l)))) (clients (server l))"
    using reach_inv [OF assms(1,2)] by (simp add: loop_inv_def srv_inv_def)
  have "socket_fd (clients (server l) ! i) = socket_fd (clients (server l) ! j)"
    by (rule one_loginD [OF ok]) (use assms in simp_all)
  moreover have "distinct (map socket_fd (clients (server l)))" using ok by (simp add: clients_ok_def)
  ultimately show ?thesis using assms(3,4) by (simp add: distinct_conv_nth) (metis nth_map)
qed

theorem one_session_per_account_witness:
  "\<exists>l. reach Little 3 sample_db l \<and> is_authenticated (clients (server l) ! 0) \<and>
     (\<forall>j < length (clients (server l)). cid (clients (server l) ! j) = 3 \<and>
        is_authenticated (clients (server l) ! j) \<longrightarrow> 0 = j)"
proof -
  obtain l where l: "reach Little 3 sample_db l" "length (clients (server l)) = 1"
    "is_authenticated (clients (server l) ! 0)" "cid (clients (server l) ! 0) = 3"
    using sample_run by blast
  have "0 = j" if "j < length (clients (server l))" "cid (clients (server l) ! j) = 3"
      "is_authenticated (clients (server l) ! j)" for j
    by (rule one_session_per_account [OF l(1) sample_db_wf _ that(1) l(3) that(3)]) (simp_all add: l that)
  with l show ?thesis by blast
qed

text \<open>
  C21: A client that is logged in is somebody: its id and name are those of an account in the
  database (names are cut after 31 characters), its socket is live; a client that is not
  has neither id nor name.
\<close>

theorem sessions_are_accounts:
  assumes "reach e lfd db l" and "db_wf db" and "c \<in> set (clients (server l))"
  shows "if is_authenticated c
    then 0 < socket_fd c \<and> (\<exists>u \<in> set (users (database (server l))).
      u_id u = cid c \<and> username c = take 31 (u_name u))
    else cid c = 0 \<and> username c = []"
proof -
  have "client_ok (set (accounts (database (server l)))) c"
    using reach_inv [OF assms(1,2)] assms(3) by (simp add: loop_inv_def srv_inv_def clients_ok_def)
  then show ?thesis by (fastforce simp: client_ok_def accounts_def split: if_splits)
qed

theorem sessions_are_accounts_witness:
  "\<exists>l. reach Little 3 sample_db l \<and>
     (\<exists>u \<in> set (users (database (server l))). u_id u = 3 \<and> take 31 (u_name u) = ''cat'')"
proof -
  obtain l where l: "reach Little 3 sample_db l" "length (clients (server l)) = 1"
    "is_authenticated (clients (server l) ! 0)" "cid (clients (server l) ! 0) = 3"
    "username (clients (server l) ! 0) = ''cat''"
    using sample_run by blast
  have "clients (server l) ! 0 \<in> set (clients (server l))" using l(2) by simp
  from sessions_are_accounts [OF l(1) sample_db_wf this] l(3-5)
  obtain u where "u \<in> set (users (database (server l)))" "u_id u = 3" "take 31 (u_name u) = ''cat''"
    by auto
  with l(1) show ?thesis by blast
qed

text \<open>
  C20: The fixed arrays are never overrun: there are at most 64 clients, and each of them has
  a receive buffer of one packet and an offset inside it. The sockets that the loop watches
  are exactly the listening one and the clients', all different and below the bound given to
  \<open>select\<close>.
\<close>

theorem server_bounds:
  assumes "reach e lfd db l" and "db_wf db"
  shows "length (clients (server l)) \<le> 64 \<and>
    (\<forall>c \<in> set (clients (server l)). length (receive_buffer c) = PACKET_SIZE \<and> receive_offset c < PACKET_SIZE) \<and>
    distinct (server_fd (server l) # map socket_fd (clients (server l))) \<and>
    master_set l = insert (server_fd (server l)) (socket_fd ` set (clients (server l))) \<and>
    (\<forall>fd \<in> master_set l. fd \<le> max_fd l)"
  using reach_inv [OF assms] by (auto simp: loop_inv_def srv_inv_def clients_ok_def client_ok_def)

theorem server_bounds_witness:
  "\<exists>l. reach Little 3 sample_db l \<and> length (clients (server l)) = 1 \<and>
     receive_offset (clients (server l) ! 0) < PACKET_SIZE"
proof -
  obtain l where l: "reach Little 3 sample_db l" "length (clients (server l)) = 1"
    using sample_run by blast
  from server_bounds [OF l(1) sample_db_wf] l(2) have "receive_offset (clients (server l) ! 0) < PACKET_SIZE"
    by simp
  with l show ?thesis by blast
qed

text \<open>
  C22: The database keeps the constraints of its schema through every run: keys and names are
  unique, every reference points to an existing row, however requests and failures interleave.
\<close>

theorem database_stays_wf:
  assumes "reach e lfd db l" and "db_wf db"
  shows "db_wf (database (server l))"
  using reach_inv [OF assms] by (simp add: loop_inv_def srv_inv_def)

theorem database_stays_wf_witness:
  "\<exists>l. reach Little 3 sample_db l \<and> length (clients (server l)) = 1 \<and> db_wf (database (server l))"
  using sample_run database_stays_wf [OF _ sample_db_wf] by blast

section \<open>Logging in\<close>

text \<open>
  C19: Nobody is logged in without the password: a client entry that an account request turns
  into a logged-in one is the requesting connection's own, and either the request is a login
  whose password hashes to the stored hash of that account, or it registers a new account.
\<close>

theorem login_needs_password:
  assumes "srv_inv s"
    and "c \<in> set (clients (handle_auth_packet env fd a s))" and "c \<notin> set (clients s)" and "is_authenticated c"
  shows "socket_fd c = fd \<and> username c = take 31 (auth_username a) \<and>
    ((auth_action_of (auth_action a) = Some AUTH_LOGIN \<and>
      (\<exists>hash. db_get_password_hash env (database s) (auth_username a) = Some (cid c, hash) \<and>
         crypt env (auth_password a) hash = Some hash)) \<or>
     (auth_action_of (auth_action a) = Some AUTH_REGISTER \<and> cid c \<notin> user_ids (database s)))"
proof -
  have ok: "clients_ok (set (accounts (database s))) (clients s)" using assms(1) by (simp add: srv_inv_def)
  then have d: "distinct (map socket_fd (clients s))" by (simp add: clients_ok_def)
  obtain act where act: "auth_action_of (auth_action a) = Some act"
    using assms(2,3) by (cases "auth_action_of (auth_action a)") (simp_all add: handle_auth_packet_def)
  show ?thesis
  proof (cases act)
    case AUTH_LOGIN
    have cs: "c \<in> set (clients (login_account env fd a s))"
      using assms(2) act AUTH_LOGIN by (simp add: handle_auth_packet_def)
    then obtain u h where h: "db_get_password_hash env (database s) (auth_username a) = Some (u, h)"
        "crypt env (auth_password a) h = Some h"
      using assms(3) by (auto simp: login_effect split: option.splits if_splits)
    have "c \<in> set (upd_first (\<lambda>c. socket_fd c = fd) (link_identity u (auth_username a))
        (map (\<lambda>c. if revoked fd u c then clear_client_session c else c) (clients s)))"
      using cs h by (simp add: login_effect)
    with assms(3,4) h act AUTH_LOGIN show ?thesis
      by (auto simp: link_identity_def strncpy0_def dest!: set_upd_firstD split: if_splits)
  next
    case AUTH_REGISTER
    have "c \<in> set (clients (register_account env fd a s))"
      using assms(2) act AUTH_REGISTER by (simp add: handle_auth_packet_def)
    with assms(3) register_effect [of env fd a s] obtain hash u db where
      new: "db_create_user env (database s) (auth_username a) hash = (Some u, db)"
        "c \<in> set (upd_first (\<lambda>c. socket_fd c = fd) (link_identity u (auth_username a)) (clients s))"
      by (auto split: option.splits prod.splits)
    have "u \<notin> user_ids (database s)"
      using create_user_accounts [OF new(1)] by (auto simp: accounts_def)
    with new(2) assms(3) act AUTH_REGISTER show ?thesis
      by (auto simp: link_identity_def strncpy0_def dest!: set_upd_firstD)
  next
    case AUTH_LOGOUT
    have "c \<in> set (clients (logout_account env fd s))"
      using assms(2) act AUTH_LOGOUT by (simp add: handle_auth_packet_def)
    with assms(3,4) show ?thesis
      by (auto simp: logout_effect dest!: set_upd_firstD split: option.splits if_splits)
  qed
qed

lemma sample_srv_inv: "srv_inv sample_srv"
  by (simp add: srv_inv_def sample_srv_def sample_db_wf clients_ok_def one_login_def client_ok_def
      layout accounts_def) (simp add: sample_defs)

definition sample_login :: "string \<Rightarrow> auth_payload" where
  "sample_login pw = zero_auth\<lparr>auth_action := auth_code AUTH_LOGIN, auth_username := ''bob'', auth_password := pw\<rparr>"

theorem login_needs_password_witness:
  "\<exists>c \<in> set (clients (handle_auth_packet sample_env 5 (sample_login ''pw'') sample_srv)).
     is_authenticated c \<and> cid c = 2 \<and> crypt sample_env ''pw'' ''$pw'' = Some ''$pw''"
proof -
  have hash: "db_get_password_hash sample_env (database sample_srv) ''bob'' = Some (2, ''$pw'')"
    by (simp add: db_get_password_hash_def first_row_def step_rows_def sample_srv_def sample_defs)
  let ?c = "(clients sample_srv ! 1)\<lparr>is_authenticated := True, cid := 2, username := ''bob''\<rparr>"
  have cs: "clients (handle_auth_packet sample_env 5 (sample_login ''pw'') sample_srv) = [clients sample_srv ! 0, ?c]"
    using hash by (simp add: handle_auth_packet_def sample_login_def enum_of_def login_effect zero_auth_def
        link_identity_def revoked_def strncpy0_def sample_srv_def) (simp add: sample_defs)
  have c: "?c \<in> set (clients (handle_auth_packet sample_env 5 (sample_login ''pw'') sample_srv))"
    by (simp add: cs)
  have "?c \<notin> set (clients sample_srv)" by (simp add: sample_srv_def)
  from login_needs_password [OF sample_srv_inv c this] hash
  have "crypt sample_env ''pw'' ''$pw'' = Some ''$pw''"
    by (auto simp: sample_login_def zero_auth_def enum_of_def)
  with c show ?thesis by (intro bexI [OF _ c]) simp
qed

lemma filter_single: "distinct xs \<Longrightarrow> x \<in> set xs \<Longrightarrow> filter (\<lambda>y. y = x) xs = [x]"
  by (induction xs) (auto simp: filter_empty_conv)

text \<open>
  A login takes the account over: afterwards the requesting connection is logged in as
  it, and no other connection is.
\<close>

theorem login_is_exclusive:
  assumes "srv_inv s" and "db_get_password_hash env (database s) (auth_username a) = Some (u, hash)"
    and "crypt env (auth_password a) hash = Some hash"
    and "fd \<in> socket_fd ` set (clients s)"
  shows "map socket_fd (filter (\<lambda>c. is_authenticated c \<and> cid c = u) (clients (login_account env fd a s))) = [fd]"
proof -
  let ?r = "\<lambda>c. if revoked fd u c then clear_client_session c else c"
  let ?f = "\<lambda>c. if socket_fd c = fd then link_identity u (auth_username a) (?r c) else ?r c"
  have ok: "clients_ok (set (accounts (database s))) (clients s)" using assms(1) by (simp add: srv_inv_def)
  then have d: "distinct (map socket_fd (clients s))" by (simp add: clients_ok_def)
  then have "distinct (map socket_fd (map ?r (clients s)))"
    by (simp add: comp_def if_distrib [of socket_fd] cong: if_cong)
  from upd_first_distinct [OF this] assms(2,3)
  have "clients (login_account env fd a s) = map ?f (clients s)"
    by (simp add: login_effect)
  moreover have "is_authenticated (?f c) \<and> cid (?f c) = u \<longleftrightarrow> socket_fd c = fd" if "c \<in> set (clients s)" for c
    using client_okD(2) [OF ok that] by (auto simp: revoked_def)
  ultimately have "map socket_fd (filter (\<lambda>c. is_authenticated c \<and> cid c = u) (clients (login_account env fd a s))) =
      map socket_fd (filter (\<lambda>c. socket_fd c = fd) (clients s))"
    by (simp add: filter_map comp_def if_distrib [of socket_fd] cong: if_cong filter_cong)
  also have "\<dots> = filter (\<lambda>x. x = fd) (map socket_fd (clients s))" by (simp add: filter_map comp_def)
  also have "\<dots> = [fd]"
    using d assms(4) filter_single [of "map socket_fd (clients s)" fd] by simp
  finally show ?thesis .
qed

theorem login_is_exclusive_witness:
  "\<exists>s. srv_inv s \<and> is_authenticated (clients s ! 0) \<and> cid (clients s ! 0) = 1 \<and>
     map socket_fd (filter (\<lambda>c. is_authenticated c \<and> cid c = 1)
       (clients (login_account sample_env 5 ((sample_login ''pw'')\<lparr>auth_username := ''ann''\<rparr>) s))) = [5]"
proof -
  let ?a = "(sample_login ''pw'')\<lparr>auth_username := ''ann''\<rparr>"
  have hash: "db_get_password_hash sample_env (database sample_srv) (auth_username ?a) = Some (1, ''$pw'')"
    by (simp add: db_get_password_hash_def first_row_def step_rows_def sample_srv_def sample_defs)
  have crypt: "crypt sample_env (auth_password ?a) ''$pw'' = Some ''$pw''"
    by (simp add: sample_login_def sample_defs)
  have fd: "5 \<in> socket_fd ` set (clients sample_srv)" by (simp add: sample_srv_def)
  have here: "is_authenticated (clients sample_srv ! 0) \<and> cid (clients sample_srv ! 0) = 1"
    by (simp add: sample_srv_def)
  show ?thesis
    by (rule exI [of _ sample_srv], rule conjI [OF sample_srv_inv], rule conjI [OF conjunct1 [OF here]],
        rule conjI [OF conjunct2 [OF here]], rule login_is_exclusive [OF sample_srv_inv hash crypt fd])
qed

text \<open>
  A login with a wrong password or an unknown name changes no session and no row: its
  only effect is one reply to the client.
\<close>

theorem failed_login_changes_nothing:
  assumes "\<forall>u hash. db_get_password_hash env (database s) (auth_username a) = Some (u, hash) \<longrightarrow>
    crypt env (auth_password a) hash \<noteq> Some hash"
  shows "\<exists>q. login_account env fd a s = s\<lparr>out := out s @ [(fd, q)]\<rparr>"
  using assms by (auto simp: login_account_def Let_def post_def send_to_def split: option.split)

theorem failed_login_changes_nothing_witness:
  "\<exists>q. login_account sample_env 5 (sample_login ''guess'') sample_srv = sample_srv\<lparr>out := [(5, q)]\<rparr>"
proof -
  have wrong: "\<forall>u hash. db_get_password_hash sample_env (database sample_srv)
      (auth_username (sample_login ''guess'')) = Some (u, hash) \<longrightarrow>
    crypt sample_env (auth_password (sample_login ''guess'')) hash \<noteq> Some hash"
    by (auto simp: db_get_password_hash_def first_row_def step_rows_def sample_login_def
        sample_srv_def sample_defs)
  have "out sample_srv = []" by (simp add: sample_srv_def)
  with failed_login_changes_nothing [OF wrong, of 5] show ?thesis by simp
qed

section \<open>Closed connections\<close>

lemma receive_closed:
  assumes "evs = [Data []]" and "receive_offset (clients s ! i) < PACKET_SIZE"
  shows "\<exists>n s1. receive_from e evs i s = (Broken n, s1)"
  using assms by (simp add: receive_from_def Let_def packet_receive_partial_def partial_loop_step
      split: prod.split)

text \<open>
  The clients from \<open>i\<close> on whose peer has closed are gone after the loop: serving one client
  leaves the sockets and the order of those behind it alone, and after a drop the loop stays
  at the index, where the next client has moved.
\<close>

lemma serve_drops_closed:
  "watched s master \<Longrightarrow> serve_clients e env inb rs i s master = (s', master') \<Longrightarrow>
   fd \<in> set (drop i (map socket_fd (clients s))) \<Longrightarrow> 0 < fd \<Longrightarrow> fd \<in> rs \<Longrightarrow> inb fd = [Data []] \<Longrightarrow>
   fd \<notin> socket_fd ` set (clients s')"
proof (induction e env inb rs i s master rule: serve_clients.induct)
  case (1 e env inb rs i s master)
  let ?fd = "socket_fd (clients s ! i)"
  have i: "i < length (clients s)" using "1.prems"(3) by (cases "i < length (clients s)") simp_all
  have behind: "fd = ?fd \<or> fd \<in> set (drop (Suc i) (map socket_fd (clients s)))"
    using "1.prems"(3) i by (simp flip: Cons_nth_drop_Suc)
  show ?case
  proof (cases "0 < ?fd \<and> ?fd \<in> rs")
    case False
    with behind "1.prems"(4,5) have "fd \<in> set (drop (Suc i) (map socket_fd (clients s)))" by auto
    with "1.IH"(4) [OF i refl False] "1.prems" serve_skip [OF i False] show ?thesis by simp
  next
    case True
    obtain r s1 where run: "receive_from e (inb ?fd) i s = (r, s1)" by fastforce
    note step = serve_step [where inb = inb, OF i True run]
    note frame1 = receive_from_frame [OF run]
    have inv: "srv_inv s" using "1.prems"(1) by (simp add: watched_def)
    then have "clients_ok (set (accounts (database s))) (clients s)" by (simp add: srv_inv_def)
    then have off: "receive_offset (clients s ! i) < PACKET_SIZE"
      using i by (simp add: clients_ok_def client_ok_def)
    have closed: "\<exists>n. r = Broken n" if "fd = ?fd"
      using receive_closed [of "inb ?fd" s i e] that "1.prems"(6) off run by auto
    have i1: "i < length (clients s1)" using i length_receive_from [OF run] by simp
    have fd1: "socket_fd (clients s1 ! i) = ?fd"
      using arg_cong [OF frame1(1), of "\<lambda>xs. xs ! i"] i i1 by simp
    show ?thesis
    proof (cases r)
      case (Broken n)
      let ?s2 = "drop_client env i s1" and ?m2 = "master - {?fd}"
      have w2: "watched ?s2 ?m2" by (rule watched_drop [OF "1.prems"(1) i run])
      have run2: "serve_clients e env inb rs i ?s2 ?m2 = (s', master')"
        using "1.prems"(2) step Broken by simp
      show ?thesis
      proof (cases "fd = ?fd")
        case True
        with serve_clients_watched [OF w2 run2] show ?thesis by (auto simp: watched_def)
      next
        case False
        have "drop i (map socket_fd (clients ?s2)) = drop (Suc i) (map socket_fd (clients s1))"
          using i1 by (simp add: remove_at_def take_map drop_map)
        with False behind frame1(1) have "fd \<in> set (drop i (map socket_fd (clients ?s2)))" by simp
        with "1.IH"(3) [OF i refl True run [symmetric] Broken w2 run2] "1.prems"(4-6) show ?thesis by simp
      qed
    next
      case Pending
      with closed behind frame1(1) have "fd \<in> set (drop (Suc i) (map socket_fd (clients s1)))" by auto
      moreover have "watched s1 master"
        using watched_cong [OF "1.prems"(1) receive_from_inv [OF inv i run] frame1] Pending by simp
      ultimately show ?thesis
        using "1.IH"(1) [OF i refl True run [symmetric] Pending] "1.prems"(2,4-6) step Pending by simp
    next
      case (Got p)
      with closed behind frame1(1) have "fd \<in> set (drop (Suc i) (map socket_fd (clients s1)))" by auto
      moreover have w1: "watched s1 master"
        using watched_cong [OF "1.prems"(1) receive_from_inv [OF inv i run] frame1] Got by simp
      then have "watched (process_client_packet env i p s1) master"
        using watched_cong [OF w1 inv_process fds_process listener_process] True fd1
        by (simp add: watched_def)
      ultimately show ?thesis
        using "1.IH"(2) [OF i refl True run [symmetric] Got] "1.prems"(2,4-6) step Got
        by (simp add: fds_process)
    qed
  qed
qed

text \<open>
  C5: A round drops every client whose peer has closed, however many there are and whatever
  the others send in between, although entries move up in the array while the loop runs.
\<close>

theorem closed_connections_are_dropped:
  assumes "watched s master" and "serve_clients e env inb rs 0 s master = (s', master')"
    and "fd \<in> socket_fd ` set (clients s)" and "0 < fd" and "fd \<in> rs" and "inb fd = [Data []]"
  shows "fd \<notin> socket_fd ` set (clients s') \<and> (fd \<noteq> server_fd s \<longrightarrow> fd \<notin> master')"
proof -
  have "fd \<notin> socket_fd ` set (clients s')"
    by (rule serve_drops_closed [OF assms(1,2) _ assms(4-6)]) (use assms(3) in simp)
  moreover have "master' = insert (server_fd s) (socket_fd ` set (clients s'))"
    using serve_clients_watched [OF assms(1,2)] by (simp add: watched_def)
  ultimately show ?thesis by auto
qed

theorem closed_connections_are_dropped_witness:
  "\<exists>s' m'. serve_clients Little sample_env (\<lambda>_. [Data []]) {4, 5} 0 sample_srv {3, 4, 5} = (s', m') \<and>
     4 \<notin> socket_fd ` set (clients s') \<and> 5 \<notin> socket_fd ` set (clients s')"
proof -
  have w: "watched sample_srv {3, 4, 5}"
    using sample_srv_inv by (auto simp: watched_def sample_srv_def)
  obtain s' m' where run: "serve_clients Little sample_env (\<lambda>_. [Data []]) {4, 5} 0 sample_srv {3, 4, 5} = (s', m')"
    by fastforce
  have fds: "4 \<in> socket_fd ` set (clients sample_srv)" "5 \<in> socket_fd ` set (clients sample_srv)"
    by (simp_all add: sample_srv_def)
  from closed_connections_are_dropped [OF w run fds(1)] closed_connections_are_dropped [OF w run fds(2)] run
  show ?thesis by auto
qed

end
