(* ===== verification/UiUsers.thy ===== *)
theory UiUsers
  imports UiSafety "HOL-Library.Multiset" "HOL-Library.Product_Lexorder"
begin

text \<open>
  The list of all users on the client: the two nested loops of \<^verbatim>\<open>process_network_packet\<close> that
  order it when it is complete. They exchange entries in place; the invariant of the outer
  loop is the ordered prefix nothing behind belongs into, that of the inner loop the
  minimum that has been brought to the front.
\<close>

section \<open>The order\<close>

text \<open>Online users first, then by name without regard to case.\<close>

definition user_key :: "ui_user \<Rightarrow> int \<times> string" where
  "user_key x = (- sint (al_online x), casefold (al_name x))"

lemma must_swap_key: "must_swap a b \<longleftrightarrow> user_key b < user_key a"
  by (auto simp: must_swap_def user_key_def less_prod_def' word_sless_alt dest: signed_word_eqI)

section \<open>The loops\<close>

lemma length_exchange [simp]: "length (exchange i j xs) = length xs"
  by (simp add: exchange_def)

lemma mset_exchange: "i < length xs \<Longrightarrow> j < length xs \<Longrightarrow> mset (exchange i j xs) = mset xs"
  by (simp add: exchange_def mset_swap)

lemma exchange_elsewhere: "m \<noteq> i \<Longrightarrow> m \<noteq> j \<Longrightarrow> exchange i j xs ! m = xs ! m"
  by (simp add: exchange_def)

lemma exchange_key:
  assumes "i < length xs" and "j < length xs" and "i \<noteq> j"
  shows "user_key (exchange i j xs ! i) = min (user_key (xs ! i)) (user_key (xs ! j))"
    and "user_key (exchange i j xs ! j) = max (user_key (xs ! i)) (user_key (xs ! j))"
  using assms by (auto simp: exchange_def must_swap_key nth_list_update min_def max_def)

text \<open>The first \<open>i\<close> entries are in order, and no later one belongs before them.\<close>

definition front_sorted :: "nat \<Rightarrow> nat \<Rightarrow> ui_user list \<Rightarrow> bool" where
  "front_sorted n i xs \<longleftrightarrow> (\<forall>a < i. \<forall>b. a < b \<and> b < n \<longrightarrow> user_key (xs ! a) \<le> user_key (xs ! b))"

lemma front_sorted_exchange:
  assumes "front_sorted n i xs" and "i < j" and "j < n" and "n \<le> length xs"
  shows "front_sorted n i (exchange i j xs)"
  unfolding front_sorted_def
proof (intro allI impI)
  fix a b assume a: "a < i" and b: "a < b \<and> b < n"
  have here: "exchange i j xs ! a = xs ! a" using a assms(2) by (intro exchange_elsewhere) simp_all
  have le: "user_key (xs ! a) \<le> user_key (xs ! m)" if "a < m" "m < n" for m
    using assms(1) a that by (simp add: front_sorted_def)
  note key = exchange_key [of i xs j]
  show "user_key (exchange i j xs ! a) \<le> user_key (exchange i j xs ! b)"
    using a assms(2-4) le [of i] le [of j] le [of b] b exchange_elsewhere [of b i j xs] key
    by (cases "b = i"; cases "b = j") (auto simp: here min_def max_def)
qed

lemma inner_loop:
  assumes "front_sorted n i xs" and "i < n" and "n \<le> length xs"
  shows "let ys = fold (exchange i) [Suc i..<n] xs in
    front_sorted n (Suc i) ys \<and> length ys = length xs \<and> mset ys = mset xs \<and> drop n ys = drop n xs"
proof -
  have "let ys = fold (exchange i) [Suc i..<j] xs in front_sorted n i ys \<and>
      (\<forall>b. i < b \<and> b < j \<longrightarrow> user_key (ys ! i) \<le> user_key (ys ! b)) \<and> length ys = length xs \<and>
      mset ys = mset xs \<and> drop n ys = drop n xs" if "Suc i \<le> j" "j \<le> n" for j
    using that
  proof (induction j rule: nat_induct_at_least)
    case base
    then show ?case using assms(1) by (auto simp: Let_def)
  next
    case (Suc j)
    define ys where "ys = fold (exchange i) [Suc i..<j] xs"
    have IH: "front_sorted n i ys" "\<forall>b. i < b \<and> b < j \<longrightarrow> user_key (ys ! i) \<le> user_key (ys ! b)"
        "length ys = length xs" "mset ys = mset xs" "drop n ys = drop n xs"
      using Suc.IH Suc.prems by (simp_all add: ys_def Let_def)
    have ij: "i < j" "j < n" "j < length ys" "i < length ys" using Suc assms(3) IH(3) by simp_all
    have next_step: "fold (exchange i) [Suc i..<Suc j] xs = exchange i j ys"
      using Suc.hyps by (simp add: ys_def)
    have "user_key (exchange i j ys ! i) \<le> user_key (exchange i j ys ! b)" if "i < b" "b < Suc j" for b
      using exchange_key [of i ys j] exchange_elsewhere [of b i j ys] IH(2) ij that
      by (cases "b = j") (auto simp: min_def)
    moreover have "drop n (exchange i j ys) = drop n ys"
      using ij by (simp add: exchange_def)
    ultimately show ?case
      using front_sorted_exchange [OF IH(1), of j] ij assms(3) IH mset_exchange [of i ys j]
      unfolding next_step Let_def by simp
  qed
  from this [of n] assms(2) show ?thesis
    by (auto simp: Let_def front_sorted_def less_Suc_eq)
qed

lemma outer_loop:
  assumes "n \<le> length xs"
  shows "let ys = fold (\<lambda>i. fold (exchange i) [Suc i..<n]) [0..<i] xs in
    i \<le> n \<longrightarrow> front_sorted n i ys \<and> length ys = length xs \<and> mset ys = mset xs \<and> drop n ys = drop n xs"
proof (induction i)
  case 0
  then show ?case by (simp add: front_sorted_def)
next
  case (Suc i)
  then show ?case
    using inner_loop [of n i "fold (\<lambda>i. fold (exchange i) [Suc i..<n]) [0..<i] xs"] assms
    by (auto simp: Let_def)
qed

lemma sort_users_correct:
  assumes "n \<le> length xs"
  shows "sorted (map user_key (take n (sort_users n xs)))"
    and "mset (take n (sort_users n xs)) = mset (take n xs)"
    and "drop n (sort_users n xs) = drop n xs"
proof -
  let ?ys = "sort_users n xs"
  have ys: "front_sorted n (n - 1) ?ys" "length ?ys = length xs" "mset ?ys = mset xs" "drop n ?ys = drop n xs"
    using outer_loop [OF assms, of "n - 1"] by (simp_all add: sort_users_def Let_def)
  show "sorted (map user_key (take n ?ys))"
    using ys(1,2) assms by (auto simp: sorted_iff_nth_mono_less front_sorted_def)
  show "drop n ?ys = drop n xs" by fact
  have "mset (take n ?ys) + mset (drop n ?ys) = mset (take n xs) + mset (drop n xs)"
    using ys(3) by (metis append_take_drop_id mset_append)
  with ys(4) show "mset (take n ?ys) = mset (take n xs)" by simp
qed

section \<open>The list\<close>

definition listed_before :: "ui_user \<Rightarrow> ui_user \<Rightarrow> bool" where
  "listed_before x y \<longleftrightarrow> al_online y <s al_online x \<or>
     al_online x = al_online y \<and> casefold (al_name x) \<le> casefold (al_name y)"

text \<open>
  When the list of all users is complete, the client orders it: the same users, those
  online before those offline, each group by name without regard to case; the unused rest
  of the array stays.
\<close>

theorem user_list_sorted:
  assumes "ui_inv u" and "list_frame p = frame_code LIST_FRAME_END"
    and "after = all_users (user_list_packet p v u)"
  shows "mset (take (all_user_count u) after) = mset (take (all_user_count u) (all_users u)) \<and>
    drop (all_user_count u) after = drop (all_user_count u) (all_users u) \<and>
    sorted_wrt listed_before (take (all_user_count u) after)"
proof -
  have "all_user_count u \<le> length (all_users u)" using assms(1) by (simp add: ui_inv_def list_ok_def)
  note s = sort_users_correct [OF this]
  have after: "after = sort_users (all_user_count u) (all_users u)"
    using assms(2,3) by (simp add: user_list_packet_def)
  have "user_key x \<le> user_key y \<longleftrightarrow> listed_before x y" for x y
    by (auto simp: listed_before_def user_key_def less_eq_prod_def word_sless_alt dest: signed_word_eqI [OF sym])
  with s show ?thesis by (simp add: after sorted_map)
qed

theorem user_list_sorted_witness:
  "\<exists>u. mset (take 2 (all_users (user_list_packet (login_ok\<lparr>list_frame := frame_code LIST_FRAME_END\<rparr>)
      zero_social u))) = mset (take 2 (all_users u)) \<and> all_user_count u = 2 \<and> al_name (all_users u ! 0) = ''zoe'' \<and>
    al_name (all_users (user_list_packet (login_ok\<lparr>list_frame := frame_code LIST_FRAME_END\<rparr>) zero_social u) ! 0)
      = ''Amy''"
proof -
  let ?x = "\<lambda>i n. \<lparr>al_id = i, al_name = n, al_status = [], al_online = 0\<rparr>"
  let ?u = "(initial_ui 3)\<lparr>all_user_count := 2,
    all_users := [?x 1 ''zoe'', ?x 2 ''Amy''] @ drop 2 (all_users (initial_ui 3))\<rparr>"
  let ?p = "login_ok\<lparr>list_frame := frame_code LIST_FRAME_END\<rparr>"
  have inv: "ui_inv ?u" using inv_initial [of 3] by (simp add: ui_inv_def list_ok_def)
  note s = user_list_sorted [OF inv _ refl, of ?p zero_social]
  have "sort_users 2 (all_users ?u) ! 0 = ?x 2 ''Amy''"
    by (simp add: sort_users_def exchange_def must_swap_def casefold_def lower_def numeral_2_eq_2 less_char_def)
  with s show ?thesis by (intro exI [of _ ?u]) (simp add: user_list_packet_def)
qed

end
