(* ===== verification/ListViews.thy ===== *)
theory ListViews
  imports Runs UiUsers
begin

text \<open>
  What the client shows of a list the server streams. The server sends a START packet, one
  MIDDLE packet for every row of a query and an END packet; the client has four places that
  such a list fills: the messages of the open channel, the messages of a friend, the friends
  and the users. The interface \<open>list_view\<close> says what the three kinds of packets do to such a
  place; its lemma \<open>stream\<close>, that the place then holds the first rows, is proved once.
\<close>

section \<open>A place filled by a list\<close>

definition arrivals :: "env \<Rightarrow> packet list \<Rightarrow> (env \<times> ui_event) list" where
  "arrivals env = map (\<lambda>p. (env, Packet_arrived p))"

lemma arrivals_simps [simp]:
  "arrivals env [] = []" "arrivals env (p # ps) = (env, Packet_arrived p) # arrivals env ps"
  "arrivals env (ps @ qs) = arrivals env ps @ arrivals env qs"
  by (simp_all add: arrivals_def)

definition connected :: "ui \<Rightarrow> bool" where
  "connected u \<longleftrightarrow> ui_inv u \<and> client_socket u \<noteq> -1"

locale list_view =
  fixes view :: "ui \<Rightarrow> 'v list" and ok :: "ui \<Rightarrow> bool" and relevant :: "packet \<Rightarrow> bool"
    and shown :: "packet \<Rightarrow> 'v" and room :: nat and complete :: "'v list \<Rightarrow> 'v list \<Rightarrow> bool"
  assumes online: "ok u \<Longrightarrow> client_socket u \<noteq> -1"
    and begins: "ok u \<Longrightarrow> relevant p \<Longrightarrow> list_frame p = frame_code LIST_FRAME_START \<Longrightarrow>
      \<exists>u'. process_network_packet env p u = Inr u' \<and> ok u' \<and> view u' = []"
    and goes_on: "ok u \<Longrightarrow> relevant p \<Longrightarrow> list_frame p = frame_code LIST_FRAME_MIDDLE \<Longrightarrow>
      \<exists>u'. process_network_packet env p u = Inr u' \<and> ok u' \<and>
        view u' = (if length (view u) < room then view u @ [shown p] else view u)"
    and ends: "ok u \<Longrightarrow> relevant p \<Longrightarrow> list_frame p = frame_code LIST_FRAME_END \<Longrightarrow>
      \<exists>u'. process_network_packet env p u = Inr u' \<and> ok u' \<and> complete (view u) (view u')"
begin

lemma items:
  "ok u \<Longrightarrow> length (view u) \<le> room \<Longrightarrow> \<forall>p \<in> set ps. relevant p \<and> list_frame p = frame_code LIST_FRAME_MIDDLE \<Longrightarrow>
   \<exists>u'. ui_run (arrivals env ps) u = Inr u' \<and> ok u' \<and> view u' = view u @ take (room - length (view u)) (map shown ps)"
proof (induction ps arbitrary: u)
  case Nil
  then show ?case by simp
next
  case (Cons p ps)
  then obtain u1 where u1: "process_network_packet env p u = Inr u1" "ok u1"
      "view u1 = (if length (view u) < room then view u @ [shown p] else view u)"
    using goes_on [of u p env] by auto
  with Cons.prems(2) have "length (view u1) \<le> room" by simp
  from Cons.IH [OF u1(2) this] Cons.prems(3) obtain u2 where u2: "ui_run (arrivals env ps) u1 = Inr u2" "ok u2"
      "view u2 = view u1 @ take (room - length (view u1)) (map shown ps)" by auto
  then have "view u2 = view u @ take (room - length (view u)) (map shown (p # ps))"
    using u1(3) by (auto simp: take_Cons' not_less)
  with u1(1) u2(1,2) online [OF Cons.prems(1)] show ?case by auto
qed

lemma stream:
  assumes "ok u" and "relevant p" "list_frame p = frame_code LIST_FRAME_START"
    and "\<forall>p \<in> set ps. relevant p \<and> list_frame p = frame_code LIST_FRAME_MIDDLE"
    and "relevant q" "list_frame q = frame_code LIST_FRAME_END"
  shows "\<exists>u'. ui_run (arrivals env (p # ps @ [q])) u = Inr u' \<and> ok u' \<and>
    complete (take room (map shown ps)) (view u')"
proof -
  obtain u1 where u1: "process_network_packet env p u = Inr u1" "ok u1" "view u1 = []"
    using begins [OF assms(1-3)] by blast
  then obtain u2 where u2: "ui_run (arrivals env ps) u1 = Inr u2" "ok u2" "view u2 = take room (map shown ps)"
    using items [OF u1(2) _ assms(4), of env] by auto
  then obtain u3 where "process_network_packet env q u2 = Inr u3" "ok u3" "complete (view u2) (view u3)"
    using ends [OF u2(2) assms(5,6)] by blast
  with u1 u2 online [OF assms(1)] online [OF u2(2)] show ?thesis by (simp add: ui_run_append)
qed

end

section \<open>The server's side\<close>

text \<open>A callback that sends one packet for a row, with the number of the row.\<close>

fun numbered :: "(i32 \<Rightarrow> 'r \<Rightarrow> packet) \<Rightarrow> i32 \<Rightarrow> 'r list \<Rightarrow> packet list" where
  "numbered pk n [] = []"
| "numbered pk n (r # rows) = pk n r # numbered pk (n + 1) rows"

lemma map_numbered: "(\<And>n r. f (pk n r) = g r) \<Longrightarrow> map f (numbered pk n rows) = map g rows"
  by (induction rows arbitrary: n) simp_all

lemma set_numbered: "(\<And>n r. P (pk n r)) \<Longrightarrow> p \<in> set (numbered pk n rows) \<Longrightarrow> P p"
  by (induction rows arbitrary: n) auto

lemma fold_numbered:
  assumes "\<And>r n t. clients t = clients s \<Longrightarrow> cb r (n, t) = (n + 1, post env fd (pk n r) t)"
  shows "clients t = clients s \<Longrightarrow> fold cb rows (n, t) =
    (n + of_nat (length rows), t\<lparr>out := out t @ map (Pair fd) (numbered pk n rows)\<rparr>)"
proof (induction rows arbitrary: n t)
  case (Cons r rows)
  then show ?case by (simp add: assms post_def send_to_def add.assoc)
qed simp

section \<open>The open channel\<close>

definition channel_open :: "ui \<Rightarrow> bool" where
  "channel_open u \<longleftrightarrow> connected u \<and> in_active_server u \<and>
     active_channel u < us_channel_count (ui_servers u ! nat (active_server u))"

definition open_messages :: "ui \<Rightarrow> ui_message list" where
  "open_messages u = uc_messages (us_channels (ui_servers u ! nat (active_server u)) ! active_channel u)"

definition channel_line :: "packet \<Rightarrow> bool" where
  "channel_line p \<longleftrightarrow> (\<exists>c. payload p = Channel c \<and> channel_action_of (ch_action c) = Some CHANNEL_MESSAGE)"

definition channel_entry :: "packet \<Rightarrow> ui_message" where
  "channel_entry p = (case payload p of
      Channel c \<Rightarrow> \<lparr>msg_sender = channel_sender p c, msg_body = strncpy0 (MAX_MSG_LEN - 1) (ch_message c),
        msg_ts = timestamp p\<rparr>
    | _ \<Rightarrow> \<lparr>msg_sender = [], msg_body = [], msg_ts = 0\<rparr>)"

lemma channel_packet_shown:
  assumes "channel_open u" and "payload p = Channel c" and "channel_action_of (ch_action c) = Some CHANNEL_MESSAGE"
  shows "\<exists>u'. process_network_packet env p u = Inr u' \<and> channel_open u' \<and>
    open_messages u' = show_message p (channel_sender p c) (ch_message c) (open_messages u)"
proof -
  have inv: "ui_inv u" and a: "0 \<le> active_server u" "active_server u < int UI_MAX_SERVERS"
    using assms(1) ui_inv_bounds [of u] by (auto simp: channel_open_def connected_def in_active_server_def)
  note b = ui_inv_bounds [OF inv] server_bounds_at [OF inv a]
  let ?u = "upd_server (nat (active_server u)) (upd_channel (active_channel u) (\<lambda>ch. ch\<lparr>uc_messages :=
    show_message p (channel_sender p c) (ch_message c) (uc_messages ch)\<rparr>)) u"
  have l: "nat (active_server u) < length (ui_servers u)"
      "active_channel u < length (us_channels (ui_servers u ! nat (active_server u)))"
    using a b assms(1) by (auto simp: channel_open_def)
  have run: "process_network_packet env p u = Inr ?u"
    using assms a b by (simp add: process_network_packet_def ui_receive_channel_message_def channel_open_def)
  have "ui_inv ?u" using inv_packet [OF inv, of env p] by (simp add: run)
  with assms(1) l run show ?thesis
    by (intro exI [of _ ?u]) (simp add: channel_open_def connected_def in_active_server_def open_messages_def
        upd_server_def upd_channel_def)
qed

interpretation channel_view: list_view open_messages channel_open channel_line channel_entry MAX_MESSAGES "(=)"
proof
  fix u p env
  assume "channel_open u" and "channel_line p"
  then obtain c where c: "payload p = Channel c" "channel_action_of (ch_action c) = Some CHANNEL_MESSAGE"
    by (auto simp: channel_line_def)
  note shown = channel_packet_shown [OF \<open>channel_open u\<close> c, of env]
  show "\<exists>u'. process_network_packet env p u = Inr u' \<and> channel_open u' \<and> open_messages u' = []"
    if "list_frame p = frame_code LIST_FRAME_START" using shown that by (simp add: show_message_def)
  show "\<exists>u'. process_network_packet env p u = Inr u' \<and> channel_open u' \<and> open_messages u' =
      (if length (open_messages u) < MAX_MESSAGES then open_messages u @ [channel_entry p] else open_messages u)"
    if "list_frame p = frame_code LIST_FRAME_MIDDLE" using shown that c by (auto simp: show_message_def channel_entry_def)
  show "\<exists>u'. process_network_packet env p u = Inr u' \<and> channel_open u' \<and> open_messages u = open_messages u'"
    if "list_frame p = frame_code LIST_FRAME_END" using shown that by (auto simp: show_message_def)
qed (simp add: channel_open_def connected_def)

text \<open>A row of the channel's history as the client shows it; the packets carry no sender id.\<close>

fun history_entry :: "i64 \<times> string \<times> string \<times> i64 \<Rightarrow> ui_message" where
  "history_entry (msg_id, name, content, t) = \<lparr>msg_sender = (if name = [] then ''0'' else take 31 name),
     msg_body = take 239 content, msg_ts = t\<rparr>"

definition history_packet :: "env \<Rightarrow> i32 \<Rightarrow> i64 \<Rightarrow> i32 \<Rightarrow> i64 \<times> string \<times> string \<times> i64 \<Rightarrow> packet" where
  "history_packet env lid channel_id n row = (case row of (msg_id, name, content, t) \<Rightarrow>
     (channel_packet env (zero_channel\<lparr>ch_action := channel_code CHANNEL_MESSAGE,
         ch_channel_id := channel_id, ch_message_id := msg_id,
         ch_name := strncpy0 (MAX_NAME_LEN - 1) name, ch_message := strncpy0 (MESSAGE_LEN - 1) content\<rparr>))
       \<lparr>list_id := lid, list_index := n, list_frame := frame_code LIST_FRAME_MIDDLE, timestamp := t\<rparr>)"

lemma history_packet_shown:
  "channel_entry (history_packet env lid ch n row) = history_entry row"
  "channel_line (history_packet env lid ch n row)"
  "list_frame (history_packet env lid ch n row) = frame_code LIST_FRAME_MIDDLE"
  using channelE.enum_of_code [of CHANNEL_MESSAGE]
  by (cases row; simp add: channel_entry_def channel_line_def history_packet_def channel_packet_def channel_sender_def
      create_base_packet_def zero_packet_def decimal_def digits.simps char_of_def bit_0 strncpy0_def
      del: frame_code.simps channel_code.simps)+

lemma channel_history_packets:
  "out (channel_history env c fd s) = out s @ map (Pair fd)
    ((channel_packet env (zero_channel\<lparr>ch_action := channel_code CHANNEL_MESSAGE\<rparr>))
       \<lparr>list_id := to_i32 (ch_channel_id c), list_frame := frame_code LIST_FRAME_START\<rparr> #
     numbered (history_packet env (to_i32 (ch_channel_id c)) (ch_channel_id c)) 0
       (snd (db_list_channel_messages env (database s) (ch_channel_id c))) @
     [(channel_packet env (zero_channel\<lparr>ch_action := channel_code CHANNEL_MESSAGE\<rparr>))
       \<lparr>list_id := to_i32 (ch_channel_id c), list_frame := frame_code LIST_FRAME_END\<rparr>])"
proof -
  have cb: "message_history_cb env fd (to_i32 (ch_channel_id c)) (ch_channel_id c) r (n, t) =
      (n + 1, post env fd (history_packet env (to_i32 (ch_channel_id c)) (ch_channel_id c) n r) t)" for r n t
    by (cases r) (simp add: message_history_cb_def history_packet_def)
  show ?thesis
    unfolding channel_history_def Let_def
    by (subst fold_numbered [where s = s and fd = fd and pk = "history_packet env (to_i32 (ch_channel_id c)) (ch_channel_id c)"])
      (simp_all add: cb post_def send_to_def)
qed

text \<open>
  C29: When the server has answered a request for a channel's history, the client shows in the
  channel it has open the first 64 messages of the history in the order of their times,
  each with the author's name and the first 239 bytes of its text. A longer history is cut
  at its end, so that the newest messages are the ones that are missing.
\<close>

theorem channel_view_is_history:
  assumes "channel_open u" and "payload p = Channel c"
    and "channel_action_of (ch_action c) = Some CHANNEL_HISTORY_REQUEST"
  shows "\<exists>ps u'. out (handle_chat_packet env' p fd s) = out s @ map (Pair fd) ps \<and>
    ui_run (arrivals env ps) u = Inr u' \<and>
    open_messages u' = take 64 (map history_entry (snd (db_list_channel_messages env' (database s) (ch_channel_id c))))"
proof -
  let ?b = "channel_packet env' (zero_channel\<lparr>ch_action := channel_code CHANNEL_MESSAGE\<rparr>)\<lparr>list_id := to_i32 (ch_channel_id c)\<rparr>"
  let ?row = "history_packet env' (to_i32 (ch_channel_id c)) (ch_channel_id c)"
  let ?rows = "snd (db_list_channel_messages env' (database s) (ch_channel_id c))"
  have line: "channel_line (?b\<lparr>list_frame := f\<rparr>)" for f
    using channelE.enum_of_code [of CHANNEL_MESSAGE]
    by (simp add: channel_line_def channel_packet_def del: channel_code.simps)
  have frame: "list_frame (?b\<lparr>list_frame := f\<rparr>) = f" for f by simp
  have rows: "\<forall>p \<in> set (numbered ?row 0 ?rows). channel_line p \<and> list_frame p = frame_code LIST_FRAME_MIDDLE"
    using set_numbered [of "\<lambda>p. channel_line p \<and> list_frame p = frame_code LIST_FRAME_MIDDLE" ?row]
      history_packet_shown(2,3) by blast
  let ?ps = "?b\<lparr>list_frame := frame_code LIST_FRAME_START\<rparr> # numbered ?row 0 ?rows @
      [?b\<lparr>list_frame := frame_code LIST_FRAME_END\<rparr>]"
  obtain u' where u': "ui_run (arrivals env ?ps) u = Inr u'"
      "take MAX_MESSAGES (map channel_entry (numbered ?row 0 ?rows)) = open_messages u'"
    using channel_view.stream [OF assms(1) line frame rows line frame] by blast
  have "handle_chat_packet env' p fd s = channel_history env' c fd s"
    using assms(2,3) by (simp add: handle_chat_packet_def handle_channel_message_def)
  then have "out (handle_chat_packet env' p fd s) = out s @ map (Pair fd) ?ps"
    by (simp only: channel_history_packets)
  moreover have "open_messages u' = take 64 (map history_entry ?rows)"
    using u'(2) map_numbered [of channel_entry ?row history_entry 0 ?rows, OF history_packet_shown(1)] by simp
  ultimately show ?thesis using u'(1) by blast
qed

definition in_channel :: ui where
  "in_channel = (initial_ui 3)\<lparr>current_user := 0, user_count := 1, server_count := 1, active_server := 0,
     ui_servers := (ui_servers (initial_ui 3))[0 := zero_ui_server\<lparr>us_channel_count := 1\<rparr>]\<rparr>"

lemma initial_fields:
  "client_socket (initial_ui fd) = fd" "current_screen (initial_ui fd) = SCREEN_LOGIN"
  "active_channel (initial_ui fd) = 0" "server_cursor (initial_ui fd) = 0" "length (ui_servers (initial_ui fd)) = 8"
  "length (ui_users (initial_ui fd)) = 16" "previous_screen (initial_ui fd) = SCREEN_LOGIN"
  by (simp_all add: initial_ui_def)

lemma in_channel_open: "channel_open in_channel"
proof -
  have "server_ok (zero_ui_server\<lparr>us_channel_count := 1\<rparr>)"
    by (simp add: server_ok_def zero_ui_server_def zero_ui_channel_def)
  moreover have "\<forall>sv \<in> set (ui_servers (initial_ui 3)). server_ok sv"
    using inv_initial [of 3] by (simp add: ui_inv_def servers_ok_def)
  ultimately have "\<forall>sv \<in> set ((ui_servers (initial_ui 3))[0 := zero_ui_server\<lparr>us_channel_count := 1\<rparr>]). server_ok sv"
    by (intro all_set_update)
  then have "servers_ok ((ui_servers (initial_ui 3))[0 := zero_ui_server\<lparr>us_channel_count := 1\<rparr>])"
    by (simp add: servers_ok_def initial_fields)
  then have "ui_inv in_channel"
    using inv_initial [of 3]
    by (simp add: in_channel_def ui_inv_def list_ok_def active_ok_def accounts_ok_def open_ok_def screen_ok_def initial_fields)
  moreover have "us_channel_count (ui_servers in_channel ! 0) = 1"
    by (simp add: in_channel_def initial_fields)
  moreover have "client_socket in_channel = 3" "active_server in_channel = 0" "active_channel in_channel = 0"
      "server_count in_channel = 1"
    by (simp_all add: in_channel_def initial_fields)
  ultimately show ?thesis by (simp add: channel_open_def connected_def in_active_server_def)
qed

theorem channel_view_is_history_witness:
  "\<exists>s ps u'. out (handle_chat_packet sample_env (channel_request sample_env
      (zero_channel\<lparr>ch_action := channel_code CHANNEL_HISTORY_REQUEST, ch_channel_id := 1\<rparr>)) 4 s) = map (Pair 4) ps \<and>
    ui_run (arrivals sample_env ps) in_channel = Inr u' \<and>
    open_messages u' = [\<lparr>msg_sender = ''bob'', msg_body = ''hello'', msg_ts = 5\<rparr>]"
proof -
  let ?c = "zero_channel\<lparr>ch_action := channel_code CHANNEL_HISTORY_REQUEST, ch_channel_id := 1\<rparr>"
  let ?s = "sample_srv\<lparr>database := sample_db\<lparr>messages := [\<lparr>g_id = 1, g_channel = 1, g_user = 2,
    g_content = ''hello'', g_created = 5\<rparr>]\<rparr>\<rparr>"
  have c: "payload (channel_request sample_env ?c) = Channel ?c"
      "channel_action_of (ch_action ?c) = Some CHANNEL_HISTORY_REQUEST"
    using channelE.enum_of_code [of CHANNEL_HISTORY_REQUEST]
    by (simp_all add: channel_request_def base_request_def del: channel_code.simps)
  have "snd (db_list_channel_messages sample_env (database ?s) (ch_channel_id ?c)) = [(1, ''bob'', ''hello'', 5)]"
    by (simp add: db_list_channel_messages_def channel_log_def message_rows_def step_rows_def sample_defs)
  moreover have "out ?s = []" by (simp add: sample_srv_def)
  moreover obtain ps u' where "out (handle_chat_packet sample_env (channel_request sample_env ?c) 4 ?s) = out ?s @ map (Pair 4) ps"
      "ui_run (arrivals sample_env ps) in_channel = Inr u'" "open_messages u' = take 64 (map history_entry
        (snd (db_list_channel_messages sample_env (database ?s) (ch_channel_id ?c))))"
    using channel_view_is_history [OF in_channel_open c, of sample_env 4 ?s sample_env] by blast
  ultimately show ?thesis by (intro exI [of _ ?s] exI [of _ ps] exI [of _ u'] conjI) simp_all
qed

section \<open>The list of users\<close>

lemma stream_list_packets:
  assumes "\<And>r n t. clients t = clients s \<Longrightarrow> cb env fd (to_i32 u) r (n, t) = (n + 1, post env fd (pk n r) t)"
  shows "out (stream_list env a cb rows fd u s) = out s @ map (Pair fd)
    ((social_packet env (zero_social\<lparr>soc_action := social_code a\<rparr>))
       \<lparr>list_id := to_i32 u, list_frame := frame_code LIST_FRAME_START\<rparr> # numbered pk 0 rows @
     [(social_packet env (zero_social\<lparr>soc_action := social_code a\<rparr>))
       \<lparr>list_id := to_i32 u, list_total := of_nat (length rows), list_frame := frame_code LIST_FRAME_END\<rparr>])"
  unfolding stream_list_def Let_def
  by (subst fold_numbered [where s = s and fd = fd and pk = pk]) (simp_all add: assms post_def send_to_def)

definition social_line :: "social_action \<Rightarrow> packet \<Rightarrow> bool" where
  "social_line a p \<longleftrightarrow> (\<exists>v. payload p = Social v \<and> social_action_of (soc_action v) = Some a)"

lemma social_line_ends: "social_line a ((social_packet env (zero_social\<lparr>soc_action := social_code a\<rparr>))
    \<lparr>list_id := lid, list_total := n, list_frame := f\<rparr>)"
    "social_line a ((social_packet env (zero_social\<lparr>soc_action := social_code a\<rparr>))\<lparr>list_id := lid, list_frame := f\<rparr>)"
  using socialE.enum_of_code [of a] by (simp_all add: social_line_def social_packet_def del: social_code.simps)

definition listed_users :: "ui \<Rightarrow> ui_user list" where
  "listed_users u = take (all_user_count u) (all_users u)"

definition user_entry :: "packet \<Rightarrow> ui_user" where
  "user_entry p = (case payload p of
      Social v \<Rightarrow> \<lparr>al_id = soc_target v, al_name = strncpy0 (MAX_NAME_LEN - 1) (soc_username v),
        al_status = strncpy0 PROFILE_STATUS_LEN (soc_status_text v), al_online = soc_status_code v\<rparr>
    | _ \<Rightarrow> \<lparr>al_id = 0, al_name = [], al_status = [], al_online = 0\<rparr>)"

definition in_order :: "ui_user list \<Rightarrow> ui_user list \<Rightarrow> bool" where
  "in_order xs ys \<longleftrightarrow> mset ys = mset xs \<and> sorted_wrt listed_before ys"

interpretation user_view: list_view listed_users connected "social_line SOCIAL_LIST_USERS" user_entry MAX_ALL_USERS in_order
proof
  fix u p env
  assume "connected u" and "social_line SOCIAL_LIST_USERS p"
  then obtain v where v: "payload p = Social v" "social_action_of (soc_action v) = Some SOCIAL_LIST_USERS"
    by (auto simp: social_line_def)
  have inv: "ui_inv u" using \<open>connected u\<close> by (simp add: connected_def)
  then have len: "length (all_users u) = MAX_ALL_USERS" "all_user_count u \<le> MAX_ALL_USERS"
    by (simp_all add: ui_inv_def list_ok_def)
  have run: "process_network_packet env p u = Inr (user_list_packet p v u)"
    using v by (simp add: process_network_packet_def)
  have ok: "connected (user_list_packet p v u)"
    using inv_packet [OF inv, of env p] \<open>connected u\<close> by (simp add: run connected_def user_list_packet_def user_item_def)
  show "\<exists>u'. process_network_packet env p u = Inr u' \<and> connected u' \<and> listed_users u' = []"
    if "list_frame p = frame_code LIST_FRAME_START"
    using that run ok by (simp add: user_list_packet_def listed_users_def)
  show "\<exists>u'. process_network_packet env p u = Inr u' \<and> connected u' \<and> listed_users u' =
      (if length (listed_users u) < MAX_ALL_USERS then listed_users u @ [user_entry p] else listed_users u)"
    if "list_frame p = frame_code LIST_FRAME_MIDDLE"
    using that run ok len v(1) by (auto simp: user_list_packet_def listed_users_def user_item_def user_entry_def
        take_Suc_conv_app_nth)
  show "\<exists>u'. process_network_packet env p u = Inr u' \<and> connected u' \<and> in_order (listed_users u) (listed_users u')"
    if "list_frame p = frame_code LIST_FRAME_END"
    using that run ok user_list_sorted [OF inv that refl, of v]
    by (simp add: in_order_def listed_users_def user_list_packet_def)
qed (simp add: connected_def)

fun listed_user :: "client list \<Rightarrow> i64 \<times> string \<times> string \<Rightarrow> ui_user" where
  "listed_user cs (user_id, name, status) = \<lparr>al_id = user_id, al_name = take 31 name, al_status = take 64 status,
     al_online = of_bool (client_online cs user_id)\<rparr>"

lemma user_list_packet_shown:
  "user_entry (user_row_packet env cs lid n row) = listed_user cs row"
  "social_line SOCIAL_LIST_USERS (user_row_packet env cs lid n row)"
  "list_frame (user_row_packet env cs lid n row) = frame_code LIST_FRAME_MIDDLE"
  using socialE.enum_of_code [of SOCIAL_LIST_USERS]
  by (cases row; simp add: user_row_packet_def user_entry_def social_line_def social_packet_def strncpy0_def
      del: social_code.simps)+

text \<open>
  C31: When a user list that the server streams has come in, the client's list consists of the
  first 128 accounts in the order of their names, each with its status and whether a client
  is logged in as it, and it is sorted: those online first, and within both groups by name
  without regard to case.
\<close>

theorem user_list_view:
  assumes "connected u"
  shows "\<exists>ps u'. out (stream_users env' fd me s) = out s @ map (Pair fd) ps \<and>
    ui_run (arrivals env ps) u = Inr u' \<and> sorted_wrt listed_before (listed_users u') \<and>
    mset (listed_users u') =
      mset (take 128 (map (listed_user (clients s)) (snd (db_list_all_users env' (database s)))))"
proof -
  let ?p = "social_packet env' (zero_social\<lparr>soc_action := social_code SOCIAL_LIST_USERS\<rparr>)\<lparr>list_id := to_i32 me\<rparr>"
  let ?rows = "snd (db_list_all_users env' (database s))"
  let ?row = "user_row_packet env' (clients s) (to_i32 me)"
  let ?q = "?p\<lparr>list_total := of_nat (length ?rows), list_frame := frame_code LIST_FRAME_END\<rparr>"
  let ?ps = "?p\<lparr>list_frame := frame_code LIST_FRAME_START\<rparr> # numbered ?row 0 ?rows @ [?q]"
  have rows: "\<forall>p \<in> set (numbered ?row 0 ?rows). social_line SOCIAL_LIST_USERS p \<and> list_frame p = frame_code LIST_FRAME_MIDDLE"
    using set_numbered [of "\<lambda>p. social_line SOCIAL_LIST_USERS p \<and> list_frame p = frame_code LIST_FRAME_MIDDLE" ?row]
      user_list_packet_shown(2,3) by blast
  have frame: "list_frame (?p\<lparr>list_frame := f\<rparr>) = f" "list_frame (?p\<lparr>list_total := n, list_frame := f\<rparr>) = f" for f n by simp_all
  obtain u' where u': "ui_run (arrivals env ?ps) u = Inr u'"
      "in_order (take MAX_ALL_USERS (map user_entry (numbered ?row 0 ?rows))) (listed_users u')"
    using user_view.stream [OF assms social_line_ends(2) frame(1) rows social_line_ends(1) frame(2)] by blast
  have packets: "out (stream_users env' fd me s) = out s @ map (Pair fd) ?ps"
    unfolding stream_users_def
    by (rule stream_list_packets) (simp add: user_list_cb_eq post_def send_to_def)
  have "map user_entry (numbered ?row 0 ?rows) = map (listed_user (clients s)) ?rows"
    by (rule map_numbered) (rule user_list_packet_shown(1))
  from u'(2) [unfolded this in_order_def] show ?thesis
    by (intro exI [of _ ?ps] exI [of _ u'] conjI packets u'(1)) (rule conjunct2, assumption, rule conjunct1)
qed

theorem user_list_view_witness:
  "\<exists>ps u'. out (stream_users sample_env 4 1 sample_srv) = map (Pair 4) ps \<and>
    ui_run (arrivals sample_env ps) in_channel = Inr u' \<and> length (listed_users u') = 2"
proof -
  have "connected in_channel" using in_channel_open by (simp add: channel_open_def)
  from user_list_view [OF this, of sample_env 4 1 sample_srv sample_env] obtain ps u' where
    r: "out (stream_users sample_env 4 1 sample_srv) = out sample_srv @ map (Pair 4) ps"
      "ui_run (arrivals sample_env ps) in_channel = Inr u'"
      "mset (listed_users u') = mset (take 128 (map (listed_user (clients sample_srv))
         (snd (db_list_all_users sample_env (database sample_srv)))))" by blast
  have "healthy sample_env" by (simp add: healthy_def sample_defs)
  then have "length (snd (db_list_all_users sample_env (database sample_srv))) = 2"
    by (simp add: db_list_all_users_def healthy_simps sample_srv_def sample_defs)
  with arg_cong [OF r(3), of size] have "length (listed_users u') = 2" by simp
  moreover have "out sample_srv = []" by (simp add: sample_srv_def)
  ultimately show ?thesis using r(1,2) by auto
qed

section \<open>The list of friends\<close>

text \<open>
  A friend's entry keeps the messages that the entry at its position had before, so the view
  of the list is what a packet sets: id, name and kind (incoming, outgoing, accepted).
\<close>

definition listed_friends :: "ui \<Rightarrow> (i64 \<times> string \<times> i32) list" where
  "listed_friends u = map (\<lambda>f. (fr_id f, fr_name f, fr_type f)) (take (friend_count u) (ui_friends u))"

definition friend_entry :: "packet \<Rightarrow> i64 \<times> string \<times> i32" where
  "friend_entry p = (case payload p of
      Social v \<Rightarrow> (soc_target v, strncpy0 (MAX_NAME_LEN - 1) (soc_username v), soc_status_code v)
    | _ \<Rightarrow> (0, [], 0))"

lemma select_first_friend_frame:
  "ui_friends (select_first_friend env u) = ui_friends u" "friend_count (select_first_friend env u) = friend_count u"
  "client_socket (select_first_friend env u) = client_socket u"
  by (simp_all add: select_first_friend_def request_dm_history_def submit_eq split: option.split)

interpretation friend_view: list_view listed_friends connected "social_line SOCIAL_LIST_FRIENDS" friend_entry MAX_FRIENDS "(=)"
proof
  fix u p env
  assume "connected u" and "social_line SOCIAL_LIST_FRIENDS p"
  then obtain v where v: "payload p = Social v" "social_action_of (soc_action v) = Some SOCIAL_LIST_FRIENDS"
    by (auto simp: social_line_def)
  have inv: "ui_inv u" using \<open>connected u\<close> by (simp add: connected_def)
  then have len: "length (ui_friends u) = MAX_FRIENDS" "friend_count u \<le> MAX_FRIENDS"
    by (simp_all add: ui_inv_def list_ok_def friends_ok_def)
  have run: "process_network_packet env p u = Inr (friend_list_packet env p v u)"
    using v by (simp add: process_network_packet_def)
  have ok: "connected (friend_list_packet env p v u)"
    using inv_packet [OF inv, of env p] \<open>connected u\<close>
    by (simp add: run connected_def friend_list_packet_def friend_item_def select_first_friend_frame)
  show "\<exists>u'. process_network_packet env p u = Inr u' \<and> connected u' \<and> listed_friends u' = []"
    if "list_frame p = frame_code LIST_FRAME_START"
    using that run ok by (simp add: friend_list_packet_def listed_friends_def)
  show "\<exists>u'. process_network_packet env p u = Inr u' \<and> connected u' \<and> listed_friends u' =
      (if length (listed_friends u) < MAX_FRIENDS then listed_friends u @ [friend_entry p] else listed_friends u)"
    if "list_frame p = frame_code LIST_FRAME_MIDDLE"
    using that run ok len v(1) by (auto simp: friend_list_packet_def listed_friends_def friend_item_def friend_entry_def
        take_Suc_conv_app_nth ends_list_def)
  show "\<exists>u'. process_network_packet env p u = Inr u' \<and> connected u' \<and> listed_friends u = listed_friends u'"
    if "list_frame p = frame_code LIST_FRAME_END"
    using that run ok by (simp add: friend_list_packet_def listed_friends_def ends_list_def select_first_friend_frame)
qed (simp add: connected_def)

definition friend_packet :: "env \<Rightarrow> i32 \<Rightarrow> i32 \<Rightarrow> i64 \<times> string \<times> i32 \<Rightarrow> packet" where
  "friend_packet env lid n row = (case row of (target_user_id, name, kind) \<Rightarrow>
     (social_packet env (zero_social\<lparr>soc_action := social_code SOCIAL_LIST_FRIENDS,
         soc_target := target_user_id, soc_username := strncpy0 (MAX_NAME_LEN - 1) name, soc_status_code := kind\<rparr>))
       \<lparr>list_id := lid, list_index := n, list_total := -1, list_frame := frame_code LIST_FRAME_MIDDLE\<rparr>)"

lemma friend_packet_shown:
  "friend_entry (friend_packet env lid n row) = (case row of (i, name, kind) \<Rightarrow> (i, take 31 name, kind))"
  "social_line SOCIAL_LIST_FRIENDS (friend_packet env lid n row)"
  "list_frame (friend_packet env lid n row) = frame_code LIST_FRAME_MIDDLE"
  using socialE.enum_of_code [of SOCIAL_LIST_FRIENDS]
  by (cases row; simp add: friend_packet_def friend_entry_def social_line_def social_packet_def strncpy0_def
      del: social_code.simps)+

text \<open>
  C32: When a friend list that the server streams has come in, the client's list is the first
  64 rows of the query: the requests to the user, those the user has sent, and the friends,
  each with id, name and which of the three it is.
\<close>

theorem friend_list_view:
  assumes "connected u"
  shows "\<exists>ps u'. out (stream_friends env' fd me s) = out s @ map (Pair fd) ps \<and>
    ui_run (arrivals env ps) u = Inr u' \<and>
    listed_friends u' = take 64 (map (\<lambda>(i, name, kind). (i, take 31 name, kind))
      (snd (db_list_friend_requests env' (database s) me)))"
proof -
  let ?p = "social_packet env' (zero_social\<lparr>soc_action := social_code SOCIAL_LIST_FRIENDS\<rparr>)\<lparr>list_id := to_i32 me\<rparr>"
  let ?rows = "snd (db_list_friend_requests env' (database s) me)"
  let ?row = "friend_packet env' (to_i32 me)"
  let ?q = "?p\<lparr>list_total := of_nat (length ?rows), list_frame := frame_code LIST_FRAME_END\<rparr>"
  let ?ps = "?p\<lparr>list_frame := frame_code LIST_FRAME_START\<rparr> # numbered ?row 0 ?rows @ [?q]"
  have rows: "\<forall>p \<in> set (numbered ?row 0 ?rows). social_line SOCIAL_LIST_FRIENDS p \<and> list_frame p = frame_code LIST_FRAME_MIDDLE"
    using set_numbered [of "\<lambda>p. social_line SOCIAL_LIST_FRIENDS p \<and> list_frame p = frame_code LIST_FRAME_MIDDLE" ?row]
      friend_packet_shown(2,3) by blast
  have frame: "list_frame (?p\<lparr>list_frame := f\<rparr>) = f" "list_frame (?p\<lparr>list_total := n, list_frame := f\<rparr>) = f" for f n by simp_all
  obtain u' where u': "ui_run (arrivals env ?ps) u = Inr u'"
      "take MAX_FRIENDS (map friend_entry (numbered ?row 0 ?rows)) = listed_friends u'"
    using friend_view.stream [OF assms social_line_ends(2) frame(1) rows social_line_ends(1) frame(2)] by blast
  have cb: "friend_request_cb env' fd (to_i32 me) r (n, t) = (n + 1, post env' fd (?row n r) t)" for r n t
    by (cases r) (simp add: friend_request_cb_def friend_packet_def)
  have packets: "out (stream_friends env' fd me s) = out s @ map (Pair fd) ?ps"
    unfolding stream_friends_def by (rule stream_list_packets) (rule cb)
  have "map friend_entry (numbered ?row 0 ?rows) = map (\<lambda>(i, name, kind). (i, take 31 name, kind)) ?rows"
    by (rule map_numbered) (simp add: friend_packet_shown(1))
  from u'(2) [unfolded this, symmetric] show ?thesis
    by (intro exI [of _ ?ps] exI [of _ u'] conjI packets u'(1))
qed

theorem friend_list_view_witness:
  "\<exists>s ps u'. out (stream_friends sample_env 4 1 s) = map (Pair 4) ps \<and>
    ui_run (arrivals sample_env ps) in_channel = Inr u' \<and> listed_friends u' = [(2, ''bob'', 1)]"
proof -
  let ?s = "sample_srv\<lparr>database := sample_db\<lparr>friends := [\<lparr>f_id = 1, f_user = 2, f_friend = 1, f_accepted = False\<rparr>]\<rparr>\<rparr>"
  have "connected in_channel" using in_channel_open by (simp add: channel_open_def)
  from friend_list_view [OF this, of sample_env 4 1 ?s sample_env] obtain ps u' where
    r: "out (stream_friends sample_env 4 1 ?s) = out ?s @ map (Pair 4) ps"
      "ui_run (arrivals sample_env ps) in_channel = Inr u'"
      "listed_friends u' = take 64 (map (\<lambda>(i, name, kind). (i, take 31 name, kind))
         (snd (db_list_friend_requests sample_env (database ?s) 1)))" by blast
  have "snd (db_list_friend_requests sample_env (database ?s) 1) = [(2, ''bob'', 1)]"
    by (simp add: db_list_friend_requests_def step_rows_def sample_defs)
  moreover have "out ?s = []" by (simp add: sample_srv_def)
  ultimately show ?thesis using r by (intro exI [of _ ?s] exI [of _ ps] exI [of _ u'] conjI) simp_all
qed

section \<open>The messages of a friend\<close>

text \<open>
  The friend at position \<open>i\<close> has the account \<open>a\<close>, the user the account \<open>me\<close>; no other entry of
  the list can be taken for either.
\<close>

definition friend_open :: "nat \<Rightarrow> i64 \<Rightarrow> i64 \<Rightarrow> string \<Rightarrow> string \<Rightarrow> ui \<Rightarrow> bool" where
  "friend_open i a me friend_name my_name u \<longleftrightarrow> connected u \<and> i < friend_count u \<and>
     (\<forall>k < friend_count u. fr_id (ui_friends u ! k) \<in> {a, me, 0} \<longleftrightarrow> k = i) \<and>
     fr_id (ui_friends u ! i) = a \<and> fr_name (ui_friends u ! i) = friend_name \<and>
     0 \<le> current_user u \<and> lu_name (ui_users u ! nat (current_user u)) = my_name"

definition friend_messages :: "nat \<Rightarrow> ui \<Rightarrow> ui_message list" where
  "friend_messages i u = fr_messages (ui_friends u ! i)"

definition dm_line :: "i64 \<Rightarrow> i64 \<Rightarrow> packet \<Rightarrow> bool" where
  "dm_line a me p \<longleftrightarrow> sender_id p \<in> {a, me, 0} \<and>
     (\<exists>d. payload p = Dm d \<and> dm_action d = dm_code DM_MESSAGE \<and> to_i64 (dm_recipient d) = a)"

definition dm_entry :: "i64 \<Rightarrow> string \<Rightarrow> string \<Rightarrow> packet \<Rightarrow> ui_message" where
  "dm_entry a friend_name my_name p =
     \<lparr>msg_sender = strncpy0 (MAX_NAME_LEN - 1) (if sender_id p = a then friend_name else my_name),
      msg_body = strncpy0 (MAX_MSG_LEN - 1) (case payload p of Dm d \<Rightarrow> dm_message d | _ \<Rightarrow> []), msg_ts = timestamp p\<rparr>"

lemma find_upt: "i < n \<Longrightarrow> (\<And>k. k < n \<Longrightarrow> P k \<longleftrightarrow> k = i) \<Longrightarrow> find P [0..<n] = Some i"
  by (auto simp: find_Some_iff)

lemma dm_packet_shown:
  assumes "friend_open i a me friend_name my_name u" and "payload p = Dm d" and "dm_action d = dm_code DM_MESSAGE"
    and "sender_id p \<in> {a, me, 0}" and "to_i64 (dm_recipient d) \<in> {a, me}"
    and "sender_id p = a \<or> to_i64 (dm_recipient d) = a"
  shows "\<exists>u'. process_network_packet env p u = Inr u' \<and> friend_open i a me friend_name my_name u' \<and>
    friend_messages i u' = show_message p (strncpy0 (MAX_NAME_LEN - 1) (if sender_id p = a then friend_name else my_name))
      (dm_message d) (friend_messages i u)"
proof -
  have inv: "ui_inv u" using assms(1) by (simp add: friend_open_def connected_def)
  note b = ui_inv_bounds [OF inv]
  have i: "i < friend_count u" "i < length (ui_friends u)" using assms(1) b by (simp_all add: friend_open_def)
  have found: "dm_friend p d u = Some i"
    unfolding dm_friend_def using assms i(1) by (intro find_upt) (auto simp: friend_open_def)
  let ?u = "u\<lparr>ui_friends := (ui_friends u)[i := (ui_friends u ! i)\<lparr>fr_messages := show_message p
    (strncpy0 (MAX_NAME_LEN - 1) (if sender_id p = a then friend_name else my_name)) (dm_message d)
    (fr_messages (ui_friends u ! i))\<rparr>]\<rparr>"
  have run: "process_network_packet env p u = Inr ?u"
    using assms(1-3) found i b
    by (simp add: process_network_packet_def ui_receive_dm_message_def own_name_def friend_open_def)
  have "ui_inv ?u" using inv_packet [OF inv, of env p] by (simp add: run)
  moreover have "fr_id (ui_friends ?u ! k) = fr_id (ui_friends u ! k)" "fr_name (ui_friends ?u ! k) = fr_name (ui_friends u ! k)" for k
    using i(2) by (cases "k = i"; simp)+
  ultimately have "friend_open i a me friend_name my_name ?u"
    using assms(1) by (simp add: friend_open_def connected_def del: insert_iff)
  with run i(2) show ?thesis by (intro exI [of _ ?u]) (simp add: friend_messages_def)
qed

interpretation dm_view: list_view "friend_messages i" "friend_open i a me friend_name my_name" "dm_line a me"
    "dm_entry a friend_name my_name" MAX_MESSAGES "(=)" for i a me friend_name my_name
proof
  fix u p env
  assume "friend_open i a me friend_name my_name u" and "dm_line a me p"
  then obtain d where d: "payload p = Dm d" "dm_action d = dm_code DM_MESSAGE" "sender_id p \<in> {a, me, 0}"
      "to_i64 (dm_recipient d) = a"
    by (auto simp: dm_line_def)
  then have "to_i64 (dm_recipient d) \<in> {a, me}" "sender_id p = a \<or> to_i64 (dm_recipient d) = a" by simp_all
  note shown = dm_packet_shown [OF \<open>friend_open i a me friend_name my_name u\<close> d(1-3) this, of env]
  show "\<exists>u'. process_network_packet env p u = Inr u' \<and> friend_open i a me friend_name my_name u' \<and> friend_messages i u' = []"
    if "list_frame p = frame_code LIST_FRAME_START" using shown that by (simp add: show_message_def)
  show "\<exists>u'. process_network_packet env p u = Inr u' \<and> friend_open i a me friend_name my_name u' \<and> friend_messages i u' =
      (if length (friend_messages i u) < MAX_MESSAGES
       then friend_messages i u @ [dm_entry a friend_name my_name p] else friend_messages i u)"
    if "list_frame p = frame_code LIST_FRAME_MIDDLE" using shown that d(1) by (auto simp: show_message_def dm_entry_def)
  show "\<exists>u'. process_network_packet env p u = Inr u' \<and> friend_open i a me friend_name my_name u' \<and>
      friend_messages i u = friend_messages i u'"
    if "list_frame p = frame_code LIST_FRAME_END" using shown that by (auto simp: show_message_def)
qed (simp add: friend_open_def connected_def)

definition dm_history_packet :: "env \<Rightarrow> i32 \<Rightarrow> i64 \<Rightarrow> string \<Rightarrow> i32 \<Rightarrow> i64 \<times> string \<times> string \<times> string \<times> i64 \<Rightarrow> packet" where
  "dm_history_packet env friend me my_name n row = (case row of (msg_id, sender_name, _, content, t) \<Rightarrow>
     (dm_packet env (zero_dm\<lparr>dm_action := dm_code DM_MESSAGE, dm_recipient := friend, dm_message_id := msg_id,
         dm_message := strncpy0 (MESSAGE_LEN - 1) content\<rparr>))
       \<lparr>list_id := friend, list_index := n, list_frame := frame_code LIST_FRAME_MIDDLE,
        sender_id := (if sender_name = my_name then me else to_i64 friend), timestamp := t\<rparr>)"

definition dm_history_entry :: "string \<Rightarrow> string \<Rightarrow> i64 \<times> string \<times> string \<times> string \<times> i64 \<Rightarrow> ui_message" where
  "dm_history_entry friend_name my_name row = (case row of (msg_id, sender_name, _, content, t) \<Rightarrow>
     \<lparr>msg_sender = take 31 (if sender_name = my_name then my_name else friend_name), msg_body = take 239 content,
      msg_ts = t\<rparr>)"

lemma dm_history_packet_shown:
  "to_i64 friend \<noteq> me \<Longrightarrow> dm_entry (to_i64 friend) friend_name my_name (dm_history_packet env friend me my_name n row) =
     dm_history_entry friend_name my_name row"
  "dm_line (to_i64 friend) me (dm_history_packet env friend me my_name n row)"
  "list_frame (dm_history_packet env friend me my_name n row) = frame_code LIST_FRAME_MIDDLE"
  by (cases row; simp add: dm_entry_def dm_line_def dm_history_packet_def dm_history_entry_def dm_packet_def strncpy0_def)+

lemma dm_history_packets:
  assumes "find_sender fd s = Some node" and "length (username node) \<le> 31"
  shows "out (direct_message_history env d fd s) = out s @ map (Pair fd)
    ((dm_packet env (zero_dm\<lparr>dm_action := dm_code DM_MESSAGE, dm_recipient := dm_recipient d\<rparr>))
       \<lparr>list_id := dm_recipient d, list_frame := frame_code LIST_FRAME_START\<rparr> #
     numbered (dm_history_packet env (dm_recipient d) (cid node) (username node)) 0
       (snd (db_list_direct_messages env (database s) (cid node) (to_i64 (dm_recipient d)))) @
     [(dm_packet env (zero_dm\<lparr>dm_action := dm_code DM_MESSAGE, dm_recipient := dm_recipient d\<rparr>))
       \<lparr>list_id := dm_recipient d, list_frame := frame_code LIST_FRAME_END\<rparr>])"
proof -
  have cb: "direct_message_history_cb env fd (dm_recipient d) (cid node) (to_i64 (dm_recipient d)) (username node) r (n, t) =
      (n + 1, post env fd (dm_history_packet env (dm_recipient d) (cid node) (username node) n r) t)" for r n t
    by (cases r) (simp add: direct_message_history_cb_def dm_history_packet_def)
  have name: "strncpy0 (MAX_NAME_LEN - 1) (username node) = username node" using assms(2) by simp
  show ?thesis
    unfolding direct_message_history_def assms(1) option.case Let_def name
    by (subst fold_numbered [where s = s and fd = fd and pk =
        "dm_history_packet env (dm_recipient d) (cid node) (username node)"])
      (simp_all add: cb post_def send_to_def)
qed

lemma length_dm_rows: "length (snd (db_list_direct_messages env db a b)) \<le> 50"
  by (auto simp: db_list_direct_messages_def step_rows_def split: option.split)

text \<open>
  C30: When the server has answered a request for the history with a friend, the client shows
  all messages of the answer, at most 50, oldest first: each under the name of the one of the
  two who wrote it, with the first 239 bytes of its text and its time.
\<close>

theorem dm_view_is_history:
  assumes "payload p = Dm d" and "dm_action_of (dm_action d) = Some DM_HISTORY_REQUEST"
    and "find_sender fd s = Some node" and "length (username node) \<le> 31" and "to_i64 (dm_recipient d) \<noteq> cid node"
    and "friend_open i (to_i64 (dm_recipient d)) (cid node) friend_name (username node) u"
  shows "\<exists>ps u'. out (handle_chat_packet env' p fd s) = out s @ map (Pair fd) ps \<and>
    ui_run (arrivals env ps) u = Inr u' \<and>
    friend_messages i u' = map (dm_history_entry friend_name (username node))
      (snd (db_list_direct_messages env' (database s) (cid node) (to_i64 (dm_recipient d))))"
proof -
  let ?f = "dm_recipient d"
  let ?b = "dm_packet env' (zero_dm\<lparr>dm_action := dm_code DM_MESSAGE, dm_recipient := ?f\<rparr>)\<lparr>list_id := ?f\<rparr>"
  let ?row = "dm_history_packet env' ?f (cid node) (username node)"
  let ?rows = "snd (db_list_direct_messages env' (database s) (cid node) (to_i64 ?f))"
  let ?ps = "?b\<lparr>list_frame := frame_code LIST_FRAME_START\<rparr> # numbered ?row 0 ?rows @
    [?b\<lparr>list_frame := frame_code LIST_FRAME_END\<rparr>]"
  have line: "dm_line (to_i64 ?f) (cid node) (?b\<lparr>list_frame := f\<rparr>)" for f
    by (simp add: dm_line_def dm_packet_def create_base_packet_def zero_packet_def)
  have frame: "list_frame (?b\<lparr>list_frame := f\<rparr>) = f" for f by simp
  have rows: "\<forall>p \<in> set (numbered ?row 0 ?rows). dm_line (to_i64 ?f) (cid node) p \<and> list_frame p = frame_code LIST_FRAME_MIDDLE"
    using set_numbered [of "\<lambda>p. dm_line (to_i64 ?f) (cid node) p \<and> list_frame p = frame_code LIST_FRAME_MIDDLE" ?row]
      dm_history_packet_shown(2,3) by blast
  obtain u' where u': "ui_run (arrivals env ?ps) u = Inr u'"
      "take MAX_MESSAGES (map (dm_entry (to_i64 ?f) friend_name (username node)) (numbered ?row 0 ?rows)) = friend_messages i u'"
    using dm_view.stream [OF assms(6) line frame rows line frame] by blast
  have "handle_chat_packet env' p fd s = direct_message_history env' d fd s"
    using assms(1,2) by (simp add: handle_chat_packet_def handle_private_message_def)
  then have packets: "out (handle_chat_packet env' p fd s) = out s @ map (Pair fd) ?ps"
    by (simp only: dm_history_packets [OF assms(3,4)])
  have "map (dm_entry (to_i64 ?f) friend_name (username node)) (numbered ?row 0 ?rows) =
      map (dm_history_entry friend_name (username node)) ?rows"
    by (rule map_numbered) (rule dm_history_packet_shown(1) [OF assms(5)])
  with u'(2) length_dm_rows [of env' "database s" "cid node" "to_i64 ?f"]
  have "friend_messages i u' = map (dm_history_entry friend_name (username node)) ?rows" by simp
  with packets u'(1) show ?thesis by blast
qed

text \<open>A user who is logged in and has one friend.\<close>

definition with_friend :: "i64 \<Rightarrow> string \<Rightarrow> string \<Rightarrow> ui" where
  "with_friend a friend_name my_name = in_channel\<lparr>friend_count := 1, active_dm_friend := 0,
     ui_users := (ui_users in_channel)[0 := \<lparr>lu_name = my_name, lu_password = ''pw'', lu_server = 0\<rparr>],
     ui_friends := (ui_friends in_channel)[0 := \<lparr>fr_id = a, fr_name = friend_name, fr_type = 2, fr_messages = []\<rparr>]\<rparr>"

lemma with_friend_open: "friend_open 0 a me friend_name my_name (with_friend a friend_name my_name)"
proof -
  have inv: "ui_inv in_channel" using in_channel_open by (simp add: channel_open_def connected_def)
  note b = ui_inv_bounds [OF inv]
  have "friends_ok ((ui_friends in_channel)[0 := \<lparr>fr_id = a, fr_name = friend_name, fr_type = 2, fr_messages = []\<rparr>]) 0"
    by (rule friends_update) (use inv in \<open>simp_all add: ui_inv_def friends_ok_def\<close>)
  with inv have "ui_inv (with_friend a friend_name my_name)"
    by (simp add: with_friend_def ui_inv_def accounts_ok_def list_ok_def)
  moreover have "client_socket (with_friend a friend_name my_name) = 3" "current_user (with_friend a friend_name my_name) = 0"
    by (simp_all add: with_friend_def in_channel_def initial_fields)
  ultimately show ?thesis using b by (simp add: friend_open_def connected_def with_friend_def)
qed

theorem dm_view_is_history_witness:
  "\<exists>s ps u'. out (handle_chat_packet sample_env (dm_request sample_env DM_HISTORY_REQUEST 2 []) 4 s) = map (Pair 4) ps \<and>
    ui_run (arrivals sample_env ps) (with_friend 2 ''bob'' ''ann'') = Inr u' \<and>
    friend_messages 0 u' = [\<lparr>msg_sender = ''ann'', msg_body = ''hi'', msg_ts = 3\<rparr>, \<lparr>msg_sender = ''bob'', msg_body = ''hey'', msg_ts = 4\<rparr>]"
proof -
  let ?d = "zero_dm\<lparr>dm_action := dm_code DM_HISTORY_REQUEST, dm_recipient := 2\<rparr>"
  let ?p = "dm_request sample_env DM_HISTORY_REQUEST 2 []"
  let ?node = "clients sample_srv ! 0"
  let ?s = "sample_srv\<lparr>database := sample_db\<lparr>dms :=
    [\<lparr>d_id = 1, d_sender = 1, d_receiver = 2, d_content = ''hi'', d_created = 3\<rparr>,
     \<lparr>d_id = 2, d_sender = 2, d_receiver = 1, d_content = ''hey'', d_created = 4\<rparr>]\<rparr>\<rparr>"
  have d: "payload ?p = Dm ?d" "dm_action_of (dm_action ?d) = Some DM_HISTORY_REQUEST"
    using dmE.enum_of_code [of DM_HISTORY_REQUEST]
    by (simp_all add: dm_request_def base_request_def zero_dm_def del: dm_code.simps)
  have node: "find_sender 4 ?s = Some ?node" "username ?node = ''ann''" "cid ?node = 1"
    by (simp_all add: find_sender_def sample_srv_def)
  have f: "friend_open 0 (to_i64 (dm_recipient ?d)) (cid ?node) ''bob'' (username ?node) (with_friend 2 ''bob'' ''ann'')"
    using with_friend_open [of 2 1 "''bob''" "''ann''"] by (simp add: node)
  obtain ps u' where r: "out (handle_chat_packet sample_env ?p 4 ?s) = out ?s @ map (Pair 4) ps"
      "ui_run (arrivals sample_env ps) (with_friend 2 ''bob'' ''ann'') = Inr u'" "friend_messages 0 u' = map (dm_history_entry ''bob'' (username ?node))
        (snd (db_list_direct_messages sample_env (database ?s) (cid ?node) (to_i64 (dm_recipient ?d))))"
    using dm_view_is_history [OF d node(1) _ _ f, of sample_env sample_env] by (auto simp: node)
  have "snd (db_list_direct_messages sample_env (database ?s) 1 2) = [(1, ''ann'', ''bob'', ''hi'', 3), (2, ''bob'', ''ann'', ''hey'', 4)]"
    by (simp add: db_list_direct_messages_def conversation_def step_rows_def sample_defs)
  moreover have "out ?s = []" by (simp add: sample_srv_def)
  ultimately show ?thesis
    using r by (intro exI [of _ ?s] exI [of _ ps] exI [of _ u'] conjI) (simp_all add: node dm_history_entry_def)
qed

end
