(* ===== verification/EndToEnd.thy ===== *)
theory EndToEnd
  imports ListViews UiSends
begin

text \<open>
  Client and server together: what a user types goes through the client's form or command
  line, over the wire between hosts of any byte order, through the server's handler and its
  database, and back into what the same or another client shows.
\<close>

section \<open>Logging in\<close>

text \<open>The account that a name and a password belong to.\<close>

definition account_of :: "env \<Rightarrow> db \<Rightarrow> string \<Rightarrow> string \<Rightarrow> i64 option" where
  "account_of env db name password =
     (case db_get_password_hash env db name of
        None \<Rightarrow> None
      | Some (user_id, hash) \<Rightarrow> if crypt env password hash = Some hash then Some user_id else None)"

text \<open>The client's request, and the server's reply, which is the last packet it sends.\<close>

definition login_request :: "env \<Rightarrow> string \<Rightarrow> string \<Rightarrow> packet" where
  "login_request env name password = base_request env PACKET_AUTH (credentials AUTH_LOGIN name password)"

lemma enter_sends_login:
  assumes "current_screen u = SCREEN_LOGIN" and "form_username u \<noteq> []" and "form_password u \<noteq> []"
    and "0 \<le> client_socket u"
  shows "handle_key env Key_enter u = Inr (u\<lparr>
    requests := requests u @ [(client_socket u, login_request env (form_username u) (form_password u))],
    form_success := ''Authenticating...'', form_error := []\<rparr>)"
  using assms by (simp add: handle_key_def handle_auth_input_def key_defs submit_form_def send_login_eq
      submit_eq login_request_def Let_def)

lemma sendable_login:
  "nul_free name \<Longrightarrow> nul_free password \<Longrightarrow> sendable (login_request env name password)"
  by (simp add: login_request_def sendable_requests)

lemma sendable_auth_reply: "sendable (auth_packet a status [])"
  using kindE.enum_of_code [of PACKET_AUTH]
  by (simp add: sendable_def packet_fits_def packet_type_def auth_packet_def plain_packet_def zero_defs fits_def)

lemma login_reply:
  "last (out (login_account env fd a s)) = (fd, auth_packet AUTH_LOGIN
     (case db_get_password_hash env (database s) (auth_username a) of
        None \<Rightarrow> 1
      | Some (user_id, hash) \<Rightarrow> if crypt env (auth_password a) hash = Some hash then resp RESP_OK else resp RESP_ERR_INVALID)
     [])"
  by (simp add: login_account_def Let_def post_def send_to_def split: option.split)

lemma server_gets_login:
  assumes "length name < MAX_NAME_LEN" and "length password < PASSWORD_LEN"
  shows "process_client_packet env' i (login_request env name password) s =
    login_account env' (socket_fd (clients s ! i)) (zero_auth\<lparr>auth_action := auth_code AUTH_LOGIN,
      auth_username := name, auth_password := password\<rparr>) s"
  using assms authE.enum_of_code [of AUTH_LOGIN]
  by (simp add: process_client_packet_def login_request_def base_request_def credentials_def handle_auth_packet_def)

text \<open>What the client does with the reply.\<close>

lemma client_gets_refusal:
  "status \<noteq> resp RESP_OK \<Longrightarrow> process_network_packet env (auth_packet AUTH_LOGIN status name) u =
     Inr (u\<lparr>form_error := ''Invalid Username or Password.'', form_success := []\<rparr>)"
  by (simp add: process_network_packet_def auth_packet_def plain_packet_def ui_handle_auth_response_def)

lemma client_gets_success:
  assumes "ui_inv u" and "user_count u < MAX_USERS"
  shows "\<exists>u'. process_network_packet env (auth_packet AUTH_LOGIN (resp RESP_OK) name) u = Inr u' \<and>
    current_screen u' = SCREEN_SERVERS \<and> current_user u' = int (user_count u) \<and>
    lu_name (ui_users u' ! user_count u) = form_username u"
proof -
  have "length (form_username u) < MAX_NAME_LEN" using assms(1) by (simp add: ui_inv_def line_ok_def)
  with assms(2) ui_inv_bounds(1) [OF assms(1)] show ?thesis
    by (simp add: process_network_packet_def auth_packet_def plain_packet_def ui_handle_auth_response_def
        auth_success_def request_defs submit_eq)
qed

lemma session_after_login:
  assumes "srv_inv s" and "i < length (clients s)" and "account_of env (database s) (auth_username a) (auth_password a) = Some uid"
  shows "is_authenticated (clients (login_account env (socket_fd (clients s ! i)) a s) ! i) \<and>
    cid (clients (login_account env (socket_fd (clients s ! i)) a s) ! i) = uid"
proof -
  let ?fd = "socket_fd (clients s ! i)" and ?r = "\<lambda>c. if revoked (socket_fd (clients s ! i)) uid c then clear_client_session c else c"
  obtain hash where h: "db_get_password_hash env (database s) (auth_username a) = Some (uid, hash)"
      "crypt env (auth_password a) hash = Some hash"
    using assms(3) by (auto simp: account_of_def split: option.splits if_splits)
  have "distinct (map socket_fd (clients s))" using assms(1) by (simp add: srv_inv_def clients_ok_def)
  then have "distinct (map socket_fd (map ?r (clients s)))"
    by (simp add: comp_def if_distrib [of socket_fd] cong: if_cong)
  from upd_first_distinct [OF this, of ?fd] assms(2)
  have "upd_first (\<lambda>c. socket_fd c = ?fd) (link_identity uid (auth_username a)) (map ?r (clients s)) ! i =
      link_identity uid (auth_username a) (?r (clients s ! i))" by simp
  with h show ?thesis by (simp add: login_effect)
qed

text \<open>
  C16: Pressing ENTER on the filled login form sends one packet, which arrives at the server
  as it was sent, on any pair of hosts. The server's last packet goes back on the same
  connection. When it has come in, the client shows the servers, logged in under the name
  typed, and the server has the connection logged in as the account, exactly when name and
  password belong to that account; otherwise the client stays at the form with the error
  message and no session on the server has changed.
\<close>

theorem login_end_to_end:
  assumes "ui_reach cfd u" and "current_screen u = SCREEN_LOGIN" and "form_username u \<noteq> []"
    and "form_password u \<noteq> []" and "0 \<le> client_socket u" and "user_count u < MAX_USERS"
    and "srv_inv s" and "i < length (clients s)"
  shows "\<exists>u1 p q u2 s'. handle_key env Key_enter u = Inr u1 \<and>
    requests u1 = requests u @ [(client_socket u, p)] \<and> unwire se (wire ce p) = Some p \<and>
    process_client_packet env' i p s = s' \<and> last (out s') = (socket_fd (clients s ! i), q) \<and>
    unwire ce (wire se q) = Some q \<and> process_network_packet env q u1 = Inr u2 \<and>
    (case account_of env' (database s) (form_username u) (form_password u) of
       Some uid \<Rightarrow> current_screen u2 = SCREEN_SERVERS \<and> current_user u2 = int (user_count u) \<and>
         lu_name (ui_users u2 ! user_count u) = form_username u \<and>
         is_authenticated (clients s' ! i) \<and> cid (clients s' ! i) = uid
     | None \<Rightarrow> current_screen u2 = SCREEN_LOGIN \<and> form_error u2 = ''Invalid Username or Password.'' \<and>
         clients s' = clients s)"
proof -
  let ?p = "login_request env (form_username u) (form_password u)"
  let ?a = "zero_auth\<lparr>auth_action := auth_code AUTH_LOGIN, auth_username := form_username u, auth_password := form_password u\<rparr>"
  let ?s = "login_account env' (socket_fd (clients s ! i)) ?a s"
  note inv = reach_inv_ui [OF assms(1)]
  obtain u1 where u1: "handle_key env Key_enter u = Inr u1" "requests u1 = requests u @ [(client_socket u, ?p)]"
      "current_screen u1 = SCREEN_LOGIN" "form_username u1 = form_username u" "user_count u1 = user_count u"
    using enter_sends_login [OF assms(2-5)] assms(2) by simp
  have inv1: "ui_inv u1" using inv_key [OF inv, of env Key_enter] u1(1) by (simp add: holds_def)
  have len: "length (form_username u) < MAX_NAME_LEN" "length (form_password u) < PASSWORD_LEN"
    using inv by (simp_all add: ui_inv_def line_ok_def)
  have p: "unwire se (wire ce ?p) = Some ?p"
    using reach_clean [OF assms(1)] by (intro unwire_wire_other sendable_login) (simp_all add: clean_def)
  note server = server_gets_login [OF len, of env' i env s]
  note q = unwire_wire_other [OF sendable_auth_reply]
  show ?thesis
  proof (cases "account_of env' (database s) (form_username u) (form_password u)")
    case None
    let ?st = "if db_get_password_hash env' (database s) (form_username u) = None then 1 else resp RESP_ERR_INVALID"
    have st: "?st \<noteq> resp RESP_OK"
        "last (out ?s) = (socket_fd (clients s ! i), auth_packet AUTH_LOGIN ?st [])"
      using None by (auto simp: login_reply account_of_def split: option.splits if_splits)
    have "clients ?s = clients s"
      using None by (auto simp: login_effect account_of_def split: option.splits if_splits)
    with None u1 p q st client_gets_refusal [OF st(1), of env "[]" u1] server show ?thesis by auto
  next
    case (Some uid)
    then have "last (out ?s) = (socket_fd (clients s ! i), auth_packet AUTH_LOGIN (resp RESP_OK) [])"
      by (auto simp: login_reply account_of_def split: option.splits if_splits)
    with Some u1 p q client_gets_success [OF inv1, of env "[]"] server assms(6)
      session_after_login [OF assms(7,8), of env' ?a uid] show ?thesis by auto
  qed
qed

text \<open>The form filled by typing.\<close>

definition typing :: "nat list \<Rightarrow> (env \<times> ui_event) list" where
  "typing = map (\<lambda>c. (sample_env, Key_pressed (Key_char c)))"

lemma typed_form:
  "\<exists>u. ui_run (typing [97, 110, 110, 9, 112, 119]) (initial_ui 3) = Inr u \<and> current_screen u = SCREEN_LOGIN \<and>
     form_username u = ''ann'' \<and> form_password u = ''pw'' \<and> client_socket u = 3 \<and> user_count u = 0"
  by (simp add: typing_def handle_key_def handle_auth_input_def key_defs put_field_def initial_ui_def Let_def char_of_def bit_0)

theorem login_end_to_end_witness:
  "\<exists>u u1 p q u2. ui_reach 3 u \<and> handle_key sample_env Key_enter u = Inr u1 \<and> requests u1 = requests u @ [(3, p)] \<and>
     last (out (process_client_packet sample_env 1 p sample_srv)) = (5, q) \<and>
     process_network_packet sample_env q u1 = Inr u2 \<and> current_screen u2 = SCREEN_SERVERS"
proof -
  obtain u where u: "ui_run (typing [97, 110, 110, 9, 112, 119]) (initial_ui 3) = Inr u"
      "current_screen u = SCREEN_LOGIN" "form_username u = ''ann''" "form_password u = ''pw''"
      "client_socket u = 3" "user_count u = 0"
    using typed_form by blast
  note reach = ui_run_reach [OF ui_reach.start u(1)]
  have "account_of sample_env (database sample_srv) ''ann'' ''pw'' = Some 1"
    by (simp add: account_of_def db_get_password_hash_def first_row_def step_rows_def sample_srv_def sample_defs)
  moreover have "1 < length (clients sample_srv)" "socket_fd (clients sample_srv ! 1) = 5"
    by (simp_all add: sample_srv_def)
  ultimately show ?thesis
    using login_end_to_end [OF reach u(2) _ _ _ _ sample_srv_inv, of 1 sample_env Little Big sample_env] u reach by auto
qed

section \<open>Direct messages\<close>

text \<open>The server's lookups of a client by its socket and by its account.\<close>

lemma unique_socket:
  assumes "srv_inv s" and "c \<in> set (clients s)" and "d \<in> set (clients s)" and "socket_fd c = socket_fd d"
  shows "c = d"
  using assms by (auto simp: srv_inv_def clients_ok_def distinct_map dest: inj_onD)

lemma find_own_entry:
  assumes "srv_inv s" and "i < length (clients s)"
  shows "find_sender (socket_fd (clients s ! i)) s = Some (clients s ! i)"
proof (cases "find_sender (socket_fd (clients s ! i)) s")
  case None
  then show ?thesis using nth_mem [OF assms(2)] by (auto simp: find_sender_def find_None_iff)
next
  case (Some c)
  then have "c \<in> set (clients s)" "socket_fd c = socket_fd (clients s ! i)"
    by (auto simp: find_sender_def dest: find_SomeD)
  with unique_socket [OF assms(1)] assms(2) Some show ?thesis by simp
qed

lemma find_account:
  assumes "srv_inv s" and "c \<in> set (clients s)" and "is_authenticated c"
  shows "find (\<lambda>d. 0 < socket_fd d \<and> cid d = cid c) (clients s) = Some c"
proof -
  have ok: "clients_ok (set (accounts (database s))) (clients s)" "db_wf (database s)"
    using assms(1) by (simp_all add: srv_inv_def)
  have "0 < socket_fd c" by (rule client_okD(2) [OF ok(1) assms(2,3)])
  moreover obtain n where "(cid c, n) \<in> set (accounts (database s))" using client_okD(3) [OF ok(1) assms(2,3)] by blast
  then have "cid c \<noteq> 0" using ok(2) by (auto simp: accounts_def db_wf_def users_wf_def word_sless_alt)
  ultimately obtain d where d: "find (\<lambda>d. 0 < socket_fd d \<and> cid d = cid c) (clients s) = Some d"
    using assms(2) by (cases "find (\<lambda>d. 0 < socket_fd d \<and> cid d = cid c) (clients s)") (auto simp: find_None_iff)
  then have "d \<in> set (clients s)" "cid d = cid c" by (auto dest: find_SomeD)
  moreover from this have "is_authenticated d"
    using client_okD(1) [OF ok(1), of d] \<open>cid c \<noteq> 0\<close> by (auto simp: client_ok_def split: if_splits)
  ultimately have "socket_fd d = socket_fd c" using one_loginD [OF ok(1)] assms(2,3) by blast
  with d unique_socket [OF assms(1)] \<open>d \<in> set (clients s)\<close> assms(2) show ?thesis by simp
qed

lemma server_delivers_dm:
  assumes "srv_inv s" and "i < length (clients s)" and "dest \<in> set (clients s)" and "is_authenticated dest"
    and "cid dest = to_i64 b"
  shows "out (process_client_packet env i (dm_request env' DM_MESSAGE (to_i64 b) body) s) =
    out s @ [(socket_fd dest, (dm_request env' DM_MESSAGE (to_i64 b) body)\<lparr>sender_id := cid (clients s ! i)\<rparr>)]"
  using find_own_entry [OF assms(1,2)] find_account [OF assms(1,3,4)] dmE.enum_of_code [of DM_MESSAGE] assms(5)
  by (simp add: process_client_packet_def handle_chat_packet_def handle_private_message_def direct_message_def
      dm_request_def base_request_def post_def send_to_def Let_def del: dm_code.simps)

lemma enter_sends_dm:
  assumes "ui_inv u" and "current_screen u = SCREEN_DMS" and "active_dm_friend u = int k" and "dm_input u \<noteq> []"
    and "0 \<le> client_socket u" and "0 \<le> current_user u"
  shows "\<exists>u'. handle_key env Key_enter u = Inr u' \<and> dm_input u' = [] \<and>
    requests u' = requests u @ [(client_socket u, dm_request env DM_MESSAGE (fr_id (ui_friends u ! k)) (dm_input u))]"
  using assms(2-) ui_inv_bounds [OF assms(1)]
  by (auto simp: handle_key_def handle_dms_input_def key_defs send_dm_def request_defs submit_eq Let_def)

text \<open>
  C17: A direct message goes from one user's keyboard to the other user's screen: ENTER sends
  one packet, the server passes it to the one connection the other user is logged in on,
  under the account the sender is logged in as, and the receiving client shows the text as
  it was typed, with the sender's time, under the name of that friend, unless 64 messages
  are there already, in which case it is dropped. On every leg the packet arrives as it was
  sent, on any pair of hosts.
\<close>

theorem direct_message_end_to_end:
  assumes "ui_reach afd u" and "current_screen u = SCREEN_DMS" and "active_dm_friend u = int k" and "dm_input u \<noteq> []"
    and "0 \<le> client_socket u" and "0 \<le> current_user u" and "fr_id (ui_friends u ! k) = to_i64 b"
    and "srv_inv s" and "i < length (clients s)" and "dest \<in> set (clients s)" and "is_authenticated dest"
    and "cid dest = to_i64 b"
    and "friend_open n (cid (clients s ! i)) (to_i64 b) friend_name my_name w"
  shows "\<exists>u' p q w'. handle_key env Key_enter u = Inr u' \<and> dm_input u' = [] \<and>
    requests u' = requests u @ [(client_socket u, p)] \<and> unwire se (wire ae p) = Some p \<and>
    out (process_client_packet env' i p s) = out s @ [(socket_fd dest, q)] \<and> unwire be (wire se q) = Some q \<and>
    process_network_packet env'' q w = Inr w' \<and>
    friend_messages n w' = (if length (friend_messages n w) < 64 then friend_messages n w @
      [\<lparr>msg_sender = take 31 friend_name, msg_body = dm_input u, msg_ts = now env\<rparr>] else friend_messages n w)"
proof -
  let ?p = "dm_request env DM_MESSAGE (to_i64 b) (dm_input u)"
  let ?q = "?p\<lparr>sender_id := cid (clients s ! i)\<rparr>"
  let ?d = "zero_dm\<lparr>dm_action := dm_code DM_MESSAGE, dm_recipient := b, dm_message := dm_input u\<rparr>"
  note inv = reach_inv_ui [OF assms(1)]
  have short: "length (dm_input u) < MAX_MSG_LEN" using inv by (simp add: ui_inv_def line_ok_def)
  have p: "sendable ?p" using reach_clean [OF assms(1)] by (simp add: clean_def sendable_requests)
  then have q: "sendable ?q" by (simp add: sendable_def packet_fits_def packet_type_def)
  have fields: "payload ?q = Dm ?d" "sender_id ?q = cid (clients s ! i)" "list_frame ?q = 0" "timestamp ?q = now env"
    using short by (simp_all add: dm_request_def base_request_def create_base_packet_def zero_packet_def)
  obtain u' where u': "handle_key env Key_enter u = Inr u'" "dm_input u' = []" "requests u' = requests u @ [(client_socket u, ?p)]"
    using enter_sends_dm [OF inv assms(2-6), of env] assms(7) by auto
  obtain w' where w': "process_network_packet env'' ?q w = Inr w'" "friend_messages n w' =
      show_message ?q (strncpy0 31 friend_name) (dm_input u) (friend_messages n w)"
    using dm_packet_shown [OF assms(13) fields(1), of env''] fields(2) by auto
  have "friend_messages n w' = (if length (friend_messages n w) < 64 then friend_messages n w @
      [\<lparr>msg_sender = take 31 friend_name, msg_body = dm_input u, msg_ts = now env\<rparr>] else friend_messages n w)"
    using w'(2) fields(3,4) short by (simp add: show_message_def strncpy0_def)
  with u' w'(1) server_delivers_dm [OF assms(8-12)] unwire_wire_other [OF p] unwire_wire_other [OF q]
  show ?thesis by blast
qed

text \<open>Ann logs in, opens her direct messages with Bob and types; Bob has her as a friend.\<close>

definition friend_row_packet :: "list_frame_type \<Rightarrow> packet" where
  "friend_row_packet frame = (zero_packet PACKET_SOCIAL)\<lparr>list_frame := frame_code frame,
     payload := Social (zero_social\<lparr>soc_action := social_code SOCIAL_LIST_FRIENDS, soc_target := 2,
       soc_username := ''bob'', soc_status_code := 2\<rparr>)\<rparr>"

definition dm_run :: "(env \<times> ui_event) list" where
  "dm_run = map (Pair sample_env) [Packet_arrived login_ok, Packet_arrived (friend_row_packet LIST_FRAME_START),
     Packet_arrived (friend_row_packet LIST_FRAME_MIDDLE), Key_pressed (Key_f 4),
     Packet_arrived (friend_row_packet LIST_FRAME_END), Key_pressed (Key_char 104), Key_pressed (Key_char 105)]"

lemma dm_run_result:
  "\<exists>u. ui_run dm_run (initial_ui 3) = Inr u \<and> current_screen u = SCREEN_DMS \<and> active_dm_friend u = int 0 \<and>
     dm_input u = ''hi'' \<and> client_socket u = 3 \<and> current_user u = 0 \<and> fr_id (ui_friends u ! 0) = to_i64 2"
  by (simp add: dm_run_def login_ok_def friend_row_packet_def process_network_packet_def zero_packet_def zero_auth_def
      zero_social_def ui_handle_auth_response_def auth_success_def friend_list_packet_def friend_item_def
      ends_list_def select_first_friend_def enum_of_def initial_ui_def set_at_def entry_at_def handle_key_def
      handle_server_input_def handle_dms_input_def type_char_def char_of_def bit_0 key_defs request_defs submit_eq Let_def)

definition two_logins :: srv where
  "two_logins = sample_srv\<lparr>clients := [clients sample_srv ! 0,
     (clients sample_srv ! 1)\<lparr>cid := 2, is_authenticated := True, username := ''bob''\<rparr>]\<rparr>"

lemma two_logins_inv: "srv_inv two_logins"
  by (simp add: two_logins_def sample_srv_def srv_inv_def clients_ok_def client_ok_def one_login_def accounts_def
      sample_db_wf layout) (simp add: sample_defs)

theorem direct_message_end_to_end_witness:
  "\<exists>u u' p q w'. ui_reach 3 u \<and> handle_key sample_env Key_enter u = Inr u' \<and> requests u' = requests u @ [(3, p)] \<and>
    out (process_client_packet sample_env 0 p two_logins) = out two_logins @ [(5, q)] \<and>
    process_network_packet sample_env q (with_friend 1 ''ann'' ''bob'') = Inr w' \<and>
    friend_messages 0 w' = [\<lparr>msg_sender = ''ann'', msg_body = ''hi'', msg_ts = 7\<rparr>]"
proof -
  obtain u where u: "ui_run dm_run (initial_ui 3) = Inr u" "current_screen u = SCREEN_DMS" "active_dm_friend u = int 0"
      "dm_input u = ''hi''" "client_socket u = 3" "current_user u = 0" "fr_id (ui_friends u ! 0) = to_i64 2"
    using dm_run_result by blast
  note reach = ui_run_reach [OF ui_reach.start u(1)]
  let ?ann = "clients two_logins ! 0" and ?bob = "clients two_logins ! 1"
  have c: "0 < length (clients two_logins)" "?bob \<in> set (clients two_logins)" "is_authenticated ?bob"
      "cid ?bob = to_i64 2" "socket_fd ?bob = 5" "cid ?ann = 1"
    by (simp_all add: two_logins_def sample_srv_def)
  have w: "friend_open 0 (cid ?ann) (to_i64 2) ''ann'' ''bob'' (with_friend 1 ''ann'' ''bob'')"
    using with_friend_open [of 1 "to_i64 2"] by (simp add: c)
  have "friend_messages 0 (with_friend 1 ''ann'' ''bob'') = []" "now sample_env = 7"
    using ui_inv_bounds(3) [of in_channel] in_channel_open
    by (simp_all add: friend_messages_def with_friend_def channel_open_def connected_def sample_env_def)
  with direct_message_end_to_end [OF reach u(2,3) _ _ _ u(7) two_logins_inv c(1-4) w, of sample_env Little Big sample_env Little sample_env]
  show ?thesis using u c(5) reach by auto
qed

end
