(* ===== verification/Startup.thy ===== *)
theory Startup
  imports ClientLoop EndToEnd
begin

text \<open>
  How the two programs start: \<open>main\<close> of \<^verbatim>\<open>server/main.c\<close> with \<open>start_server\<close> of
  \<^verbatim>\<open>server/server.c\<close> and \<open>db_connect\<close> of \<^verbatim>\<open>server/db.c\<close>, and \<open>main\<close> of \<^verbatim>\<open>client/client_main.c\<close>.
  The system calls and SQLite are arguments; what the programs print is left out. A started
  server runs the rounds of \<open>EventLoop\<close> and a started client the passes of \<open>ClientLoop\<close>, both
  for ever: neither \<open>main\<close> gets to the lines after the loop.
\<close>

section \<open>Numbers on the command line\<close>

text \<open>
  \<open>atoi\<close>: blanks, a sign, digits; anything behind them is ignored. A number that does not
  fit an \<open>int\<close> is undefined behaviour, \<open>None\<close>.
\<close>

definition is_digit :: "char \<Rightarrow> bool" where
  "is_digit c \<longleftrightarrow> 48 \<le> (of_char c :: nat) \<and> (of_char c :: nat) \<le> 57"

definition is_space :: "char \<Rightarrow> bool" where
  "is_space c \<longleftrightarrow> (of_char c :: nat) = 32 \<or> (9 \<le> (of_char c :: nat) \<and> (of_char c :: nat) \<le> 13)"

definition digits_value :: "string \<Rightarrow> int" where
  "digits_value s = foldl (\<lambda>n c. 10 * n + (of_char c - 48)) 0 s"

definition fits_int :: "int \<Rightarrow> bool" where
  "fits_int n \<longleftrightarrow> - (2 ^ 31) \<le> n \<and> n < 2 ^ 31"

definition atoi :: "string \<Rightarrow> i32 option" where
  "atoi s =
     (let t = dropWhile is_space s;
          (negative, ds) = (case t of
             [] \<Rightarrow> (False, [])
           | c # cs \<Rightarrow> if c = CHR ''-'' then (True, cs) else if c = CHR ''+'' then (False, cs) else (False, c # cs));
          n = digits_value (takeWhile is_digit ds);
          v = (if negative then - n else n)
      in if fits_int v then Some (word_of_int v) else None)"

section \<open>Listening\<close>

text \<open>
  The outcomes of the calls of \<open>start_server\<close>: the new socket, whether \<open>setsockopt\<close>, \<open>bind\<close>
  to a port and \<open>listen\<close> succeed. The port of an address has 16 bits, \<open>htons\<close> cuts it.
\<close>

record listen_calls =
  new_socket :: int
  reuse_set :: bool
  port_free :: "16 word \<Rightarrow> bool"
  listening :: bool

definition sin_port :: "i32 \<Rightarrow> 16 word" where
  "sin_port port = ucast port"

text \<open>The listening socket, or \<open>None\<close> when the process exits. A failing \<open>setsockopt\<close> is reported only.\<close>

definition start_server :: "i32 \<Rightarrow> listen_calls \<Rightarrow> int option" where
  "start_server port k =
     (if new_socket k = -1 then None
      else if \<not> port_free k (sin_port port) then None
      else if \<not> listening k then None
      else Some (new_socket k))"

section \<open>Opening the database\<close>

text \<open>
  The allocation, and what \<open>sqlite3_open\<close> finds under a name. The pragma that switches the
  foreign keys on is taken to succeed, as the code does.
\<close>

definition db_connect :: "bool \<Rightarrow> (string \<Rightarrow> db option) \<Rightarrow> string \<Rightarrow> db option" where
  "db_connect allocated open_db conninfo = (if \<not> allocated then None else open_db conninfo)"

section \<open>The server's main function\<close>

datatype 'a process = Exit_failure | Undefined | Running 'a

record server_world =
  sw_allocated :: bool
  sw_files :: "string \<Rightarrow> db option"
  sw_listen :: listen_calls

definition server_main :: "string list \<Rightarrow> server_world \<Rightarrow> loop process" where
  "server_main argv w =
     (case (if 2 \<le> length argv then atoi (argv ! 1) else Some 4242) of
        None \<Rightarrow> Undefined
      | Some port \<Rightarrow>
          if length argv < 3 then Exit_failure
          else case db_connect (sw_allocated w) (sw_files w) (argv ! 2) of
            None \<Rightarrow> Exit_failure
          | Some db \<Rightarrow>
              (case start_server port (sw_listen w) of
                 None \<Rightarrow> Exit_failure
               | Some fd \<Rightarrow> Running (start_loop (init_server_context fd db))))"

section \<open>The client's main function\<close>

text \<open>What connecting to an address and a port comes to is an argument.\<close>

definition client_main :: "string list \<Rightarrow> (string \<Rightarrow> 16 word \<Rightarrow> connect_event) \<Rightarrow> ui process" where
  "client_main argv connect =
     (if length argv < 3 then Exit_failure
      else case atoi (argv ! 2) of
        None \<Rightarrow> Undefined
      | Some port \<Rightarrow>
          let u = connect_to_server (connect (argv ! 1) (sin_port port)) (initial_ui (-1))
          in if client_socket u < 0 then Exit_failure else Running u)"

section \<open>Started programs\<close>

text \<open>A started server is in the start state of its runs, a started client in that of its own.\<close>

lemma server_main_reach:
  "server_main argv w = Running l \<Longrightarrow> \<exists>db. sw_files w (argv ! 2) = Some db \<and> reach e (new_socket (sw_listen w)) db l"
  by (auto simp: server_main_def db_connect_def start_server_def intro: reach.start split: option.splits if_splits)

lemma client_main_reach:
  "client_main argv connect = Running u \<Longrightarrow> \<exists>fd. 0 \<le> fd \<and> u = initial_ui fd"
proof -
  assume run: "client_main argv connect = Running u"
  then obtain port where u: "u = connect_to_server (connect (argv ! 1) (sin_port port)) (initial_ui (-1))"
    and fd: "0 \<le> client_socket u"
    by (auto simp: client_main_def Let_def split: option.splits if_splits)
  then show ?thesis
    by (cases "connect (argv ! 1) (sin_port port)") (auto simp: initial_ui_def)
qed

section \<open>The port\<close>

lemma digit_char:
  assumes "m < 10"
  shows "(of_char (char_of (48 + m) :: char) :: int) = 48 + int m" and "is_digit (char_of (48 + m))"
proof -
  have nat: "(of_char (char_of (48 + m) :: char) :: nat) = 48 + m" using assms by simp
  with assms show "is_digit (char_of (48 + m))" unfolding is_digit_def by (simp only: nat) simp
  have "(of_char (char_of (48 + m) :: char) :: int) = int (of_char (char_of (48 + m) :: char))" by (rule of_nat_of_char [symmetric])
  then show "(of_char (char_of (48 + m) :: char) :: int) = 48 + int m" by (simp only: nat of_nat_add of_nat_numeral)
qed

lemma digits_value_digits: "digits_value (digits n) = int n"
proof (induction n rule: digits.induct)
  case (1 n)
  show ?case
  proof (cases "n < 10")
    case True
    then show ?thesis by (simp add: digits.simps [of n] digits_value_def digit_char)
  next
    case False
    have "digits_value (digits n) = 10 * digits_value (digits (n div 10)) + (of_char (char_of (48 + n mod 10) :: char) - 48)"
      using False by (simp add: digits.simps [of n] digits_value_def)
    also have "\<dots> = 10 * int (n div 10) + int (n mod 10)" using "1.IH" [OF False] digit_char(1) [of "n mod 10"] by simp
    finally show ?thesis by (simp add: zdiv_int zmod_int)
  qed
qed

lemma digits_are_digits: "\<forall>c \<in> set (digits n). is_digit c"
proof (induction n rule: digits.induct)
  case (1 n)
  then show ?case by (cases "n < 10") (simp_all add: digits.simps [of n] digit_char(2))
qed

lemma digits_not_Nil: "digits n \<noteq> []"
  by (simp add: digits.simps [of n])

lemma digit_no_blank: "is_digit c \<Longrightarrow> \<not> is_space c \<and> c \<noteq> CHR ''-'' \<and> c \<noteq> CHR ''+''"
  by (auto simp: is_digit_def is_space_def)

lemma atoi_decimal:
  assumes "fits_int i"
  shows "atoi (decimal i) = Some (word_of_int i)"
proof -
  have all: "takeWhile is_digit (digits n) = digits n" for n
    by (rule takeWhile_eq_all_conv [THEN iffD2]) (rule digits_are_digits)
  show ?thesis
  proof (cases "i < 0")
    case True
    with assms show ?thesis
      by (simp add: atoi_def decimal_def is_space_def all digits_value_digits)
  next
    case False
    obtain c cs where ds: "digits (nat i) = c # cs" using digits_not_Nil by (cases "digits (nat i)") auto
    then have "is_digit c" using digits_are_digits [of "nat i"] by simp
    with digit_no_blank [of c] have "dropWhile is_space (digits (nat i)) = digits (nat i)" "c \<noteq> CHR ''-''" "c \<noteq> CHR ''+''"
      using ds by auto
    moreover have "digits_value (takeWhile is_digit (c # cs)) = i" using all [of "nat i"] digits_value_digits [of "nat i"] False ds by simp
    ultimately show ?thesis using assms False ds by (simp add: atoi_def decimal_def)
  qed
qed

text \<open>
  C40: A server and a client that are started with the same number \<open>i\<close> for a port meet at
  port \<open>i mod 65536\<close>: the client is running exactly when connecting to that port succeeds,
  and the server exactly when its database opens and that port can be listened on. A number
  outside the 16 bits of a port is not refused.
\<close>

theorem port_argument_meets:
  assumes "fits_int i"
  shows "((\<exists>u. client_main [prog, addr, decimal i] connect = Running u) \<longleftrightarrow>
      (\<exists>fd. 0 \<le> fd \<and> connect addr (word_of_int (i mod 65536)) = Connected fd)) \<and>
    ((\<exists>l. server_main [prog, decimal i, conninfo] w = Running l) \<longleftrightarrow>
      sw_allocated w \<and> sw_files w conninfo \<noteq> None \<and> new_socket (sw_listen w) \<noteq> -1 \<and>
      port_free (sw_listen w) (word_of_int (i mod 65536)) \<and> listening (sw_listen w))"
proof
  have port: "sin_port (word_of_int i) = word_of_int (i mod 65536)"
    unfolding sin_port_def by transfer (simp add: take_bit_eq_mod mod_mod_cancel)
  show "(\<exists>u. client_main [prog, addr, decimal i] connect = Running u) \<longleftrightarrow>
      (\<exists>fd. 0 \<le> fd \<and> connect addr (word_of_int (i mod 65536)) = Connected fd)"
    by (cases "connect addr (word_of_int (i mod 65536))")
      (auto simp: client_main_def atoi_decimal [OF assms] port Let_def initial_ui_def)
  show "(\<exists>l. server_main [prog, decimal i, conninfo] w = Running l) \<longleftrightarrow>
      sw_allocated w \<and> sw_files w conninfo \<noteq> None \<and> new_socket (sw_listen w) \<noteq> -1 \<and>
      port_free (sw_listen w) (word_of_int (i mod 65536)) \<and> listening (sw_listen w)"
    by (auto simp: server_main_def atoi_decimal [OF assms] port db_connect_def start_server_def split: option.split)
qed

text \<open>An instance: 70000 is port 4464.\<close>

lemma port_argument_meets_witness:
  "\<exists>u. client_main [''client'', ''host'', decimal 70000] (\<lambda>addr p. if p = 4464 then Connected 3 else Connect_fails) = Running u"
  using port_argument_meets [of 70000 "''client''" "''host''" "\<lambda>addr p. if p = 4464 then Connected 3 else Connect_fails"]
  by (simp add: fits_int_def)

end
