(* ===== verification/CommandLine.thy ===== *)
theory CommandLine
  imports EndToEnd
begin

text \<open>
  What the command line does beyond the client: a profile status from the line to the
  database and to the lists of the other users; and what the line keeps between two uses.
\<close>

section \<open>Typing a command\<close>

text \<open>The line holds \<open>s\<close>, and the length kept with it is that of \<open>s\<close>.\<close>

definition holds_line :: "string \<Rightarrow> ui \<Rightarrow> bool" where
  "holds_line s u \<longleftrightarrow> current_screen u = SCREEN_COMMAND \<and> length (cmd_input u) = MAX_MSG_LEN \<and>
     cmd_input_len u = length s \<and> take (length s) (cmd_input u) = s \<and> cmd_input u ! length s = CHR 0x00 \<and> nul_free s"

lemma cstr_line:
  assumes "holds_line s u" and "length s < MAX_MSG_LEN"
  shows "cstr (cmd_input u) = s"
proof -
  have n: "length s < length (cmd_input u)" "take (length s) (cmd_input u) = s" "cmd_input u ! length s = CHR 0x00"
      "\<And>c. c \<in> set s \<Longrightarrow> c \<noteq> CHR 0x00"
    using assms by (auto simp: holds_line_def nul_free_def)
  from id_take_nth_drop [OF n(1)] have "cstr (cmd_input u) = cstr (s @ CHR 0x00 # drop (Suc (length s)) (cmd_input u))"
    by (simp only: n(2,3))
  also have "\<dots> = s" unfolding cstr_def by (subst takeWhile_append2) (use n(4) in simp_all)
  finally show ?thesis .
qed

definition key_of :: "char \<Rightarrow> key" where
  "key_of c = Key_char (of_char c)"

definition edited :: "string \<Rightarrow> nat \<Rightarrow> ui \<Rightarrow> ui" where
  "edited buf n u = u\<lparr>cmd_input := buf, cmd_input_len := n, command_status_msg := [], show_help := False\<rparr>"

lemma edited_edited [simp]: "edited buf n (edited buf' n' u) = edited buf n u"
  by (simp add: edited_def)

lemma type_command_char:
  assumes "holds_line s u" and "Suc (length s) < MAX_MSG_LEN" and "32 \<le> (of_char c :: nat)" and "(of_char c :: nat) < 127"
  shows "\<exists>buf. handle_key env (key_of c) u = Inr (edited buf (Suc (length s)) u) \<and>
    holds_line (s @ [c]) (edited buf (Suc (length s)) u)"
proof -
  let ?n = "length s"
  let ?buf = "(cmd_input u)[?n := c, Suc ?n := CHR 0x00]"
  have u: "current_screen u = SCREEN_COMMAND" "length (cmd_input u) = MAX_MSG_LEN" "cmd_input_len u = ?n"
      "take ?n (cmd_input u) = s" "nul_free s"
    using assms(1) by (simp_all add: holds_line_def)
  have key: "\<not> is_escape (key_of c)" "\<not> is_return (key_of c)" "\<not> is_erase (key_of c)" "printable (key_of c) = Some c"
    using assms(3,4) by (simp_all add: key_of_def key_defs)
  have "c \<noteq> CHR 0x00" using assms(3) by auto
  have "handle_key env (key_of c) u = Inr (edited ?buf (Suc ?n) u)"
    using assms(2) u(1,3) by (simp add: handle_key_def handle_command_input_def key edited_def)
  moreover have "take (Suc ?n) ?buf = s @ [c]"
    using assms(2) u(2,4) by (simp add: take_Suc_conv_app_nth)
  then have "holds_line (s @ [c]) (edited ?buf (Suc ?n) u)"
    using assms(2) u(1,2,5) \<open>c \<noteq> CHR 0x00\<close> by (simp add: holds_line_def nul_free_def edited_def)
  ultimately show ?thesis by blast
qed

text \<open>A text typed key by key ends up in the line.\<close>

lemma type_command:
  "holds_line s u \<Longrightarrow> length s + length t < MAX_MSG_LEN \<Longrightarrow> \<forall>c \<in> set t. 32 \<le> (of_char c :: nat) \<and> (of_char c :: nat) < 127 \<Longrightarrow>
   t \<noteq> [] \<Longrightarrow> \<exists>buf. ui_run (map (\<lambda>c. (env, Key_pressed (key_of c))) t) u = Inr (edited buf (length (s @ t)) u) \<and>
     holds_line (s @ t) (edited buf (length (s @ t)) u)"
proof (induction t arbitrary: s u)
  case (Cons c t)
  then obtain buf where u1: "handle_key env (key_of c) u = Inr (edited buf (Suc (length s)) u)"
      "holds_line (s @ [c]) (edited buf (Suc (length s)) u)"
    using type_command_char [of s u c env] by auto
  show ?case
  proof (cases "t = []")
    case False
    with Cons.IH [OF u1(2)] Cons.prems obtain buf' where
        "ui_run (map (\<lambda>c. (env, Key_pressed (key_of c))) t) (edited buf (Suc (length s)) u) =
          Inr (edited buf' (length ((s @ [c]) @ t)) u)"
        "holds_line ((s @ [c]) @ t) (edited buf' (length ((s @ [c]) @ t)) u)" by auto
    with u1(1) show ?thesis by (intro exI [of _ buf']) simp
  qed (use u1 in auto)
qed simp

text \<open>The command line of a user who has just logged in.\<close>

definition command_run :: "(env \<times> ui_event) list" where
  "command_run = map (Pair sample_env) [Packet_arrived login_ok, Key_pressed (Key_f 1)]"

lemma command_run_result:
  "\<exists>u. ui_run command_run (initial_ui 3) = Inr u \<and> holds_line ''/'' u \<and> previous_screen u = SCREEN_SERVERS \<and>
     client_socket u = 3"
  by (simp add: command_run_def login_ok_def process_network_packet_def zero_packet_def zero_auth_def
      ui_handle_auth_response_def auth_success_def initial_ui_def set_at_def handle_key_def handle_server_input_def
      open_command_def holds_line_def nul_free_def key_defs request_defs submit_eq take_Suc_conv_app_nth)

lemma typed_command:
  assumes "length t < MAX_MSG_LEN - 1" and "\<forall>c \<in> set t. 32 \<le> (of_char c :: nat) \<and> (of_char c :: nat) < 127" and "t \<noteq> []"
  shows "\<exists>u. ui_reach 3 u \<and> holds_line (CHR ''/'' # t) u \<and> previous_screen u = SCREEN_SERVERS \<and> client_socket u = 3"
proof -
  obtain u where u: "ui_run command_run (initial_ui 3) = Inr u" "holds_line ''/'' u" "previous_screen u = SCREEN_SERVERS"
      "client_socket u = 3"
    using command_run_result by blast
  obtain buf where b: "ui_run (map (\<lambda>c. (sample_env, Key_pressed (key_of c))) t) u = Inr (edited buf (length (''/'' @ t)) u)"
      "holds_line (''/'' @ t) (edited buf (length (''/'' @ t)) u)"
    using type_command [OF u(2) _ assms(2,3), of sample_env] assms(1) by auto
  have "ui_reach 3 (edited buf (length (''/'' @ t)) u)"
    by (rule ui_run_reach [OF ui_run_reach [OF ui_reach.start u(1)] b(1)])
  with b(2) u(3,4) show ?thesis by (auto simp: edited_def)
qed

section \<open>Setting the status\<close>

lemma run_setstatus:
  "run_command env (''/setstatus '' @ t) u = Inr (False, status_command env (status_text (''/setstatus '' @ t)) u)"
  by (simp add: run_command_def)

lemma status_sent:
  assumes "current_screen u = SCREEN_COMMAND" and "cstr (cmd_input u) = ''/setstatus '' @ t"
    and "st = status_text (''/setstatus '' @ t)" and "st \<noteq> []" and "length st \<le> 64" and "0 \<le> client_socket u"
  shows "\<exists>u'. handle_key env Key_enter u = Inr u' \<and>
    requests u' = requests u @ [(client_socket u, social_request env SOCIAL_UPDATE_STATUS [] st)]"
  using assms run_setstatus [of env t u]
  by (simp add: handle_key_def handle_command_input_def key_defs status_command_def status_msg_def request_defs submit_eq)

lemma status_clean:
  assumes "cstr buf = ''/setstatus '' @ t"
  shows "nul_free (status_text (''/setstatus '' @ t))"
  using nul_free_cstr [of buf] unfolding assms status_text_def by (intro nul_free_strip nul_free_parts)

lemma fold_posts:
  "fold (\<lambda>c s. if socket_fd c \<le> 0 \<or> \<not> is_authenticated c then s else post env (socket_fd c) q s) cs s =
   s\<lparr>out := out s @ map (\<lambda>c. (socket_fd c, q)) (filter (\<lambda>c. 0 < socket_fd c \<and> is_authenticated c) cs)\<rparr>"
  by (induction cs arbitrary: s) (auto simp: post_def send_to_def not_le)

text \<open>The payload of the notification.\<close>

definition status_note :: "i64 \<Rightarrow> string \<Rightarrow> string \<Rightarrow> social_payload" where
  "status_note user_id name st = zero_social\<lparr>soc_action := social_code SOCIAL_UPDATE_STATUS,
     soc_status_code := resp RESP_OK, soc_presence := presence_code STATUS_ONLINE, soc_target := user_id,
     soc_username := strncpy0 (MAX_NAME_LEN - 1) name, soc_status_text := strncpy0 PROFILE_STATUS_LEN st\<rparr>"

lemma notify_status:
  "client_online (clients s) u \<Longrightarrow> notify_user_status_update env u name st s = s\<lparr>out := out s @
     map (\<lambda>c. (socket_fd c, social_packet env (status_note u name st)))
       (filter (\<lambda>c. 0 < socket_fd c \<and> is_authenticated c) (clients s))\<rparr>"
  unfolding notify_user_status_update_def for_logged_in_def send_status_update_packet_def Let_def fold_posts
  by (simp add: status_note_def)

lemma server_sets_status:
  assumes "srv_inv s" and "i < length (clients s)" and "is_authenticated (clients s ! i)" and "write_ok env' UPDATE_STATUS"
    and "st \<noteq> []" and "length st \<le> 64"
  shows "process_client_packet env' i (social_request env SOCIAL_UPDATE_STATUS [] st) s =
    s\<lparr>database := (database s)\<lparr>users := map (\<lambda>u. if u_id u = cid (clients s ! i) then u\<lparr>u_status := st\<rparr> else u)
        (users (database s))\<rparr>,
      out := out s @ map (\<lambda>c. (socket_fd c, social_packet env' (status_note (cid (clients s ! i)) (username (clients s ! i)) st)))
        (filter (\<lambda>c. 0 < socket_fd c \<and> is_authenticated c) (clients s))\<rparr>"
proof -
  let ?c = "clients s ! i"
  have ok: "clients_ok (set (accounts (database s))) (clients s)" using assms(1) by (simp add: srv_inv_def)
  have c: "?c \<in> set (clients s)" using assms(2) by simp
  then have id: "cid ?c \<in> set (map u_id (users (database s)))"
    using client_okD(3) [OF ok c assms(3)] by (auto simp: accounts_def)
  have on: "client_online (clients s) (cid ?c)"
    using client_okD(2) [OF ok c assms(3)] c assms(3) by (auto simp: client_online_def list_ex_iff)
  show ?thesis
    using assms(3-6) id on socialE.enum_of_code [of SOCIAL_UPDATE_STATUS]
    by (simp add: process_client_packet_def social_request_def base_request_def handle_social_packet_def update_status_def
        db_update_user_status_def notify_status Let_def del: social_code.simps)
qed

lemma upd_first_here:
  "k < length xs \<Longrightarrow> P (xs ! k) \<Longrightarrow> \<forall>m < k. \<not> P (xs ! m) \<Longrightarrow> upd_first P f xs ! k = f (xs ! k)"
proof (induction xs arbitrary: k)
  case (Cons x xs)
  show ?case
  proof (cases k)
    case (Suc k')
    with Cons.prems have "\<not> P x" "\<forall>m < k'. \<not> P (xs ! m)" by auto
    with Cons Suc show ?thesis by simp
  qed (use Cons.prems in simp)
qed simp

lemma client_shows_status:
  assumes "ui_inv w" and "k < all_user_count w" and "al_id (all_users w ! k) = user_id"
    and "\<forall>m < k. al_id (all_users w ! m) \<noteq> user_id" and "length st \<le> 64"
  shows "\<exists>w'. process_network_packet env (social_packet env' (status_note user_id name st)) w = Inr w' \<and>
    al_status (all_users w' ! k) = st \<and> al_online (all_users w' ! k) = 1"
proof -
  let ?v = "status_note user_id name st"
  let ?us = "set_profile ?v (take (all_user_count w) (all_users w)) @ drop (all_user_count w) (all_users w)"
  have len: "all_user_count w \<le> length (all_users w)" using assms(1) by (simp add: ui_inv_def list_ok_def)
  have "?us ! k = (all_users w ! k)\<lparr>al_status := st, al_online := 1\<rparr>"
    using assms(2-5) len upd_first_here [of k "take (all_user_count w) (all_users w)" "\<lambda>x. al_id x = user_id"]
    by (simp add: set_profile_def nth_append length_upd_first status_note_def)
  then show ?thesis
    using ui_inv_bounds [OF assms(1)] socialE.enum_of_code [of SOCIAL_UPDATE_STATUS]
    by (auto simp: process_network_packet_def social_packet_def status_note_def status_packet_def command_done_def
        close_command_def clear_command_def request_defs submit_eq Let_def simp del: social_code.simps)
qed

text \<open>
  C18: \<open>/setstatus\<close> sets the status everywhere: the blanks around the text are cut off, one
  packet goes out and arrives as it was sent, the server stores the text in the row of the
  account the connection is logged in as and in no other, and tells every logged-in client,
  which then shows the account with that text and as online, when it is in its list.
\<close>

theorem status_end_to_end:
  assumes "ui_reach cfd u" and "current_screen u = SCREEN_COMMAND" and "cstr (cmd_input u) = ''/setstatus '' @ t"
    and "st = status_text (''/setstatus '' @ t)" and "st \<noteq> []" and "length st \<le> 64" and "0 \<le> client_socket u"
    and "srv_inv s" and "i < length (clients s)" and "is_authenticated (clients s ! i)" and "write_ok env' UPDATE_STATUS"
    and "ui_inv w" and "k < all_user_count w" and "al_id (all_users w ! k) = cid (clients s ! i)"
    and "\<forall>m < k. al_id (all_users w ! m) \<noteq> cid (clients s ! i)"
  shows "\<exists>u' p s' q w'. handle_key env Key_enter u = Inr u' \<and> requests u' = requests u @ [(client_socket u, p)] \<and>
    unwire se (wire ce p) = Some p \<and> process_client_packet env' i p s = s' \<and>
    users (database s') = map (\<lambda>r. if u_id r = cid (clients s ! i) then r\<lparr>u_status := st\<rparr> else r) (users (database s)) \<and>
    out s' = out s @ map (\<lambda>c. (socket_fd c, q)) (filter is_authenticated (clients s)) \<and>
    process_network_packet env'' q w = Inr w' \<and>
    al_status (all_users w' ! k) = st \<and> al_online (all_users w' ! k) = 1"
proof -
  let ?p = "social_request env SOCIAL_UPDATE_STATUS [] st"
  obtain u' where u': "handle_key env Key_enter u = Inr u'" "requests u' = requests u @ [(client_socket u, ?p)]"
    using status_sent [OF assms(2-7)] by blast
  have "sendable ?p" using status_clean [OF assms(3)] assms(4) by (simp add: sendable_requests)
  note p = unwire_wire_other [OF this]
  have "filter (\<lambda>c. 0 < socket_fd c \<and> is_authenticated c) (clients s) = filter is_authenticated (clients s)"
    using assms(8) client_okD(2) by (intro filter_cong) (auto simp: srv_inv_def)
  note server = server_sets_status [OF assms(8-11,5,6), of env, unfolded this]
  from client_shows_status [OF assms(12-15,6)] u' p server show ?thesis by fastforce
qed

theorem status_end_to_end_witness:
  "\<exists>u u' p s'. ui_reach 3 u \<and> handle_key sample_env Key_enter u = Inr u' \<and> requests u' = requests u @ [(3, p)] \<and>
    process_client_packet sample_env 0 p two_logins = s' \<and> map u_status (users (database s')) = [''away'', []]"
proof -
  obtain u where u: "ui_reach 3 u" "holds_line ''/setstatus  away '' u" "client_socket u = 3"
    using typed_command [of "''setstatus  away ''"] by auto
  then have c: "current_screen u = SCREEN_COMMAND" "cstr (cmd_input u) = ''/setstatus '' @ '' away ''"
    using cstr_line [OF u(2)] by (simp_all add: holds_line_def)
  have st: "''away'' = status_text (''/setstatus '' @ '' away '')" by (simp add: status_text_def strip_spaces.simps)
  let ?w = "in_channel\<lparr>all_user_count := 1, all_users := (all_users in_channel)[0 :=
    \<lparr>al_id = 1, al_name = ''ann'', al_status = [], al_online = 0\<rparr>]\<rparr>"
  have inv: "ui_inv in_channel" using in_channel_open by (simp add: channel_open_def connected_def)
  then have w: "ui_inv ?w" "0 < all_user_count ?w" "al_id (all_users ?w ! 0) = 1"
    by (simp_all add: ui_inv_def list_ok_def)
  have s: "0 < length (clients two_logins)" "is_authenticated (clients two_logins ! 0)" "cid (clients two_logins ! 0) = 1"
      "users (database two_logins) = users sample_db" "write_ok sample_env UPDATE_STATUS"
    by (simp_all add: two_logins_def sample_srv_def write_ok_def sample_env_def)
  obtain u' p s' where r: "handle_key sample_env Key_enter u = Inr u'" "requests u' = requests u @ [(3, p)]"
      "process_client_packet sample_env 0 p two_logins = s'" "users (database s') =
        map (\<lambda>r. if u_id r = cid (clients two_logins ! 0) then r\<lparr>u_status := ''away''\<rparr> else r) (users (database two_logins))"
    using status_end_to_end [OF u(1) c st _ _ _ two_logins_inv s(1,2,5) w(1,2), of sample_env Little Big sample_env] u(3) w(3) s(3)
    by auto
  then have "map u_status (users (database s')) = [''away'', []]" by (simp add: s sample_defs)
  with r u(1) show ?thesis by (intro exI [of _ u] exI [of _ u'] exI [of _ p] exI [of _ s'] conjI)
qed

section \<open>A command line that is opened again\<close>

text \<open>
  C15: A command that closes its window stays in the line. Closing overwrites the first byte
  only, and F1, on the screen the window was opened from, puts the slash back: the line is
  the whole old command again, while the length kept with it is 1. ENTER then runs the
  old command a second time.
\<close>

theorem reopened_command_repeats:
  assumes "ui_inv u" and "holds_line (CHR ''/'' # cmd) u" and "Suc (length cmd) < MAX_MSG_LEN"
    and "run_command env (CHR ''/'' # cmd) u = Inr (True, u1)"
    and "previous_screen u \<in> {SCREEN_SERVERS, SCREEN_FRIENDS, SCREEN_USERS}"
  shows "\<exists>u2 u3. handle_key env Key_enter u = Inr u2 \<and> current_screen u2 = previous_screen u \<and>
    handle_key env (Key_f 1) u2 = Inr u3 \<and> cmd_input_len u3 = 1 \<and>
    handle_key env' Key_enter u3 =
      and_then (run_command env' (CHR ''/'' # cmd) u3) (\<lambda>(should_close, u4).
        Inr (if should_close then (close_command u4)\<lparr>command_status_msg := [], show_help := False\<rparr> else u4))"
proof -
  let ?u2 = "(close_command u1)\<lparr>command_status_msg := [], show_help := False\<rparr>"
  have c: "cstr (cmd_input u) = CHR ''/'' # cmd" by (rule cstr_line [OF assms(2)]) (use assms(3) in simp)
  have kept: "command_kept u u1"
    using kept_run_command [OF assms(1), of env "CHR ''/'' # cmd"] by (simp add: assms(4))
  have enter: "handle_key e Key_enter v = and_then (run_command e (cstr (cmd_input v)) v) (\<lambda>(should_close, u4).
      Inr (if should_close then (close_command u4)\<lparr>command_status_msg := [], show_help := False\<rparr> else u4))"
    if "current_screen v = SCREEN_COMMAND" for e v
    using that by (simp add: handle_key_def handle_command_input_def key_defs)
  have 1: "handle_key env Key_enter u = Inr ?u2" "current_screen ?u2 = previous_screen u"
    using kept enter [of u env] assms(2,4)
    by (simp_all add: holds_line_def c command_kept_def close_command_def clear_command_def)
  then have 2: "handle_key env (Key_f 1) ?u2 = Inr (open_command ?u2)"
    using assms(5) by (auto simp: handle_key_def handle_server_input_def handle_friends_input_def handle_users_input_def)
  obtain x r where r: "cmd_input u = x # r" using assms(2) by (cases "cmd_input u") (auto simp: holds_line_def)
  then have "x = CHR ''/''" using assms(2) by (simp add: holds_line_def)
  with r kept have "cmd_input (open_command ?u2) = cmd_input u"
    by (simp add: open_command_def close_command_def clear_command_def command_kept_def)
  then have "handle_key env' Key_enter (open_command ?u2) =
      and_then (run_command env' (CHR ''/'' # cmd) (open_command ?u2)) (\<lambda>(should_close, u4).
        Inr (if should_close then (close_command u4)\<lparr>command_status_msg := [], show_help := False\<rparr> else u4))"
    using enter [of "open_command ?u2" env'] c by (simp add: open_command_def)
  moreover have "cmd_input_len (open_command ?u2) = 1" by (simp add: open_command_def)
  ultimately show ?thesis
    by (intro exI [of _ ?u2] exI [of _ "open_command ?u2"] conjI 1 2)
qed

theorem reopened_command_repeats_witness:
  "\<exists>u u2 u3. ui_reach 3 u \<and> holds_line ''/friend bob'' u \<and> handle_key sample_env Key_enter u = Inr u2 \<and>
    current_screen u2 = SCREEN_SERVERS \<and> handle_key sample_env (Key_f 1) u2 = Inr u3 \<and> cmd_input_len u3 = 1"
proof -
  obtain u where u: "ui_reach 3 u" "holds_line ''/friend bob'' u" "previous_screen u = SCREEN_SERVERS"
    using typed_command [of "''friend bob''"] by auto
  have "run_command sample_env ''/friend bob'' u =
      Inr (True, friend_command sample_env send_friend_request (argument 8 ''/friend bob'') u)"
    by (simp add: run_command_def)
  from reopened_command_repeats [OF reach_inv_ui [OF u(1)] u(2) _ this] u show ?thesis by fastforce
qed

end
