(* ===== verification/TableViews.thy ===== *)
theory TableViews
  imports ListViews
begin

text \<open>
  What the client shows of a list that the server sends with \<open>send_list_response\<close>: servers,
  and the channels and members of a server. Here the items themselves carry the frame, START
  or SINGLE on the first, and a list without items is one packet with total 0. The interface
  \<open>table_view\<close> says what such packets do to a place; its lemma \<open>filled\<close> that the place then
  holds the first items is proved once.
\<close>

section \<open>A place filled by a table\<close>

locale table_view =
  fixes view :: "ui \<Rightarrow> 'v list" and ok :: "ui \<Rightarrow> bool" and relevant :: "packet \<Rightarrow> bool"
    and shown :: "packet \<Rightarrow> 'v" and room :: nat
  assumes online: "ok u \<Longrightarrow> client_socket u \<noteq> -1"
    and item: "ok u \<Longrightarrow> relevant p \<Longrightarrow> 0 <s list_total p \<Longrightarrow>
      \<exists>u'. process_network_packet env p u = Inr u' \<and> ok u' \<and>
        view u' = (let vs = (if starts_list p then [] else view u) in if length vs < room then vs @ [shown p] else vs)"
    and empty: "ok u \<Longrightarrow> relevant p \<Longrightarrow> starts_list p \<Longrightarrow> list_total p = 0 \<Longrightarrow>
      \<exists>u'. process_network_packet env p u = Inr u' \<and> ok u' \<and> view u' = []"
begin

lemma items:
  "ok u \<Longrightarrow> length (view u) \<le> room \<Longrightarrow>
   \<forall>p \<in> set ps. relevant p \<and> 0 <s list_total p \<and> \<not> starts_list p \<Longrightarrow>
   \<exists>u'. ui_run (arrivals env ps) u = Inr u' \<and> ok u' \<and> view u' = view u @ take (room - length (view u)) (map shown ps)"
proof (induction ps arbitrary: u)
  case Nil
  then show ?case by simp
next
  case (Cons p ps)
  then obtain u1 where u1: "process_network_packet env p u = Inr u1" "ok u1"
      "view u1 = (if length (view u) < room then view u @ [shown p] else view u)"
    using item [of u p env] by auto
  with Cons.prems(2) have "length (view u1) \<le> room" by simp
  from Cons.IH [OF u1(2) this] Cons.prems(3) obtain u2 where u2: "ui_run (arrivals env ps) u1 = Inr u2" "ok u2"
      "view u2 = view u1 @ take (room - length (view u1)) (map shown ps)" by auto
  then have "view u2 = view u @ take (room - length (view u)) (map shown (p # ps))"
    using u1(3) by (auto simp: take_Cons' not_less)
  with u1(1) u2(1,2) online [OF Cons.prems(1)] show ?case by auto
qed

lemma filled:
  assumes "ok u" and "0 < room" and "\<forall>p \<in> set (p # ps). relevant p \<and> 0 <s list_total p"
    and "starts_list p" and "\<forall>p \<in> set ps. \<not> starts_list p"
  shows "\<exists>u'. ui_run (arrivals env (p # ps)) u = Inr u' \<and> ok u' \<and> view u' = take room (map shown (p # ps))"
proof -
  obtain u1 where u1: "process_network_packet env p u = Inr u1" "ok u1" "view u1 = [shown p]"
    using item [of u p env] assms by auto
  with assms(2) obtain u2 where "ui_run (arrivals env ps) u1 = Inr u2" "ok u2"
      "view u2 = view u1 @ take (room - length (view u1)) (map shown ps)"
    using items [OF u1(2), of ps env] assms(3,5) by auto
  with u1 assms(2) online [OF assms(1)] show ?thesis by (simp add: take_Cons')
qed

end

section \<open>The packets of a table\<close>

definition server_item_of :: "server_action \<Rightarrow> i32 \<Rightarrow> nat \<Rightarrow> nat \<Rightarrow> entry \<Rightarrow> packet" where
  "server_item_of a lid n i x = (case x of (name, ident, cnt) \<Rightarrow>
     list_packet lid (of_nat i) (of_nat n) (frame_of n i)
       (the (item_payload (packet_kind_code PACKET_SERVER) (server_code a) name ident cnt)))"

lemma server_item_fields:
  "list_total (server_item_of a lid n i x) = of_nat n" "list_frame (server_item_of a lid n i x) = frame_code (frame_of n i)"
  "payload (server_item_of a lid n i (name, ident, cnt)) = Server (zero_server\<lparr>srv_action := server_code a,
     srv_status := resp RESP_OK, srv_server_id := (case ident of None \<Rightarrow> 0 | Some i \<Rightarrow> i),
     srv_member_count := (case cnt of None \<Rightarrow> 0 | Some c \<Rightarrow> c), srv_name := strncpy0 (MAX_NAME_LEN - 1) name\<rparr>)"
  by (simp_all add: server_item_of_def list_packet_def plain_packet_def item_payload_def Let_def split: prod.split)

lemma starts_item: "i < n \<Longrightarrow> starts_list (server_item_of a lid n i x) \<longleftrightarrow> i = 0"
  by (auto simp: starts_list_def server_item_fields frame_of_def)

definition table_packets :: "server_action \<Rightarrow> i32 \<Rightarrow> entry list \<Rightarrow> packet list" where
  "table_packets a lid items =
     (if items = [] then [list_packet lid (-1) 0 LIST_FRAME_SINGLE
         (Server (zero_server\<lparr>srv_action := server_code a, srv_status := resp RESP_DONE\<rparr>))]
      else map (\<lambda>(i, x). server_item_of a lid (length items) i x) (enumerate 0 items))"

lemma reply_table:
  assumes "\<And>log. send_ok env log (socket_fd (clients s ! i))" and "0 \<le> socket_fd (clients s ! i)"
    and "length items < 2 ^ 31"
  shows "\<exists>lid. out (reply_server_list env i a items s) = out s @ map (Pair (socket_fd (clients s ! i))) (table_packets a lid items)"
proof -
  obtain lid s1 where alloc: "allocate_list_id s = (lid, s1)" by fastforce
  then have s1: "out s1 = out s" by (auto simp: allocate_list_id_def Let_def)
  have packets: "item_packets (packet_kind_code PACKET_SERVER) (server_code a) lid (length items) 0 items =
      map (\<lambda>(i, x). server_item_of a lid (length items) i x) (enumerate 0 items)"
    by (simp add: item_packets_def server_item_of_def case_prod_unfold)
  show ?thesis
  proof (cases "items = []")
    case True
    with assms(1,2) alloc s1 show ?thesis
      by (intro exI [of _ lid]) (simp add: reply_server_list_def send_list_response_def empty_payload_def
          send_packet_to_client_def send_to_def table_packets_def)
  next
    case False
    with assms s1 alloc show ?thesis
      using send_items_sent [OF assms(1,2), of "packet_kind_code PACKET_SERVER" "server_code a" lid "length items" 0 items s1]
      by (intro exI [of _ lid]) (simp add: reply_server_list_def send_list_response_def table_packets_def packets [simplified])
  qed
qed

lemma fold_collect:
  assumes "\<And>r acc. f r acc = (if m \<le> length acc then acc else acc @ [g r])"
  shows "length acc \<le> m \<Longrightarrow> fold f rows acc = acc @ take (m - length acc) (map g rows)"
  by (induction rows arbitrary: acc) (auto simp: assms take_Cons' not_le)

context table_view
begin

text \<open>A whole reply of the server, with up to 100 items.\<close>

lemma reply:
  assumes "ok u" and "0 < room" and "length items < 100"
    and "\<And>n i x. relevant (server_item_of a lid n i x)"
    and "relevant (list_packet lid (-1) 0 LIST_FRAME_SINGLE (Server (zero_server\<lparr>srv_action := server_code a, srv_status := resp RESP_DONE\<rparr>)))"
    and "\<And>n i x. shown (server_item_of a lid n i x) = g x"
  shows "\<exists>u'. ui_run (arrivals env (table_packets a lid items)) u = Inr u' \<and> ok u' \<and> view u' = take room (map g items)"
proof (cases items)
  case Nil
  obtain u' where "process_network_packet env (list_packet lid (-1) 0 LIST_FRAME_SINGLE
      (Server (zero_server\<lparr>srv_action := server_code a, srv_status := resp RESP_DONE\<rparr>))) u = Inr u'" "ok u'" "view u' = []"
    using empty [OF assms(1,5)] by (force simp: starts_list_def list_packet_def)
  with Nil online [OF assms(1)] show ?thesis by (simp add: table_packets_def)
next
  case (Cons x xs)
  let ?n = "length items"
  let ?pk = "\<lambda>(i, x). server_item_of a lid ?n i x"
  have total: "0 <s (of_nat ?n :: i32)"
    using assms(3) Cons by (simp add: word_sless_alt signed_of_nat signed_take_bit_int_eq_self del: of_nat_Suc)
  have split: "table_packets a lid items = ?pk (0, x) # map ?pk (enumerate 1 xs)"
    by (simp add: table_packets_def Cons)
  have rest: "\<not> starts_list q" if "q \<in> set (map ?pk (enumerate 1 xs))" for q
  proof -
    from that obtain j y where "(j, y) \<in> set (enumerate 1 xs)" "q = server_item_of a lid ?n j y" by auto
    then have "1 \<le> j" "j < ?n" using Cons by (auto simp: in_set_enumerate_eq)
    with \<open>q = _\<close> starts_item [of j ?n a lid y] show ?thesis by simp
  qed
  have "\<forall>q \<in> set (?pk (0, x) # map ?pk (enumerate 1 xs)). relevant q \<and> 0 <s list_total q"
    using assms(4) total by (auto simp: server_item_fields)
  moreover have "starts_list (?pk (0, x))" using Cons starts_item [of 0 ?n a lid x] by simp
  moreover have "map shown (?pk (0, x) # map ?pk (enumerate 1 xs)) = map g items"
    using assms(6) by (simp add: Cons case_prod_unfold comp_def map_snd_enumerate [unfolded comp_def] flip: map_map [of g snd, unfolded comp_def])
  ultimately show ?thesis
    using filled [OF assms(1,2), of "?pk (0, x)" "map ?pk (enumerate 1 xs)" env] rest unfolding split by metis
qed

end

section \<open>Servers\<close>

definition about_servers :: "packet \<Rightarrow> bool" where
  "about_servers p \<longleftrightarrow> (\<exists>v. payload p = Server v \<and>
     server_action_of (srv_action v) \<in> {Some SERVER_LIST, Some SERVER_LIST_JOINED})"

definition server_entry :: "packet \<Rightarrow> ui_server" where
  "server_entry p = (case payload p of
      Server v \<Rightarrow> zero_ui_server\<lparr>us_id := to_i32 (srv_server_id v), us_member_count := srv_member_count v,
        us_name := strncpy0 (MAX_NAME_LEN - 1) (srv_name v), us_description := ''Public Server'', us_icon := ''[]''\<rparr>
    | _ \<Rightarrow> zero_ui_server)"

definition listed_servers :: "ui \<Rightarrow> ui_server list" where
  "listed_servers u = take (server_count u) (ui_servers u)"

lemma take_Suc_update: "n < length xs \<Longrightarrow> take (Suc n) (xs[n := x]) = take n xs @ [x]"
  by (simp add: take_Suc_conv_app_nth)

lemma about_servers_run:
  assumes "connected u" and "about_servers p"
  shows "\<exists>v. payload p = Server v \<and> process_network_packet env p u = Inr (server_item p v u) \<and> connected (server_item p v u)"
proof -
  obtain v where v: "payload p = Server v" "server_action_of (srv_action v) \<in> {Some SERVER_LIST, Some SERVER_LIST_JOINED}"
    using assms(2) by (auto simp: about_servers_def)
  then have run: "process_network_packet env p u = Inr (server_item p v u)"
    by (auto simp: process_network_packet_def ui_update_server_state_def)
  have "ui_inv (server_item p v u)" using inv_packet [of u env p] assms(1) by (simp add: run connected_def)
  moreover have "client_socket (server_item p v u) = client_socket u" by (simp add: server_item_def Let_def)
  ultimately show ?thesis using v run assms(1) by (auto simp: connected_def)
qed

interpretation server_table: table_view listed_servers connected about_servers server_entry UI_MAX_SERVERS
proof
  fix u p env
  assume ok: "connected u"
  then show "client_socket u \<noteq> -1" by (simp add: connected_def)
  have b: "length (ui_servers u) = UI_MAX_SERVERS" "server_count u \<le> UI_MAX_SERVERS"
    using ok ui_inv_bounds(2,6) by (auto simp: connected_def)
  assume "about_servers p"
  from about_servers_run [OF ok this, of env] obtain v where v: "payload p = Server v"
    "process_network_packet env p u = Inr (server_item p v u)" "connected (server_item p v u)" by blast
  show "\<exists>u'. process_network_packet env p u = Inr u' \<and> connected u' \<and> listed_servers u' =
      (let vs = if starts_list p then [] else listed_servers u in if length vs < UI_MAX_SERVERS then vs @ [server_entry p] else vs)"
    if "0 <s list_total p"
    using that v b by (intro exI [of _ "server_item p v u"])
      (auto simp: server_item_def Let_def listed_servers_def server_entry_def take_Suc_update min_def)
  show "\<exists>u'. process_network_packet env p u = Inr u' \<and> connected u' \<and> listed_servers u' = []"
    if "starts_list p" "list_total p = 0"
    using that v by (intro exI [of _ "server_item p v u"]) (auto simp: server_item_def listed_servers_def)
qed

section \<open>Members\<close>

text \<open>The list of members of the open server; its length is not negative.\<close>

definition about_members :: "packet \<Rightarrow> bool" where
  "about_members p \<longleftrightarrow> (\<exists>v. payload p = Server v \<and> server_action_of (srv_action v) = Some SERVER_LIST_MEMBERS)"

definition member_entry :: "packet \<Rightarrow> ui_member" where
  "member_entry p = (case payload p of
      Server v \<Rightarrow> \<lparr>mb_name = strncpy0 (MAX_NAME_LEN - 1) (srv_name v),
        mb_admin = (srv_member_count v AND MEMBER_ADMIN \<noteq> 0), mb_online = (srv_member_count v AND MEMBER_ONLINE \<noteq> 0),
        mb_id = srv_server_id v\<rparr>
    | _ \<Rightarrow> zero_ui_member)"

abbreviation open_server :: "ui \<Rightarrow> ui_server" where
  "open_server u \<equiv> ui_servers u ! nat (active_server u)"

definition listed_members :: "ui \<Rightarrow> ui_member list" where
  "listed_members u = take (nat (sint (us_member_count (open_server u)))) (us_members (open_server u))"

definition at_server :: "ui \<Rightarrow> bool" where
  "at_server u \<longleftrightarrow> connected u \<and> in_active_server u \<and> 0 \<le>s us_member_count (open_server u)"

lemma sint_Suc:
  assumes "0 \<le> sint n" and "sint n < 16"
  shows "sint (n + 1 :: i32) = sint n + 1"
proof -
  have "n = word_of_int (sint n)" by simp
  then have "sint (n + 1) = sint (word_of_int (sint n + 1) :: i32)" by (metis of_int_1 of_int_add)
  also have "\<dots> = signed_take_bit 31 (sint n + 1)" by (simp only: signed_of_int) simp
  finally show ?thesis using assms by (simp add: signed_take_bit_int_eq_self)
qed

definition members_of :: "ui_server \<Rightarrow> ui_member list" where
  "members_of sv = take (nat (sint (us_member_count sv))) (us_members sv)"

lemma member_item_run:
  assumes "length (us_members old) = MAX_USERS" and "starts_list p \<or> 0 \<le>s us_member_count old" and "payload p = Server v"
  shows "\<exists>sv. member_item p v old = Inr sv \<and> 0 \<le>s us_member_count sv \<and>
    members_of sv = (let vs = if starts_list p then [] else members_of old in
      if 0 <s list_total p \<and> length vs < MAX_USERS then vs @ [member_entry p] else vs)"
proof -
  define n where "n = (if starts_list p then 0 else us_member_count old)"
  let ?vs = "take (nat (sint n)) (us_members old)"
  have vs: "(if starts_list p then [] else members_of old) = ?vs" by (simp add: n_def members_of_def)
  have pos: "0 \<le> sint n" using assms(2) by (auto simp: n_def word_sle_eq)
  have len: "length ?vs < MAX_USERS \<longleftrightarrow> sint n < 16" using assms(1) pos by auto
  have small: "n <s of_nat MAX_USERS \<longleftrightarrow> sint n < 16" by (simp add: word_sless_alt)
  show ?thesis
  proof (cases "0 <s list_total p \<and> sint n < 16")
    case True
    let ?sv = "old\<lparr>us_member_count := n + 1, us_members := (us_members old)[nat (sint n) := member_entry p]\<rparr>"
    have "member_item p v old = Inr ?sv"
      using True assms(1,3) pos unfolding member_item_def Let_def n_def [symmetric] small
      by (simp add: member_entry_def)
    moreover have "nat (sint n) < length (us_members old)" using True pos assms(1) by (simp add: nat_less_iff)
    moreover have "nat (sint n + 1) = Suc (nat (sint n))" using pos by simp
    ultimately show ?thesis
      using True pos sint_Suc [OF pos] unfolding Let_def vs len
      by (intro exI [of _ ?sv]) (simp add: members_of_def word_sle_eq take_Suc_update)
  next
    case False
    have "member_item p v old = Inr (old\<lparr>us_member_count := n\<rparr>)"
      using False unfolding member_item_def Let_def n_def [symmetric] small by auto
    with False pos show ?thesis
      unfolding Let_def vs len by (intro exI [of _ "old\<lparr>us_member_count := n\<rparr>"]) (auto simp: members_of_def word_sle_eq)
  qed
qed

lemma about_members_run:
  assumes "connected u" and "in_active_server u" and "about_members p"
    and "starts_list p \<or> 0 \<le>s us_member_count (open_server u)"
  shows "\<exists>u'. process_network_packet env p u = Inr u' \<and> at_server u' \<and>
    listed_members u' = (let vs = if starts_list p then [] else listed_members u in
      if 0 <s list_total p \<and> length vs < MAX_USERS then vs @ [member_entry p] else vs)"
proof -
  obtain v where v: "payload p = Server v" "server_action_of (srv_action v) = Some SERVER_LIST_MEMBERS"
    using assms(3) by (auto simp: about_members_def)
  have a: "0 \<le> active_server u" "active_server u < int (length (ui_servers u))" "length (us_members (open_server u)) = MAX_USERS"
    using assms(1,2) ui_inv_bounds(2,6) [of u] server_bounds_at(1) [of u "active_server u"]
    by (auto simp: connected_def in_active_server_def)
  obtain sv where sv: "member_item p v (open_server u) = Inr sv" "0 \<le>s us_member_count sv"
      "members_of sv = (let vs = if starts_list p then [] else members_of (open_server u) in
        if 0 <s list_total p \<and> length vs < MAX_USERS then vs @ [member_entry p] else vs)"
    using member_item_run [OF a(3) assms(4) v(1)] by blast
  let ?u = "upd_server (nat (active_server u)) (\<lambda>_. sv) u"
  have run: "process_network_packet env p u = Inr ?u"
    using v sv(1) assms(2) a(1,2)
    by (simp add: process_network_packet_def ui_update_server_state_def Let_def member_list_reply_def)
  have "ui_inv ?u" using inv_packet [of u env p] assms(1) by (simp add: run connected_def)
  moreover have "open_server ?u = sv" using a(1,2) by (simp add: upd_server_def)
  moreover have "client_socket ?u = client_socket u" "in_active_server ?u = in_active_server u"
    by (simp_all add: upd_server_def in_active_server_def)
  ultimately show ?thesis
    using run assms(1,2) sv(2,3) by (auto simp: at_server_def connected_def listed_members_def members_of_def)
qed

interpretation member_table: table_view listed_members at_server about_members member_entry MAX_USERS
proof
  fix u p env
  assume ok: "at_server u"
  then show "client_socket u \<noteq> -1" by (simp add: at_server_def connected_def)
  assume "about_members p"
  from about_members_run [OF _ _ this, of u env] ok
  have run: "\<exists>u'. process_network_packet env p u = Inr u' \<and> at_server u' \<and>
      listed_members u' = (let vs = if starts_list p then [] else listed_members u in
        if 0 <s list_total p \<and> length vs < MAX_USERS then vs @ [member_entry p] else vs)"
    by (simp add: at_server_def)
  show "\<exists>u'. process_network_packet env p u = Inr u' \<and> at_server u' \<and> listed_members u' =
      (let vs = if starts_list p then [] else listed_members u in if length vs < MAX_USERS then vs @ [member_entry p] else vs)"
    if "0 <s list_total p"
    using run that by simp
  show "\<exists>u'. process_network_packet env p u = Inr u' \<and> at_server u' \<and> listed_members u' = []"
    if "starts_list p" "list_total p = 0"
    using run that by (auto simp: word_sless_alt)
qed

section \<open>Channels\<close>

definition about_channels :: "packet \<Rightarrow> bool" where
  "about_channels p \<longleftrightarrow> (\<exists>v. payload p = Server v \<and> server_action_of (srv_action v) = Some SERVER_LIST_CHANNELS)"

definition channel_row_of :: "packet \<Rightarrow> ui_channel" where
  "channel_row_of p = (case payload p of
      Server v \<Rightarrow> \<lparr>uc_name = strncpy0 (MAX_NAME_LEN - 1) (srv_name v), uc_messages = [], uc_id = srv_server_id v\<rparr>
    | _ \<Rightarrow> zero_ui_channel)"

definition channels_of :: "ui_server \<Rightarrow> ui_channel list" where
  "channels_of sv = take (us_channel_count sv) (us_channels sv)"

definition in_server :: "ui \<Rightarrow> bool" where
  "in_server u \<longleftrightarrow> connected u \<and> in_active_server u"

lemma channel_item_run:
  assumes "length (us_channels old) = UI_MAX_CHANNELS" and "us_channel_count old \<le> UI_MAX_CHANNELS" and "payload p = Server v"
  shows "0 <s list_total p \<Longrightarrow> channels_of (channel_item p v old) =
      (let vs = if starts_list p then [] else channels_of old in if length vs < UI_MAX_CHANNELS then vs @ [channel_row_of p] else vs)"
    and "starts_list p \<Longrightarrow> list_total p = 0 \<Longrightarrow> channels_of (channel_item p v old) = []"
  using assms by (auto simp: channel_item_def Let_def channels_of_def channel_row_of_def take_Suc_update min_def)

lemma about_channels_run:
  assumes "in_server u" and "payload p = Server v" and "server_action_of (srv_action v) = Some SERVER_LIST_CHANNELS"
  shows "\<exists>u'. process_network_packet env p u = Inr u' \<and> in_server u' \<and>
    channels_of (open_server u') = channels_of (channel_item p v (open_server u))"
proof -
  have inv: "ui_inv u" and a: "0 \<le> active_server u" "active_server u < int UI_MAX_SERVERS"
    "active_server u < int (length (ui_servers u))"
    using assms(1) ui_inv_bounds [of u] by (auto simp: in_server_def connected_def in_active_server_def)
  let ?sv = "channel_item p v (open_server u)"
  let ?u = "upd_server (nat (active_server u)) (channel_item p v) u"
  have same: "open_server ?u = ?sv" "in_active_server ?u = in_active_server u" "client_socket ?u = client_socket u"
    using a by (simp_all add: upd_server_def in_active_server_def)
  have ask: "open_server (request_channel_history env k w) = open_server w"
    "in_active_server (request_channel_history env k w) = in_active_server w"
    "client_socket (request_channel_history env k w) = client_socket w" for k w
    by (simp_all add: request_channel_history_def submit_eq in_active_server_def)
  have len: "length (us_channels ?sv) = UI_MAX_CHANNELS" "us_channel_count ?sv \<le> UI_MAX_CHANNELS"
    using server_bounds_at [OF inv a(1,2)] by (auto simp: channel_item_def Let_def)
  have reply: "process_network_packet env p u = channel_list_reply env p v u"
    using assms(2,3) by (simp add: process_network_packet_def ui_update_server_state_def Let_def)
  obtain u' where run: "process_network_packet env p u = Inr u'" and u': "u' = ?u \<or> (\<exists>k. u' = request_channel_history env k ?u)"
  proof (cases "ends_list p \<and> 0 < us_channel_count ?sv \<and> active_channel ?u < us_channel_count ?sv")
    case True
    have "channel_list_reply env p v u = Inr (request_channel_history env (uc_id (us_channels ?sv ! active_channel ?u)) ?u)"
      using True assms(1) a len by (simp add: channel_list_reply_def Let_def in_server_def)
    with that reply show thesis by auto
  next
    case False
    then have "channel_list_reply env p v u = Inr ?u"
      using assms(1) a by (auto simp: channel_list_reply_def Let_def in_server_def)
    with that reply show thesis by auto
  qed
  have "ui_inv u'" using inv_packet [OF inv, of env p] by (simp add: run)
  with u' assms(1) same ask run show ?thesis by (intro exI [of _ u']) (auto simp: in_server_def connected_def)
qed

interpretation channel_table: table_view "\<lambda>u. channels_of (open_server u)" in_server about_channels channel_row_of UI_MAX_CHANNELS
proof
  fix u p env
  assume ok: "in_server u"
  then show "client_socket u \<noteq> -1" by (simp add: in_server_def connected_def)
  have b: "length (us_channels (open_server u)) = UI_MAX_CHANNELS" "us_channel_count (open_server u) \<le> UI_MAX_CHANNELS"
    using ok server_bounds_at [of u "active_server u"] ui_inv_bounds [of u] by (auto simp: in_server_def connected_def in_active_server_def)
  assume "about_channels p"
  then obtain v where v: "payload p = Server v" "server_action_of (srv_action v) = Some SERVER_LIST_CHANNELS"
    by (auto simp: about_channels_def)
  note run = about_channels_run [OF ok v, of env] and item = channel_item_run [OF b v(1)]
  show "\<exists>u'. process_network_packet env p u = Inr u' \<and> in_server u' \<and> channels_of (open_server u') =
      (let vs = if starts_list p then [] else channels_of (open_server u) in
       if length vs < UI_MAX_CHANNELS then vs @ [channel_row_of p] else vs)"
    if "0 <s list_total p"
    using run item(1) [OF that] by simp
  show "\<exists>u'. process_network_packet env p u = Inr u' \<and> in_server u' \<and> channels_of (open_server u') = []"
    if "starts_list p" "list_total p = 0"
    using run item(2) [OF that] by simp
qed

section \<open>From the database to the screen\<close>

lemma collected_servers:
  "fold collect_server_list_item rows [] =
   map (\<lambda>(ident, name, n). (strncpy0 (MAX_NAME_LEN - 1) name, Some ident, Some n)) (take MAX_SERVERS rows)"
  using fold_collect [of collect_server_list_item MAX_SERVERS
      "\<lambda>(ident, name, n). (strncpy0 (MAX_NAME_LEN - 1) name, Some ident, Some n)" "[]" rows]
  by (simp add: collect_server_list_item_def take_map split: prod.split)

definition member_flags :: "bool \<Rightarrow> bool \<Rightarrow> i32" where
  "member_flags admin online = (let flags = (if admin then MEMBER_FLAG_ADMIN else 0) in
     if online then or flags MEMBER_FLAG_ONLINE else flags)"

lemma collected_members:
  "fold (collect_member_list_item cs) rows [] =
   map (\<lambda>(ident, name, admin). (strncpy0 (MAX_NAME_LEN - 1) name, Some ident, Some (member_flags admin (client_online cs ident))))
     (take MAX_SERVER_MEMBERS rows)"
  using fold_collect [of "collect_member_list_item cs" MAX_SERVER_MEMBERS
      "\<lambda>(ident, name, admin). (strncpy0 (MAX_NAME_LEN - 1) name, Some ident, Some (member_flags admin (client_online cs ident)))" "[]" rows]
  by (simp add: collect_member_list_item_def member_flags_def Let_def take_map split: prod.split)

lemma flags_read:
  "member_flags admin online AND MEMBER_ADMIN \<noteq> 0 \<longleftrightarrow> admin"
  "member_flags admin online AND MEMBER_ONLINE \<noteq> 0 \<longleftrightarrow> online"
  by (cases admin; cases online; simp add: member_flags_def MEMBER_FLAG_ADMIN_def MEMBER_FLAG_ONLINE_def)+

lemma online_moved:
  "client_online (cs[i := (cs ! i)\<lparr>current_server_index := k\<rparr>]) = client_online cs"
proof (cases "i < length cs")
  case True
  have "client_online cs u \<longleftrightarrow> (\<exists>(fd, a, w) \<in> set (map (\<lambda>c. (socket_fd c, is_authenticated c, cid c)) cs). 0 < fd \<and> a \<and> w = u)"
    for cs u by (auto simp: client_online_def list_ex_iff)
  moreover have "map (\<lambda>c. (socket_fd c, is_authenticated c, cid c)) (cs[i := (cs ! i)\<lparr>current_server_index := k\<rparr>]) =
      map (\<lambda>c. (socket_fd c, is_authenticated c, cid c)) cs"
    using True by (simp add: map_update list_update_same_conv)
  ultimately show ?thesis by (intro ext) (simp only:)
qed (simp add: list_update_beyond)

lemma small_take: "length (map f (take 16 xs)) < 100" "length (map f (take 64 xs)) < 100"
  by simp_all

text \<open>
  C33: After a request for the list of servers, by a logged-in client with a working connection
  and database, the client that receives the reply lists exactly the first eight rows of the
  query: the id, of which it keeps 32 bits, the name and the number of members.
\<close>

theorem server_list_view:
  assumes "connected u" and "is_authenticated (clients s ! i)" and "0 \<le> socket_fd (clients s ! i)"
    and "\<And>log. send_ok env log (socket_fd (clients s ! i))"
    and "db_list_servers env (database s) = (0, rows)" and "server_action_of (srv_action v) = Some SERVER_LIST"
  shows "\<exists>ps u'. out (handle_server_packet env i v s) = out s @ map (Pair (socket_fd (clients s ! i))) ps \<and>
    ui_run (arrivals env' ps) u = Inr u' \<and>
    map (\<lambda>sv. (us_id sv, us_name sv, us_member_count sv)) (listed_servers u') =
      map (\<lambda>(ident, name, n). (to_i32 ident, strncpy0 31 name, n)) (take 8 rows)"
proof -
  let ?items = "fold collect_server_list_item rows []"
  have handler: "handle_server_packet env i v s = reply_server_list env i SERVER_LIST ?items s"
    using assms(2,5,6) by (simp add: handle_server_packet_def Let_def list_tizcord_servers_def)
  have len: "length ?items < 100" unfolding collected_servers by simp
  obtain lid where sent: "out (reply_server_list env i SERVER_LIST ?items s) =
      out s @ map (Pair (socket_fd (clients s ! i))) (table_packets SERVER_LIST lid ?items)"
    using reply_table [OF assms(4,3), of ?items SERVER_LIST] len by auto
  have act: "server_action_of (server_code SERVER_LIST) = Some SERVER_LIST" by (rule serverE.enum_of_code)
  obtain u' where u': "ui_run (arrivals env' (table_packets SERVER_LIST lid ?items)) u = Inr u'"
      "listed_servers u' = take UI_MAX_SERVERS (map (\<lambda>x. server_entry (server_item_of SERVER_LIST lid 1 0 x)) ?items)"
    using server_table.reply [OF assms(1) _ len, of SERVER_LIST lid "\<lambda>x. server_entry (server_item_of SERVER_LIST lid 1 0 x)" env']
    by (auto simp: about_servers_def server_item_fields server_entry_def list_packet_def plain_packet_def act simp del: server_code.simps)
  then have "map (\<lambda>sv. (us_id sv, us_name sv, us_member_count sv)) (listed_servers u') =
      map (\<lambda>(ident, name, n). (to_i32 ident, strncpy0 31 name, n)) (take 8 rows)"
    unfolding collected_servers
    by (auto simp: take_map server_entry_def server_item_fields strncpy0_def case_prod_unfold comp_def)
  with sent handler u'(1) show ?thesis by auto
qed

lemma sample_replies:
  "is_authenticated (clients sample_srv ! 0)" "0 \<le> socket_fd (clients sample_srv ! 0)"
  "socket_fd (clients sample_srv ! 0) = 4" "out sample_srv = []"
  "\<And>log. send_ok sample_env log (socket_fd (clients sample_srv ! 0))"
  "db_list_servers sample_env (database sample_srv) = (0, [(1, ''home'', 1)])"
  "db_list_server_members sample_env (database sample_srv) 1 = (0, [(1, ''ann'', True)])"
  by (simp_all add: sample_srv_def sample_defs db_list_servers_def db_list_server_members_def step_rows_def member_count_def)

theorem server_list_view_witness:
  "\<exists>ps u'. out (handle_server_packet sample_env 0 (zero_server\<lparr>srv_action := server_code SERVER_LIST\<rparr>) sample_srv) = map (Pair 4) ps \<and>
    ui_run (arrivals sample_env ps) in_channel = Inr u' \<and>
    map (\<lambda>sv. (us_id sv, us_name sv, us_member_count sv)) (listed_servers u') = [(1, ''home'', 1)]"
proof -
  have u: "connected in_channel" using in_channel_open by (simp add: channel_open_def)
  have act: "server_action_of (srv_action (zero_server\<lparr>srv_action := server_code SERVER_LIST\<rparr>)) = Some SERVER_LIST"
    by (simp add: enum_of_def)
  show ?thesis
    using server_list_view [OF u sample_replies(1,2,5,6) act, of sample_env] by (simp add: sample_replies)
qed

text \<open>
  C34: After a request for the members of a server, the client at that server lists exactly
  the first 16 rows of the query: id, name, whether the member is an administrator, and
  whether some connection is logged in as it at that moment.
\<close>

theorem member_list_view:
  assumes "at_server u" and "i < length (clients s)" and "is_authenticated (clients s ! i)" and "0 \<le> socket_fd (clients s ! i)"
    and "\<And>log. send_ok env log (socket_fd (clients s ! i))" and "0 <s srv_server_id v"
    and "db_list_server_members env (database s) (srv_server_id v) = (0, rows)"
    and "server_action_of (srv_action v) = Some SERVER_LIST_MEMBERS"
  shows "\<exists>ps u'. out (handle_server_packet env i v s) = out s @ map (Pair (socket_fd (clients s ! i))) ps \<and>
    ui_run (arrivals env' ps) u = Inr u' \<and>
    listed_members u' = map (\<lambda>(ident, name, admin). \<lparr>mb_name = strncpy0 31 name, mb_admin = admin,
      mb_online = client_online (clients s) ident, mb_id = ident\<rparr>) (take 16 rows)"
proof -
  let ?s = "s\<lparr>clients := (clients s)[i := (clients s ! i)\<lparr>current_server_index := to_i32 (srv_server_id v)\<rparr>]\<rparr>"
  let ?items = "fold (collect_member_list_item (clients ?s)) rows []"
  have "\<not> srv_server_id v \<le>s 0" using assms(6) by (simp add: word_sless_alt word_sle_eq)
  then have handler: "handle_server_packet env i v s = reply_server_list env i SERVER_LIST_MEMBERS ?items ?s"
    using assms(3,7,8) by (simp add: handle_server_packet_def Let_def list_members_def)
  have fd: "socket_fd (clients ?s ! i) = socket_fd (clients s ! i)" using assms(2) by simp
  have len: "length ?items < 100" unfolding collected_members by simp
  obtain lid where sent: "out (reply_server_list env i SERVER_LIST_MEMBERS ?items ?s) =
      out s @ map (Pair (socket_fd (clients s ! i))) (table_packets SERVER_LIST_MEMBERS lid ?items)"
    using reply_table [of env ?s i ?items SERVER_LIST_MEMBERS] assms(4,5) len fd by auto
  have act: "server_action_of (server_code SERVER_LIST_MEMBERS) = Some SERVER_LIST_MEMBERS" by (rule serverE.enum_of_code)
  obtain u' where u': "ui_run (arrivals env' (table_packets SERVER_LIST_MEMBERS lid ?items)) u = Inr u'"
      "listed_members u' = take MAX_USERS (map (\<lambda>x. member_entry (server_item_of SERVER_LIST_MEMBERS lid 1 0 x)) ?items)"
    using member_table.reply [OF assms(1) _ len, of SERVER_LIST_MEMBERS lid
        "\<lambda>x. member_entry (server_item_of SERVER_LIST_MEMBERS lid 1 0 x)" env']
    by (auto simp: about_members_def server_item_fields member_entry_def list_packet_def plain_packet_def act simp del: server_code.simps)
  have "listed_members u' = map (\<lambda>(ident, name, admin). \<lparr>mb_name = strncpy0 31 name, mb_admin = admin,
      mb_online = client_online (clients s) ident, mb_id = ident\<rparr>) (take 16 rows)"
    using online_moved [of "clients s" i "to_i32 (srv_server_id v)"] unfolding u'(2) collected_members
    by (simp add: take_map member_entry_def server_item_fields flags_read strncpy0_def case_prod_unfold comp_def)
  with sent handler u'(1) show ?thesis by auto
qed

theorem member_list_view_witness:
  "\<exists>ps u'. out (handle_server_packet sample_env 0
      (zero_server\<lparr>srv_action := server_code SERVER_LIST_MEMBERS, srv_server_id := 1\<rparr>) sample_srv) = map (Pair 4) ps \<and>
    ui_run (arrivals sample_env ps) in_channel = Inr u' \<and>
    listed_members u' = [\<lparr>mb_name = ''ann'', mb_admin = True, mb_online = True, mb_id = 1\<rparr>]"
proof -
  let ?v = "zero_server\<lparr>srv_action := server_code SERVER_LIST_MEMBERS, srv_server_id := 1\<rparr>"
  have "us_member_count (open_server in_channel) = 0"
    by (simp add: in_channel_def initial_fields zero_ui_server_def)
  then have u: "at_server in_channel" using in_channel_open by (simp add: at_server_def channel_open_def word_sle_eq)
  have act: "server_action_of (srv_action ?v) = Some SERVER_LIST_MEMBERS" by (simp add: enum_of_def)
  have v: "0 <s srv_server_id ?v" "db_list_server_members sample_env (database sample_srv) (srv_server_id ?v) = (0, [(1, ''ann'', True)])"
    using sample_replies(7) by (simp_all add: word_sless_alt)
  have i: "0 < length (clients sample_srv)" by (simp add: sample_srv_def)
  have online: "client_online (clients sample_srv) 1" by (simp add: client_online_def sample_srv_def)
  show ?thesis
    using member_list_view [OF u i sample_replies(1,2,5) v act, of sample_env] online by (simp add: sample_replies)
qed

text \<open>The channels of the open server: the first five rows of the query.\<close>

lemma collected_channels:
  "fold collect_channel_list_item rows [] =
   map (\<lambda>(ident, name). (strncpy0 (MAX_NAME_LEN - 1) name, Some ident, None)) (take MAX_CHANNELS rows)"
  using fold_collect [of collect_channel_list_item MAX_CHANNELS
      "\<lambda>(ident, name). (strncpy0 (MAX_NAME_LEN - 1) name, Some ident, None)" "[]" rows]
  by (simp add: collect_channel_list_item_def take_map split: prod.split)

theorem channel_list_view:
  assumes "in_server u" and "is_authenticated (clients s ! i)" and "0 \<le> socket_fd (clients s ! i)"
    and "\<And>log. send_ok env log (socket_fd (clients s ! i))" and "0 <s srv_server_id v"
    and "db_list_server_channels env (database s) (srv_server_id v) = (0, rows)"
    and "server_action_of (srv_action v) = Some SERVER_LIST_CHANNELS"
  shows "\<exists>ps u'. out (handle_server_packet env i v s) = out s @ map (Pair (socket_fd (clients s ! i))) ps \<and>
    ui_run (arrivals env' ps) u = Inr u' \<and>
    channels_of (open_server u') = map (\<lambda>(ident, name). \<lparr>uc_name = strncpy0 31 name, uc_messages = [], uc_id = ident\<rparr>) (take 5 rows)"
proof -
  let ?items = "fold collect_channel_list_item rows []"
  have "\<not> srv_server_id v \<le>s 0" using assms(5) by (simp add: word_sless_alt word_sle_eq)
  then have handler: "handle_server_packet env i v s = reply_server_list env i SERVER_LIST_CHANNELS ?items s"
    using assms(2,6,7) by (simp add: handle_server_packet_def Let_def list_tizcord_channels_def)
  have len: "length ?items < 100" unfolding collected_channels by simp
  obtain lid where sent: "out (reply_server_list env i SERVER_LIST_CHANNELS ?items s) =
      out s @ map (Pair (socket_fd (clients s ! i))) (table_packets SERVER_LIST_CHANNELS lid ?items)"
    using reply_table [OF assms(4,3), of ?items SERVER_LIST_CHANNELS] len by auto
  have act: "server_action_of (server_code SERVER_LIST_CHANNELS) = Some SERVER_LIST_CHANNELS" by (rule serverE.enum_of_code)
  obtain u' where u': "ui_run (arrivals env' (table_packets SERVER_LIST_CHANNELS lid ?items)) u = Inr u'"
      "channels_of (open_server u') =
        take UI_MAX_CHANNELS (map (\<lambda>x. channel_row_of (server_item_of SERVER_LIST_CHANNELS lid 1 0 x)) ?items)"
    using channel_table.reply [OF assms(1) _ len, of SERVER_LIST_CHANNELS lid
        "\<lambda>x. channel_row_of (server_item_of SERVER_LIST_CHANNELS lid 1 0 x)" env']
    by (auto simp: about_channels_def server_item_fields channel_row_of_def list_packet_def plain_packet_def act simp del: server_code.simps)
  then have "channels_of (open_server u') =
      map (\<lambda>(ident, name). \<lparr>uc_name = strncpy0 31 name, uc_messages = [], uc_id = ident\<rparr>) (take 5 rows)"
    unfolding collected_channels
    by (simp add: take_map channel_row_of_def server_item_fields strncpy0_def case_prod_unfold comp_def)
  with sent handler u'(1) show ?thesis by auto
qed

end
