(* ===== verification/Partners.thy ===== *)
theory Partners
  imports TableViews EndToEnd
begin

text \<open>
  The client against the real server. Several accesses of the client to its arrays are only
  as good as the numbers in the packets it gets. Here the packets are those the server of
  this repository sends: all of its operations log only packets whose numbers of members are
  not negative (the interface \<open>courier\<close>), the client keeps its own numbers that way, and of
  the events that break the client when a packet arrives only the seventeenth login is left.
\<close>

section \<open>Harmless packets\<close>

definition harmless :: "packet \<Rightarrow> bool" where
  "harmless p \<longleftrightarrow> (\<forall>v. payload p = Server v \<and> server_action_of (srv_action v) \<in> {Some SERVER_LIST, Some SERVER_LIST_JOINED} \<longrightarrow>
     0 \<le>s srv_member_count v)"

text \<open>What was logged from position \<open>n\<close> on is harmless.\<close>

definition tame :: "nat \<Rightarrow> srv \<Rightarrow> bool" where
  "tame n s \<longleftrightarrow> (\<forall>(fd, p) \<in> set (drop n (out s)). harmless p)"

lemma tame_start: "tame (length (out s)) s"
  by (simp add: tame_def)

lemma tame_simps [simp]:
  "tame n (s\<lparr>database := d\<rparr>) = tame n s" "tame n (s\<lparr>clients := cs\<rparr>) = tame n s"
  "tame n (s\<lparr>next_list_id := k\<rparr>) = tame n s" "tame n (link_socket fd u name s) = tame n s"
  by (simp_all add: tame_def link_socket_def)

text \<open>An operation that hands over only harmless packets.\<close>

locale courier =
  fixes say :: "'a \<Rightarrow> srv \<Rightarrow> srv"
  assumes keeps: "tame n s \<Longrightarrow> tame n (say x s)"
begin

lemma keeps_fold: "tame n s \<Longrightarrow> tame n (fold say xs s)"
  by (rule fold_invariant_list [where P = "tame n"]) (auto intro: keeps)

end

lemma tame_send: "tame n s \<Longrightarrow> harmless p \<Longrightarrow> tame n (snd (send_to env fd p s))"
  by (auto simp: send_to_def tame_def dest: in_set_dropD)

lemma tame_post: "tame n s \<Longrightarrow> harmless p \<Longrightarrow> tame n (post env fd p s)"
  by (simp add: post_def tame_send)

lemma tame_packet: "tame n s \<Longrightarrow> harmless p \<Longrightarrow> tame n (snd (send_packet_to_client env fd p s))"
  by (simp add: send_packet_to_client_def tame_send)

lemma harmless_case:
  "harmless p = (case payload p of
     Server v \<Rightarrow> server_action_of (srv_action v) \<in> {Some SERVER_LIST, Some SERVER_LIST_JOINED} \<longrightarrow> 0 \<le>s srv_member_count v
   | _ \<Rightarrow> True)"
  by (simp add: harmless_def split: payload.split)

lemma payload_built [simp]:
  "payload (social_packet env w) = Social w" "payload (channel_packet env c) = Channel c"
  "payload (dm_packet env d) = Dm d" "payload (list_packet lid k m f pl) = pl"
  by (simp_all add: social_packet_def channel_packet_def dm_packet_def list_packet_def plain_packet_def)

lemma harmless_auth: "harmless (auth_packet a st name)"
  by (simp add: auth_packet_def plain_packet_def harmless_def)

lemma harmless_action: "harmless (plain_packet (action_payload t a code m))"
  by (auto simp: harmless_def plain_packet_def action_payload_def word_sle_eq zero_server_def split: option.splits packet_kind.splits)

lemma tame_action: "tame n s \<Longrightarrow> tame n (snd (send_action_response env fd t a code m s))"
  by (simp add: send_action_response_def tame_packet harmless_action)

lemma tame_reply: "tame n s \<Longrightarrow> tame n (reply_server env i a c s)" "tame n s \<Longrightarrow> tame n (reply_social env i b c m s)"
  by (simp_all add: reply_server_def reply_social_def tame_action)

section \<open>Lists\<close>

text \<open>The entries of a table whose numbers of members are not negative, if it is one of servers.\<close>

definition good_entries :: "server_action \<Rightarrow> entry list \<Rightarrow> bool" where
  "good_entries a items \<longleftrightarrow> a \<in> {SERVER_LIST, SERVER_LIST_JOINED} \<longrightarrow>
     (\<forall>(name, ident, cnt) \<in> set items. case cnt of None \<Rightarrow> True | Some c \<Rightarrow> 0 \<le>s c)"

lemma harmless_item:
  assumes "good_entries a ((name, ident, cnt) # items)"
    and "item_payload (packet_kind_code PACKET_SERVER) (server_code a) name ident cnt = Some pl"
  shows "harmless (list_packet lid k m f pl)"
proof -
  have "server_action_of (server_code a) = Some a" by (rule serverE.enum_of_code)
  with assms show ?thesis
    by (auto simp: harmless_def good_entries_def item_payload_def Let_def word_sle_eq
        split: option.splits simp del: server_code.simps)
qed

lemma tame_items:
  "tame n s \<Longrightarrow> good_entries a items \<Longrightarrow>
   tame n (snd (send_items env fd (packet_kind_code PACKET_SERVER) (server_code a) lid m i items s))"
proof (induction items arbitrary: i s)
  case (Cons x items)
  obtain name ident cnt where x: "x = (name, ident, cnt)" by (cases x)
  show ?case
  proof (cases "item_payload (packet_kind_code PACKET_SERVER) (server_code a) name ident cnt")
    case None
    then show ?thesis using Cons.prems(1) x by simp
  next
    case (Some pl)
    obtain r s' where sent: "send_packet_to_client env fd (list_packet lid (of_nat i) (of_nat m) (frame_of m i) pl) s = (r, s')"
      by fastforce
    from tame_packet [OF Cons.prems(1) harmless_item [OF Cons.prems(2) [unfolded x] Some]] sent
    have "tame n s'" by (metis snd_conv)
    moreover have "good_entries a items" using Cons.prems(2) by (simp add: good_entries_def)
    ultimately show ?thesis using Cons.IH [of s' "Suc i"] Some sent x by simp
  qed
qed simp

lemma harmless_end: "harmless (list_packet lid k m f (Server (zero_server\<lparr>srv_action := b, srv_status := c\<rparr>)))"
  by (simp add: harmless_def zero_server_def word_sle_eq)

lemma tame_list:
  assumes "tame n s" and "good_entries a items"
  shows "tame n (snd (send_list_response env fd (packet_kind_code PACKET_SERVER) (server_code a) items s))"
proof -
  have "empty_payload (packet_kind_code PACKET_SERVER) (server_code a) =
      Some (Server (zero_server\<lparr>srv_action := server_code a, srv_status := resp RESP_DONE\<rparr>))"
    by (simp add: empty_payload_def del: server_code.simps)
  with assms show ?thesis
    by (auto simp: send_list_response_def allocate_list_id_def Let_def simp del: server_code.simps packet_kind_code.simps
        intro!: tame_packet harmless_end tame_items)
qed

lemma tame_reply_list:
  assumes "tame n s" and "good_entries a items"
  shows "tame n (reply_server_list env i a items s)"
  using tame_list [OF assms, of env "socket_fd (clients s ! i)"]
  by (auto simp: reply_server_list_def intro!: tame_reply split: prod.split simp del: server_code.simps packet_kind_code.simps)

section \<open>The operations of the server\<close>

lemma tame_fold2:
  assumes "\<And>r k s. tame n s \<Longrightarrow> tame n (snd (cb r (k, s)))" and "tame n s"
  shows "tame n (snd (fold cb rows (k, s)))"
  using assms(2)
proof (induction rows arbitrary: k s)
  case (Cons r rows)
  obtain k' s' where 1: "cb r (k, s) = (k', s')" by fastforce
  with assms(1) [OF Cons.prems, of r k] Cons.IH show ?case by simp
qed simp

lemma tame_streamed:
  assumes "\<And>r k s. tame n s \<Longrightarrow> tame n (snd (cb r (k, s)))" and "tame n s" and "harmless p" and "harmless q"
  shows "tame n (post env fd q (snd (fold cb rows (k, post env fd p s))))"
  using assms by (intro tame_post tame_fold2) auto

lemmas says = tame_post tame_reply tame_reply_list tame_action harmless_auth harmless_action

lemma tame_streams: "tame n s \<Longrightarrow> tame n (stream_friends env fd u s)" "tame n s \<Longrightarrow> tame n (stream_users env fd u s)"
  by (unfold stream_friends_def stream_users_def stream_list_def Let_def case_prod_beta;
    rule tame_streamed; force simp: friend_request_cb_def user_list_cb_def Let_def harmless_case intro!: tame_post)+

lemma tame_for_logged_in: "(\<And>c s. tame n s \<Longrightarrow> tame n (f c s)) \<Longrightarrow> tame n s \<Longrightarrow> tame n (for_logged_in f s)"
  unfolding for_logged_in_def
  by (rule fold_invariant_list [where P = "tame n"]) auto

lemma tame_status: "tame n s \<Longrightarrow> tame n (send_status_update_packet env fd code u name st on s)"
  by (simp add: send_status_update_packet_def tame_post harmless_case)

interpretation status_courier: courier "\<lambda>(u, name, t). notify_user_status_update env u name t" for env
  by unfold_locales (auto simp: notify_user_status_update_def Let_def intro!: tame_for_logged_in tame_status)

interpretation friends_courier: courier "notify_friend_list_update env" for env
  by unfold_locales (simp add: notify_friend_list_update_def tame_streams split: option.split)

interpretation users_courier: courier "\<lambda>_::unit. notify_all_user_lists env" for env
  by unfold_locales (auto simp: notify_all_user_lists_def intro: tame_for_logged_in tame_streams)

lemma tame_members: "tame n s \<Longrightarrow> tame n (list_members env i v s)"
  by (auto simp: list_members_def Let_def good_entries_def intro!: says split: prod.split)

interpretation refresh_courier: courier "refresh_client env v" for env v
  by unfold_locales (simp add: refresh_client_def Let_def tame_members)

interpretation notify_courier: courier "notify_server_member_list env" for env
  by unfold_locales (simp add: notify_server_member_list_def refresh_courier.keeps_fold)

interpretation joined_courier: courier "refresh_joined_server_cb env" for env
  by unfold_locales (simp add: refresh_joined_server_cb_def notify_courier.keeps split: prod.split)

interpretation everywhere_courier: courier "notify_server_member_lists_for_user env" for env
  by unfold_locales (simp add: notify_server_member_lists_for_user_def joined_courier.keeps_fold)

interpretation revoke_courier: courier "revoke_client env fd u name" for env fd u name
  by unfold_locales (auto simp: revoke_client_def Let_def intro!: says)

lemmas notifies = status_courier.keeps friends_courier.keeps users_courier.keeps notify_courier.keeps everywhere_courier.keeps

section \<open>The handlers\<close>

text \<open>Numbers of members fit an \<open>int\<close>.\<close>

definition countable_members :: "db \<Rightarrow> bool" where
  "countable_members db \<longleftrightarrow> length (members db) < 2 ^ 31"

lemma member_count_nonneg: "countable_members db \<Longrightarrow> 0 \<le>s member_count db i"
proof -
  assume "countable_members db"
  moreover have "length (filter P (members db)) \<le> length (members db)" for P by simp
  ultimately have "length (filter P (members db)) < 2 ^ 31" for P
    unfolding countable_members_def by (rule le_less_trans [rotated])
  then show ?thesis by (simp add: member_count_def word_sle_eq signed_of_nat signed_take_bit_int_eq_self)
qed

lemma good_collected:
  assumes "\<forall>(i, name, c) \<in> set rows. 0 \<le>s c" and "good_entries a acc"
  shows "good_entries a (fold collect_server_list_item rows acc)"
proof (rule fold_invariant_list [where P = "good_entries a"])
  fix row acc assume "row \<in> set rows" "good_entries a acc"
  with assms(1) show "good_entries a (collect_server_list_item row acc)"
    by (auto simp: good_entries_def collect_server_list_item_def)
qed (rule assms(2))

lemma step_rows_subset: "row \<in> set (fst (step_rows env st rows)) \<Longrightarrow> row \<in> set rows"
  by (auto simp: step_rows_def split: option.splits dest: in_set_takeD)

lemma listed_rows:
  assumes "countable_members db"
  shows "\<forall>(i, name, c) \<in> set (snd (db_list_servers env db)). 0 \<le>s c"
    "\<forall>(i, name, c) \<in> set (snd (db_list_joined_servers env db u)). 0 \<le>s c"
  using assms by (auto simp: db_list_servers_def db_list_joined_servers_def case_prod_beta member_count_nonneg
      dest!: step_rows_subset)

lemma tame_server_handler:
  assumes "tame n s" and "countable_members (database s)"
  shows "tame n (handle_server_packet env i v s)"
proof -
  note rows = listed_rows [OF assms(2)]
  have none: "good_entries a []" for a by (simp add: good_entries_def)
  have "tame n (list_tizcord_servers env i s)" 
    using assms(1) rows(1) [of env]
    by (auto simp: list_tizcord_servers_def intro!: says good_collected none split: prod.split)
  moreover have "tame n (list_joined_servers env i s)"
    using assms(1) rows(2) [of env "cid (clients s ! i)"]
    by (auto simp: list_joined_servers_def intro!: says good_collected none split: prod.split)
  moreover have "tame n (list_tizcord_channels env i w s)" for w
    using assms(1) by (auto simp: list_tizcord_channels_def good_entries_def intro!: says split: prod.split)
  moreover have "tame n (join_tizcord_server env i w s)" "tame n (leave_tizcord_server env i w s)"
    "tame n (create_tizcord_server env i name s)" "tame n (delete_tizcord_server env i w s)"
    "tame n (kick_server_member env i w u s)" for w name u
    using assms(1) by (simp_all add: join_tizcord_server_def leave_tizcord_server_def create_tizcord_server_def
        delete_tizcord_server_def kick_server_member_def Let_def case_prod_beta says notifies)
  ultimately show ?thesis using assms(1)
    by (simp add: handle_server_packet_def Let_def tame_members tame_action split: option.split server_action.split)
qed

lemma tame_social_handler:
  assumes "tame n s"
  shows "tame n (handle_social_packet env i v s)"
proof -
  have "tame n (request_friend env i v s)" "tame n (accept_friend env i v s)" "tame n (remove_friend_request env i v s)"
    "tame n (reject_friend env i v s)" "tame n (update_status env i v s)"
    using assms status_courier.keeps [of n _ env "(_, _, _)"]
    by (simp_all add: request_friend_def accept_friend_def remove_friend_request_def reject_friend_def
        update_status_def Let_def case_prod_beta says notifies tame_status split: option.split)
  with assms show ?thesis
    by (simp add: handle_social_packet_def Let_def says tame_streams split: option.split social_action.split)
qed

lemma tame_broadcast: "tame n s \<Longrightarrow> harmless p \<Longrightarrow> tame n (channel_broadcast env p fd s)"
  unfolding channel_broadcast_def
  by (rule fold_invariant_list [where P = "tame n"]) (simp_all add: tame_post)

lemma tame_channel_history: "tame n s \<Longrightarrow> tame n (channel_history env c fd s)"
  unfolding channel_history_def Let_def case_prod_beta
  by (rule tame_streamed; force simp: message_history_cb_def harmless_case intro!: tame_post)

lemma tame_dm_history: "tame n s \<Longrightarrow> tame n (direct_message_history env d fd s)"
  unfolding direct_message_history_def Let_def case_prod_beta
  by (split option.split; intro conjI allI impI; (assumption | rule tame_streamed);
    force simp: direct_message_history_cb_def harmless_case intro!: tame_post)

lemma tame_chat_handler:
  assumes "tame n s" and "\<And>v. payload p \<noteq> Server v"
  shows "tame n (handle_chat_packet env p fd s)"
proof -
  have p: "harmless p" using assms(2) by (simp add: harmless_def)
  have "tame n (channel_message env p c fd s)" for c
    using assms(1) p by (auto simp: channel_message_def Let_def harmless_case intro!: tame_broadcast split: option.split)
  moreover have "tame n (channel_create env c fd s)" "tame n (channel_delete env c fd s)" for c
    using assms(1) by (auto simp: channel_create_def channel_delete_def Let_def harmless_case intro!: tame_post
        split: option.split prod.split)
  moreover have "tame n (direct_message env p d fd s)" if "payload p = Dm d" for d
    using assms(1) that by (auto simp: direct_message_def Let_def harmless_case intro!: tame_post split: option.split)
  ultimately show ?thesis using assms(1)
    by (simp add: handle_chat_packet_def handle_channel_message_def handle_private_message_def tame_channel_history
        tame_dm_history split: payload.split option.split channel_action.split dm_action.split)
qed

lemma tame_auth_handler:
  assumes "tame n s"
  shows "tame n (handle_auth_packet env fd a s)"
proof -
  have "tame n (revoke_existing_login env fd u name s)" for u name
    using assms by (simp add: revoke_existing_login_def revoke_courier.keeps_fold)
  then have "tame n (register_account env fd a s)" "tame n (login_account env fd a s)" "tame n (logout_account env fd s)"
    using assms by (auto simp: register_account_def login_account_def logout_account_def Let_def says notifies
        split: option.split prod.split)
  with assms show ?thesis
    by (simp add: handle_auth_packet_def split: option.split auth_action.split)
qed

lemma tame_process:
  assumes "tame n s" and "countable_members (database s)"
  shows "tame n (process_client_packet env i p s)"
  using assms tame_chat_handler [OF assms(1), of p]
  by (simp add: process_client_packet_def Let_def tame_auth_handler tame_social_handler tame_server_handler
      split: payload.split)

lemma tame_drop: "tame n s \<Longrightarrow> tame n (drop_client env i s)"
  by (simp add: drop_client_def Let_def notifies)

section \<open>The numbers of members at the client\<close>

definition counted :: "ui \<Rightarrow> bool" where
  "counted u \<longleftrightarrow> (\<forall>sv \<in> set (ui_servers u). 0 \<le>s us_member_count sv)"

abbreviation same_servers :: "ui \<Rightarrow> ui \<Rightarrow> bool" where
  "same_servers u u' \<equiv> ui_servers u' = ui_servers u"

lemma servers_requests [simp]:
  "ui_servers (submit env p u) = ui_servers u" "ui_servers (send_logout env u) = ui_servers u"
  "ui_servers (snd (send_register env x y u)) = ui_servers u" "ui_servers (snd (send_login env x y u)) = ui_servers u"
  "ui_servers (request_dm_history env i u) = ui_servers u"
  "ui_servers (open_command u) = ui_servers u" "ui_servers (close_command u) = ui_servers u"
  "ui_servers (status_msg m u) = ui_servers u" "ui_servers (permission_denied u) = ui_servers u"
  "ui_servers (command_done u) = ui_servers u" "ui_servers (clear_command u) = ui_servers u"
  by (simp_all add: submit_eq send_logout_eq send_register_eq send_login_eq request_dm_history_def open_command_def
      close_command_def clear_command_def status_msg_def permission_denied_def command_done_def)

lemma same_servers_forms:
  "ui_servers (handle_auth_input env k b u) = ui_servers u"
  "ui_servers (handle_friends_input env k u) = ui_servers u" "ui_servers (handle_users_input env k u) = ui_servers u"
  by (simp_all add: handle_auth_input_def handle_friends_input_def handle_users_input_def Let_def put_field_def
      submit_form_def asks split: option.split)

lemma same_servers_input:
  "holds (same_servers u) (handle_server_input env k u)" "holds (same_servers u) (handle_chat_input env k u)"
  unfolding handle_server_input_def handle_chat_input_def enter_server_def asks Let_def
  by (intro steps; simp)+

lemma same_servers_dms: "holds (same_servers u) (handle_dms_input env k u)"
proof -
  have "holds (same_servers u) (send_dm env f u)" for f
    unfolding send_dm_def asks Let_def by (intro steps) simp_all
  moreover have "holds (same_servers u) (next_dm env u)"
    unfolding next_dm_def by (intro steps) simp_all
  ultimately show ?thesis
    unfolding handle_dms_input_def by (intro steps) simp_all
qed

lemma same_servers_command: "holds (same_servers u) (handle_command_input env k u)"
proof -
  have stay: "holds (\<lambda>(_, u'). same_servers u u') (and_then r (\<lambda>u. Inr (False, u)))" if "holds (same_servers u) r" for r
    using that by (cases r) simp_all
  have "holds (same_servers u) (kick_command env t u)" "holds (same_servers u) (create_channel_command env t u)"
    "holds (same_servers u) (delete_server_command env t u)" "holds (same_servers u) (delete_channel_command env t u)" for t
    unfolding kick_command_def create_channel_command_def delete_server_command_def delete_channel_command_def Let_def asks
    by (intro steps; simp)+
  moreover have "holds (\<lambda>(_, u'). same_servers u u') (leave_command env u)"
    unfolding leave_command_def asks by (intro steps) simp_all
  ultimately have run: "holds (\<lambda>(_, u'). same_servers u u') (run_command env c u)" for c
    unfolding run_command_def Let_def
    by (intro either stay) (simp_all add: friend_command_def create_server_command_def status_command_def asks)
  have "holds (same_servers u) (and_then (run_command env (cstr (cmd_input u)) u) (\<lambda>(c, v).
      Inr (if c then (close_command v)\<lparr>command_status_msg := [], show_help := False\<rparr> else v)))"
    using run [of "cstr (cmd_input u)"] by (cases "run_command env (cstr (cmd_input u)) u") auto
  then show ?thesis
    unfolding handle_command_input_def by (intro holds_if holds_option holds_Inr) simp_all
qed

lemma same_servers_other_keys: "holds (same_servers u) (handle_key env k u)"
  by (simp add: handle_key_def same_servers_forms same_servers_input same_servers_dms same_servers_command split: screen.split)

lemma counted_same: "counted u \<Longrightarrow> same_servers u u' \<Longrightarrow> counted u'"
  by (simp add: counted_def)

lemma counted_update:
  assumes "counted u" and "ui_servers u' = (ui_servers u)[i := sv]" and "0 \<le>s us_member_count sv"
  shows "counted u'"
  using assms all_set_update [of "ui_servers u" "\<lambda>sv. 0 \<le>s us_member_count sv" sv i] by (simp add: counted_def)

lemma counted_upd_server:
  assumes "counted u" and "\<And>sv. 0 \<le>s us_member_count sv \<Longrightarrow> 0 \<le>s us_member_count (f sv)"
  shows "counted (upd_server i f u)"
proof (cases "i < length (ui_servers u)")
  case True
  with assms(1) have "0 \<le>s us_member_count (ui_servers u ! i)" by (simp add: counted_def)
  from counted_update [OF assms(1) _ assms(2) [OF this]] show ?thesis by (simp add: upd_server_def)
next
  case False
  then have "(ui_servers u)[i := sv] = ui_servers u" for sv by (intro list_update_beyond leI)
  then show ?thesis by (intro counted_same [OF assms(1)]) (simp add: upd_server_def)
qed

lemma counted_messages:
  assumes "counted u"
  shows "holds counted (ui_receive_channel_message p c u)" "holds counted (ui_receive_dm_message p d u)"
  unfolding ui_receive_channel_message_def ui_receive_dm_message_def
  by (intro steps assms counted_upd_server; simp add: upd_channel_def)
    (intro steps assms; auto intro: counted_same [OF assms])

lemma counted_server_item:
  assumes "counted u" and "0 \<le>s srv_member_count v"
  shows "counted (server_item p v u)"
proof (cases "0 <s list_total p \<and> (if starts_list p then 0 else server_count u) < UI_MAX_SERVERS")
  case True
  then show ?thesis
    using assms(2) by (intro counted_update [OF assms(1)]) (simp add: server_item_def Let_def, simp)
next
  case False
  then show ?thesis by (intro counted_same [OF assms(1)]) (auto simp: server_item_def Let_def)
qed

lemma counted_member_item:
  assumes "0 \<le>s us_member_count sv"
  shows "holds (\<lambda>sv. 0 \<le>s us_member_count sv) (member_item p v sv)"
proof -
  have "0 \<le>s n + 1" if "0 \<le>s n" "n <s 16" for n :: i32
    using that sint_Suc [of n] by (simp add: word_sle_eq word_sless_alt)
  moreover have "0 \<le>s (0::i32)" "0 \<le>s (1::i32)" by (simp_all add: word_sle_eq)
  ultimately show ?thesis using assms unfolding member_item_def Let_def
    by (intro steps) (auto simp: word_sless_alt)
qed

lemma counted_server_state:
  assumes "counted u" and "harmless p" and "payload p = Server v"
  shows "holds counted (ui_update_server_state env p v u)"
proof -
  note same = counted_same [OF assms(1)]
  have "holds counted (leave_reply env u)"
    unfolding leave_reply_def asks by (intro steps same) simp
  moreover have "holds counted (delete_reply env w u)" for w
    unfolding delete_reply_def asks Let_def by (intro steps same) simp_all
  moreover have "holds counted (kick_reply env v u)"
    unfolding kick_reply_def asks Let_def by (intro steps same) simp_all
  moreover have item: "counted (upd_server i (channel_item p v) u)" for i
    by (rule counted_upd_server [OF assms(1)]) (simp add: channel_item_def Let_def)
  then have "holds counted (channel_list_reply env p v u)"
    unfolding channel_list_reply_def asks Let_def
    by (intro steps) (auto intro: assms(1) counted_same [OF item])
  moreover have "holds counted (member_list_reply p v u)"
  proof -
    have "counted (upd_server i (\<lambda>_. sv) u)" if "entry_at (ui_servers u) k = Inr old" "member_item p v old = Inr sv" for i k old sv
    proof (rule counted_upd_server [OF assms(1)])
      have "0 \<le>s us_member_count old"
        using that(1) assms(1) by (auto simp: entry_at_Inr counted_def)
      then show "0 \<le>s us_member_count sv" using counted_member_item [of old p v] that(2) by (simp add: holds_def)
    qed
    then show ?thesis unfolding member_list_reply_def by (intro steps assms(1))
  qed
  moreover have "server_action_of (srv_action v) \<in> {Some SERVER_LIST, Some SERVER_LIST_JOINED} \<Longrightarrow> counted (server_item p v u)"
    using assms(2,3) by (intro counted_server_item [OF assms(1)]) (auto simp: harmless_case)
  ultimately show ?thesis
    unfolding ui_update_server_state_def Let_def asks
    by (auto intro: assms(1) same split: option.split server_action.split)
qed

lemma counted_packet:
  assumes "counted u" and "harmless p"
  shows "holds counted (process_network_packet env p u)"
proof -
  note same = counted_same [OF assms(1)]
  have "holds counted (channel_reply env b c u)" for b c
    unfolding channel_reply_def asks Let_def by (intro steps same) simp_all
  moreover have "holds counted (auth_success env u)"
    unfolding auth_success_def asks by (intro steps same) simp
  then have "holds counted (ui_handle_auth_response env a u)" for a
    unfolding ui_handle_auth_response_def sign_out_def by (intro holds_if steps same) simp_all
  moreover have "counted (friend_list_packet env p w u)" "counted (user_list_packet p w u)" for w
    by (auto simp: friend_list_packet_def friend_item_def user_list_packet_def user_item_def select_first_friend_def
        intro!: same split: option.split)
  moreover have "holds counted (status_packet env w u)" for w
    unfolding status_packet_def asks Let_def by (intro steps same) simp_all
  ultimately show ?thesis
    using counted_server_state [OF assms] counted_messages [OF assms(1)] assms(1)
    by (simp add: process_network_packet_def split: payload.split option.split channel_action.split social_action.split)
qed

lemma counted_step:
  assumes "counted u" and "\<And>p. ev = Packet_arrived p \<Longrightarrow> harmless p"
  shows "holds counted (ui_step env ev u)"
proof (cases ev)
  case (Key_pressed k)
  with same_servers_other_keys [of u env k] show ?thesis
    by (auto simp: holds_def intro: counted_same [OF assms(1)])
next
  case (Packet_arrived p)
  with counted_packet [OF assms(1) assms(2)] assms(1) show ?thesis by simp
next
  case Server_gone
  then show ?thesis by (simp add: counted_same [OF assms(1)])
next
  case (Redraw rows)
  have "holds counted (draw_dms (local_time env) rows u)" "holds counted (draw_chat (local_time env) rows u)"
    unfolding draw_dms_def draw_chat_def Let_def by (intro steps counted_same [OF assms(1)]; simp)+
  with Redraw show ?thesis by (simp add: redraw_def assms(1) split: screen.split)
qed

lemma counted_run:
  assumes "\<And>env p. (env, Packet_arrived p) \<in> set evs \<Longrightarrow> harmless p"
  shows "counted u \<Longrightarrow> ui_run evs u = Inr u' \<Longrightarrow> counted u'"
  using assms
proof (induction evs arbitrary: u)
  case (Cons x evs)
  obtain env ev where x: "x = (env, ev)" by (cases x)
  with Cons.prems(2) obtain v where v: "ui_step env ev u = Inr v" "ui_run evs v = Inr u'"
    by (auto simp: and_then_Inr)
  have "holds counted (ui_step env ev u)"
    using Cons.prems(3) x by (intro counted_step Cons.prems(1)) auto
  with v(1) have "counted v" by simp
  from Cons.IH [OF this v(2)] Cons.prems(3) show ?case by auto
qed simp

lemma counted_initial: "counted (initial_ui fd)"
  by (simp add: counted_def initial_ui_def zero_ui_server_def word_sle_eq)

section \<open>What this server can send\<close>

text \<open>
  The packets the server hands over while it handles a request or gives up a connection, in
  any state of its clients and its database, as long as numbers of members fit an \<open>int\<close>.
\<close>

inductive server_sends :: "packet \<Rightarrow> bool" where
  handling: "countable_members (database s) \<Longrightarrow> out (process_client_packet env i req s) = out s @ ps \<Longrightarrow>
    (fd, p) \<in> set ps \<Longrightarrow> server_sends p"
| dropping: "out (drop_client env i s) = out s @ ps \<Longrightarrow> (fd, p) \<in> set ps \<Longrightarrow> server_sends p"

lemma server_sends_harmless: "server_sends p \<Longrightarrow> harmless p"
proof (induction rule: server_sends.induct)
  case (handling s env i req ps fd p)
  from tame_process [OF tame_start handling(1), of env i req] handling(2,3) show ?case by (auto simp: tame_def)
next
  case (dropping env i s ps fd p)
  from tame_drop [OF tame_start, of s env i] dropping show ?case by (auto simp: tame_def)
qed

text \<open>
  C7: Against this server the client handles every packet that comes in, whatever was typed,
  received and drawn before and however these were interleaved, with one exception: the 17th
  acknowledged login or registration in one run of the client writes behind its array of
  accounts. (The other packet that breaks the client, a member list of a server with a
  negative number of members, is not one this server sends.)
\<close>

theorem server_breaks_client_only_by_login:
  assumes "ui_run evs (initial_ui cfd) = Inr u"
    and "\<And>env q. (env, Packet_arrived q) \<in> set evs \<Longrightarrow> server_sends q" and "server_sends p"
  shows "(\<exists>e. ui_step env (Packet_arrived p) u = Inl e) \<longleftrightarrow>
    client_socket u \<noteq> -1 \<and> user_count u = MAX_USERS \<and>
    (\<exists>a act. payload p = Auth a \<and> auth_action a = auth_code act \<and> act \<in> {AUTH_REGISTER, AUTH_LOGIN} \<and>
       auth_status a = resp RESP_OK)"
proof -
  have inv: "ui_inv u" by (rule reach_inv_ui [OF ui_run_reach [OF ui_reach.start assms(1)]])
  have "counted u" by (rule counted_run [OF _ counted_initial assms(1)]) (rule server_sends_harmless [OF assms(2)])
  then have "\<not> us_member_count (ui_servers u ! nat (active_server u)) <s 0" if "in_active_server u"
  proof -
    have "nat (active_server u) < length (ui_servers u)"
      using that ui_inv_bounds(2,9) [OF inv] by (simp add: in_active_server_def)
    from nth_mem [OF this] \<open>counted u\<close> show ?thesis by (fastforce simp: counted_def word_sle_eq word_sless_alt)
  qed
  then have "hazard env (Packet_arrived p) u \<longleftrightarrow> client_socket u \<noteq> -1 \<and> user_count u = MAX_USERS \<and>
      (\<exists>a. payload p = Auth a \<and> auth_action_of (auth_action a) \<in> {Some AUTH_REGISTER, Some AUTH_LOGIN} \<and> auth_status a = resp RESP_OK)"
    by (auto simp: packet_hazard_def split: payload.split)
  moreover have "auth_action_of (auth_action a) = Some b \<longleftrightarrow> auth_action a = auth_code b" for a b
    by (rule authE.enum_of_Some)
  ultimately show ?thesis using fails_step [OF inv, of env "Packet_arrived p"] by (auto simp: fails_def)
qed

text \<open>The acknowledgement of a login, from the server, 16 times and once more.\<close>

definition login_answer :: packet where
  "login_answer = auth_packet AUTH_LOGIN (resp RESP_OK) []"

lemma server_sends_login_answer: "server_sends login_answer"
proof -
  let ?s' = "process_client_packet sample_env 1 (login_request sample_env ''ann'' ''pw'') sample_srv"
  have run: "?s' = login_account sample_env (socket_fd (clients sample_srv ! 1)) (zero_auth\<lparr>auth_action := auth_code AUTH_LOGIN,
      auth_username := ''ann'', auth_password := ''pw''\<rparr>) sample_srv"
    by (rule server_gets_login) simp_all
  have hash: "db_get_password_hash sample_env (database sample_srv) ''ann'' = Some (1, ''$pw'')"
    "crypt sample_env ''pw'' ''$pw'' = Some ''$pw''"
    by (simp_all add: db_get_password_hash_def first_row_def step_rows_def sample_srv_def sample_defs)
  then have last: "last (out ?s') = (socket_fd (clients sample_srv ! 1), login_answer)"
    unfolding run login_reply login_answer_def by simp
  have "out (login_account env fd a s) \<noteq> []" for env fd a s
    by (simp add: login_account_def Let_def post_def send_to_def split: option.split)
  then have "last (out ?s') \<in> set (out ?s')" unfolding run by (rule last_in_set)
  then have sent: "(socket_fd (clients sample_srv ! 1), login_answer) \<in> set (out ?s')" by (simp only: last)
  have "countable_members (database sample_srv)" "out sample_srv = []"
    by (simp_all add: countable_members_def sample_srv_def sample_defs)
  moreover from this(2) have "out ?s' = out sample_srv @ out ?s'" by simp
  ultimately show ?thesis by (intro server_sends.handling [OF _ _ sent])
qed

lemma sixteen_logins:
  assumes "n \<le> MAX_USERS"
  shows "\<exists>u. ui_run (replicate n (env, Packet_arrived login_answer)) (initial_ui 3) = Inr u \<and> user_count u = n \<and>
    client_socket u = 3"
  using assms
proof (induction n)
  case 0
  then show ?case by (simp add: initial_ui_def)
next
  case (Suc n)
  let ?ev = "(env, Packet_arrived login_answer)"
  obtain u where u: "ui_run (replicate n ?ev) (initial_ui 3) = Inr u" "user_count u = n" "client_socket u = 3"
    using Suc by auto
  have "ui_inv u" by (rule reach_inv_ui [OF ui_run_reach [OF ui_reach.start u(1)]])
  then have "n < length (ui_users u)" using ui_inv_bounds(1) Suc.prems by simp
  then obtain v where "ui_step env (Packet_arrived login_answer) u = Inr v" "user_count v = Suc n" "client_socket v = 3"
    using u(2,3) by (simp add: process_network_packet_def login_answer_def auth_packet_def plain_packet_def
        ui_handle_auth_response_def auth_success_def request_defs submit_eq)
  moreover have "replicate (Suc n) ?ev = replicate n ?ev @ [?ev]" by (simp add: replicate_append_same)
  ultimately show ?case using u(1) by (simp add: ui_run_append del: replicate.simps)
qed

theorem server_breaks_client_only_by_login_witness:
  "\<exists>u. ui_run (replicate 16 (sample_env, Packet_arrived login_answer)) (initial_ui 3) = Inr u \<and> server_sends login_answer \<and>
     (\<exists>e. ui_step sample_env (Packet_arrived login_answer) u = Inl e)"
proof -
  obtain u where u: "ui_run (replicate 16 (sample_env, Packet_arrived login_answer)) (initial_ui 3) = Inr u"
      "user_count u = 16" "client_socket u = 3"
    using sixteen_logins [of 16 sample_env] by auto
  have "server_sends q" if "(env, Packet_arrived q) \<in> set (replicate 16 (sample_env, Packet_arrived login_answer))" for env q
    using that server_sends_login_answer by auto
  from server_breaks_client_only_by_login [OF u(1) this server_sends_login_answer, where env = sample_env] u server_sends_login_answer
  show ?thesis by (auto simp: login_answer_def auth_packet_def plain_packet_def simp del: auth_code.simps)
qed

end
