(* ===== verification/Drawing.thy ===== *)
theory Drawing
  imports UiSafety
begin

text \<open>
  What the client draws: the functions \<open>draw_...\<close> of \<^verbatim>\<open>client/ui.c\<close>, each as the list of the
  calls of \<^verbatim>\<open>ncurses\<close> it makes for a terminal of \<open>rows\<close> and \<open>cols\<close>. What drawing writes to
  the state, and where it can fail, is \<open>redraw\<close> of \<open>UiLoop\<close>. \<open>localtime\<close> with
  \<open>strftime ("%H:%M")\<close> is the parameter \<open>clock\<close>, \<open>None\<close> where \<open>localtime\<close> returns NULL.
\<close>

section \<open>Calls\<close>

datatype glyph = Letter char | Full_block | ACS_ULCORNER | ACS_URCORNER | ACS_LLCORNER | ACS_LRCORNER
  | ACS_HLINE | ACS_VLINE

text \<open>
  \<open>Attron\<close> and \<open>Attroff\<close> have a colour pair and whether \<open>A_BOLD\<close> goes with it; \<open>Print\<close> is
  \<open>mvprintw\<close> after formatting, \<open>Hline\<close> is \<open>mvhline\<close>, \<open>Put\<close> is \<open>mvaddch\<close>.
\<close>

datatype call = Erase | Refresh | Attron nat bool | Attroff nat bool | Print int int string
  | Hline int int glyph int | Put int int glyph | Move int int

definition pen :: "nat \<Rightarrow> bool \<Rightarrow> call list \<Rightarrow> call list" where
  "pen pair bold cs = Attron pair bold # cs @ [Attroff pair bold]"

abbreviation (input) blank :: glyph where "blank \<equiv> Letter (CHR '' '')"

section \<open>Formats\<close>

text \<open>\<open>%.*s\<close>, where a negative precision counts as none, \<open>%-*s\<close>, and both with the same width.\<close>

definition clip :: "int \<Rightarrow> string \<Rightarrow> string" where
  "clip n s = (if n < 0 then s else take (nat n) s)"

definition pad :: "nat \<Rightarrow> string \<Rightarrow> string" where
  "pad n s = s @ replicate (n - length s) (CHR '' '')"

definition fit :: "nat \<Rightarrow> string \<Rightarrow> string" where
  "fit n s = pad n (take n s)"

definition strlen :: "string \<Rightarrow> int" where
  "strlen s = int (length s)"

text \<open>Half of an \<open>int\<close>, rounded towards zero.\<close>

definition half :: "int \<Rightarrow> int" where
  "half n = (if n < 0 then - ((- n) div 2) else n div 2)"

section \<open>Helpers\<close>

definition draw_box :: "int \<Rightarrow> int \<Rightarrow> int \<Rightarrow> int \<Rightarrow> nat \<Rightarrow> call list" where
  "draw_box y x h w pair = pen pair False
     ([Put y x ACS_ULCORNER, Hline y (x + 1) ACS_HLINE (w - 2), Put y (x + w - 1) ACS_URCORNER] @
      concat (map (\<lambda>i. [Put (y + i) x ACS_VLINE, Hline (y + i) (x + 1) blank (w - 2),
        Put (y + i) (x + w - 1) ACS_VLINE]) [1..h - 2]) @
      [Put (y + h - 1) x ACS_LLCORNER, Hline (y + h - 1) (x + 1) ACS_HLINE (w - 2),
       Put (y + h - 1) (x + w - 1) ACS_LRCORNER])"

definition center_str :: "int \<Rightarrow> int \<Rightarrow> string \<Rightarrow> nat \<Rightarrow> bool \<Rightarrow> call list" where
  "center_str cols row s pair bold = pen pair bold [Print row (max 0 (half (cols - strlen s))) s]"

text \<open>The user's name in brackets at the right end of the top bar.\<close>

definition my_login :: "ui \<Rightarrow> login_user" where
  "my_login u = ui_users u ! nat (current_user u)"

definition name_tag :: "int \<Rightarrow> ui \<Rightarrow> call list" where
  "name_tag cols u = (if 0 \<le> current_user u
     then let uname = lu_name (my_login u) in [Print 0 (cols - strlen uname - 3) (''['' @ uname @ '']'')]
     else [])"

definition top_bar :: "int \<Rightarrow> string \<Rightarrow> ui \<Rightarrow> call list" where
  "top_bar cols title u = pen 10 True ([Hline 0 0 blank cols, Print 0 2 title] @ name_tag cols u)"

definition status_bar :: "int \<Rightarrow> int \<Rightarrow> int \<Rightarrow> string \<Rightarrow> call list" where
  "status_bar rows cols x s = pen 3 False [Hline (rows - 1) 0 blank cols, Print (rows - 1) x s]"

section \<open>The logo\<close>

text \<open>Nine rows of seven columns, bit 6 is the leftmost.\<close>

definition FONT_T :: "nat list" where
  "FONT_T = [0b1111111, 0b1111111, 0b0011100, 0b0011100, 0b0011100, 0b0011100, 0b0011100, 0b0011100, 0b0011100]"
definition FONT_I :: "nat list" where
  "FONT_I = [0b1111111, 0b1111111, 0b0011100, 0b0011100, 0b0011100, 0b0011100, 0b0011100, 0b1111111, 0b1111111]"
definition FONT_Z :: "nat list" where
  "FONT_Z = [0b1111111, 0b1111111, 0b0000111, 0b0001110, 0b0011100, 0b0111000, 0b1110000, 0b1111111, 0b1111111]"
definition FONT_C :: "nat list" where
  "FONT_C = [0b1111111, 0b1111111, 0b1100000, 0b1100000, 0b1100000, 0b1100000, 0b1100000, 0b1111111, 0b1111111]"
definition FONT_O :: "nat list" where
  "FONT_O = [0b1111111, 0b1111111, 0b1100011, 0b1100011, 0b1100011, 0b1100011, 0b1100011, 0b1111111, 0b1111111]"
definition FONT_R :: "nat list" where
  "FONT_R = [0b1111111, 0b1111111, 0b1100011, 0b1100011, 0b1111110, 0b1111110, 0b1100110, 0b1100011, 0b1100011]"
definition FONT_D :: "nat list" where
  "FONT_D = [0b0111110, 0b1111111, 0b1100011, 0b1100011, 0b1100011, 0b1100011, 0b1100011, 0b1111111, 0b0111110]"

abbreviation (input) GLYPH_W :: nat where "GLYPH_W \<equiv> 7"
abbreviation (input) GLYPH_H :: nat where "GLYPH_H \<equiv> 9"

definition TIZCORD_GLYPHS :: "nat list list" where
  "TIZCORD_GLYPHS = [FONT_T, FONT_I, FONT_Z, FONT_C, FONT_O, FONT_R, FONT_D]"

text \<open>
  The code hands the block character to \<open>mvaddch\<close> as the number 0x2588, of which a \<open>chtype\<close>
  keeps only the lower eight bits as the character; \<open>Full_block\<close> stands for that argument.
\<close>

definition logo_cell :: "nat \<Rightarrow> nat \<Rightarrow> nat \<Rightarrow> glyph" where
  "logo_cell g row col =
     (if bit (TIZCORD_GLYPHS ! g ! row) (GLYPH_W - 1 - col) then Full_block else blank)"

definition draw_logo :: "int \<Rightarrow> int \<Rightarrow> nat \<Rightarrow> call list" where
  "draw_logo start_row cols pair =
     (let lx = max 0 (half (cols - 55)) in
      concat (map (\<lambda>row. concat (map (\<lambda>g. concat (map (\<lambda>col.
          pen pair True [Put (start_row + int row) (lx + int (g * (GLYPH_W + 1) + col)) (logo_cell g row col)])
        [0..<GLYPH_W])) [0..<length TIZCORD_GLYPHS])) [0..<GLYPH_H]))"

section \<open>Login and signup\<close>

text \<open>The numbers \<open>0, k, 2k, ...\<close> below \<open>n\<close>.\<close>

definition every :: "int \<Rightarrow> int \<Rightarrow> int list" where
  "every k n = filter (\<lambda>i. i mod k = 0) [0..n - 1]"

definition form_top :: "int \<Rightarrow> int" where
  "form_top rows = max 11 (half (rows - 23))"

definition form_left :: "int \<Rightarrow> int" where
  "form_left cols = max 0 (half (cols - 48))"

definition draw_auth :: "int \<Rightarrow> int \<Rightarrow> bool \<Rightarrow> ui \<Rightarrow> call list" where
  "draw_auth rows cols is_signup u =
     (let bw = 48; bh = 13; by = form_top rows; bx = form_left cols; ly = max 0 (by - 10);
          title = (if is_signup then '' Create Account '' else '' Welcome Back '');
          fy = by + 4; py = fy + 3; msg_row = by + bh - 3;
          masked = replicate (length (form_password u)) (CHR ''*'');
          hint = (if is_signup then ''TAB/field  ENTER/create  F2/login'' else ''TAB/field  ENTER/login   F2/signup'') in
      [Erase] @
      pen 4 False (concat (map (\<lambda>r. map (\<lambda>c. Put r c (Letter (CHR ''.''))) (every 6 cols)) (every 3 rows))) @
      draw_logo ly cols 5 @
      draw_box by bx bh bw 5 @
      pen 5 True [Print (by + 1) (bx + half (bw - strlen title)) title] @
      pen 4 False [Hline (by + 2) (bx + 1) ACS_HLINE (bw - 2)] @
      pen 4 False [Print fy (bx + 3) ''Username''] @
      pen (if form_field u = 0 then 2 else 1) False
        [Print (fy + 1) (bx + 3) ('' '' @ pad 38 (form_username u) @ '' '')] @
      pen 4 False [Print py (bx + 3) ''Password''] @
      pen (if form_field u = 1 then 2 else 1) False [Print (py + 1) (bx + 3) ('' '' @ pad 38 masked @ '' '')] @
      (if form_error u \<noteq> [] then pen 8 True [Print msg_row (bx + 3) (fit 40 (form_error u))] else []) @
      (if form_success u \<noteq> [] then pen 7 True [Print msg_row (bx + 3) (fit 40 (form_success u))] else []) @
      pen 4 False [Hline (by + bh - 2) (bx + 1) ACS_HLINE (bw - 2)] @
      pen 4 False [Print (by + bh - 1) (bx + half (bw - strlen hint)) hint] @
      [if form_field u = 0 then Move (fy + 1) (bx + 4 + strlen (form_username u))
       else Move (py + 1) (bx + 4 + strlen (form_password u)),
       Refresh])"

section \<open>The list of servers\<close>

definition server_line :: "int \<Rightarrow> ui \<Rightarrow> nat \<Rightarrow> call list" where
  "server_line cols u i =
     (let row = 6 + int i * 2; sv = ui_servers u ! i; number = pad 3 (decimal (int i + 1));
          name = fit 20 (us_name sv); desc = fit 36 (us_description sv);
          members = decimal (sint (us_member_count sv)) @ '' members'' in
      if i = server_cursor u
      then pen 2 True [Hline row 0 blank cols, Print row 3 (number @ ''  '' @ name @ ''  '' @ desc @ ''  '' @ members)]
      else pen 5 True [Print row 3 number] @ pen 1 False [Print row 8 name] @
        pen 4 False [Print row 30 desc, Print row 68 members])"

definition draw_server_list :: "int \<Rightarrow> int \<Rightarrow> ui \<Rightarrow> call list" where
  "draw_server_list rows cols u =
     [Erase] @ top_bar cols '' PACKET_SERVER BROWSER'' u @
     pen 4 False [Print 2 3 ''Choose a server to join, or press ESC to logout.'', Hline 3 0 ACS_HLINE cols] @
     pen 9 True [Print 4 3 (pad 3 ''#'' @ ''  '' @ pad 20 ''PACKET_SERVER'' @ ''  '' @ pad 36 ''DESCRIPTION'' @ ''  MEMBERS'')] @
     pen 4 False [Hline 5 0 ACS_HLINE cols] @
     concat (map (server_line cols u) [0..<server_count u]) @
     status_bar rows cols 2 '' UP/DOWN: navigate   ENTER: join   ESC: logout  F1: Command  F2: Friends  F3: Users  F4: DM '' @
     [Refresh]"

section \<open>The command line\<close>

definition help_lines :: "string list" where
  "help_lines = [''Available Commands:'', ''-------------------'', ''/friend [username]'', ''/accept [username]'',
     ''/unfriend [username]'', ''/reject [username]'', ''/createserver [server_name]'', ''/leaveserver'',
     ''/deleteserver [server_name]'', ''/createchannel [channel_name]'', ''/deletechannel [channel_name]'',
     ''/kick [username]'', ''/setstatus [status]'', ''/help'']"

definition draw_command :: "int \<Rightarrow> int \<Rightarrow> ui \<Rightarrow> call list" where
  "draw_command rows cols u =
     (let bw = 60; bh = 3; by = (if show_help u then 4 else max 0 (half (rows - bh))); bx = max 0 (half (cols - bw)) in
      [Erase] @ draw_box by bx bh bw 5 @
      pen 4 False [Print (by - 1) bx ''Command Line (ESC to cancel, ENTER to submit)''] @
      pen 1 False [Print (by + 1) (bx + 2) (''> '' @ cstr (cmd_input u))] @
      (if show_help u
       then pen 5 True (map2 (\<lambda>i s. Print (by + bh + 1 + i) bx s) [0..13] help_lines)
       else if command_status_msg u \<noteq> [] then pen 8 True [Print (by + bh) bx (command_status_msg u)] else []) @
      [Move (by + 1) (bx + 4 + int (cmd_input_len u)), Refresh])"

section \<open>Friends and requests\<close>

text \<open>A row of either part of the list, with the word in its last column.\<close>

definition friend_line :: "int \<Rightarrow> ui \<Rightarrow> string \<Rightarrow> int \<Rightarrow> nat \<Rightarrow> call list" where
  "friend_line cols u kind row i =
     (let number = pad 3 (decimal (int i + 1)); name = pad 20 (fr_name (ui_friends u ! i)) in
      if i = friend_cursor u
      then pen 2 True [Hline row 0 blank cols, Print row 3 (number @ ''  '' @ name @ ''  '' @ kind)]
      else pen 5 True [Print row 3 number] @ pen 1 False [Print row 8 name] @ pen 4 False [Print row 30 kind])"

definition request_kind :: "ui_friend \<Rightarrow> string" where
  "request_kind f = (if fr_type f = 1 then ''INCOMING'' else ''OUTGOING'')"

text \<open>The loop over all entries that draws those with \<open>P\<close>, with the variable \<open>current_y\<close>.\<close>

fun friend_lines :: "int \<Rightarrow> ui \<Rightarrow> (ui_friend \<Rightarrow> bool) \<Rightarrow> (ui_friend \<Rightarrow> string) \<Rightarrow> nat list \<Rightarrow> int \<Rightarrow>
    call list \<times> int" where
  "friend_lines cols u P kind [] y = ([], y)"
| "friend_lines cols u P kind (i # is) y =
     (let f = ui_friends u ! i in
      if P f then (case friend_lines cols u P kind is (y + 1) of
        (cs, y') \<Rightarrow> (friend_line cols u (kind f) y i @ cs, y'))
      else friend_lines cols u P kind is y)"

definition draw_friends :: "int \<Rightarrow> int \<Rightarrow> ui \<Rightarrow> call list" where
  "draw_friends rows cols u =
     (let n = friend_count u; accepted = (\<lambda>f. fr_type f = 2);
          total = length (filter accepted (map ((!) (ui_friends u)) [0..<n]));
          (friends, y) = friend_lines cols u accepted (\<lambda>_. ''FRIEND'') [0..<n] 5;
          (pending, _) = friend_lines cols u (\<lambda>f. \<not> accepted f) request_kind [0..<n] (y + 4) in
      [Erase] @ top_bar cols '' FRIENDS & REQUESTS'' u @
      pen 4 False [Print 2 3 (''FRIENDS ('' @ decimal (int total) @ '')''), Hline 3 0 ACS_HLINE cols] @
      pen 9 True [Print 4 3 (pad 3 ''#'' @ ''  '' @ pad 20 ''USERNAME'' @ ''  STATUS'')] @
      friends @
      pen 4 False [Print (y + 1) 3 ''PENDING REQUESTS'', Hline (y + 2) 0 ACS_HLINE cols] @
      pen 9 True [Print (y + 3) 3 (pad 3 ''#'' @ ''  '' @ pad 20 ''USERNAME'' @ ''  TYPE'')] @
      pending @
      status_bar rows cols 2 '' UP/DOWN: Navigate     ESC: logout     F1: Command     F2: Server List     F3: Users'' @
      [Refresh])"

section \<open>All users\<close>

definition user_line :: "int \<Rightarrow> ui \<Rightarrow> int \<Rightarrow> nat \<Rightarrow> call list" where
  "user_line cols u row i =
     (let x = all_users u ! i; online = (al_online x \<noteq> 0);
          status = (if al_status x \<noteq> [] then al_status x else ''-'');
          activity = pad 10 (if online then ''ONLINE'' else ''offline'');
          width = max 1 (cols - 39); name = fit 20 (al_name x) in
      if i = user_list_cursor u
      then pen 2 True [Hline row 0 blank cols, Print row 3 (activity @ ''  '' @ name @ ''  '' @ clip width status)]
      else pen (if online then 7 else 4) True [Print row 3 activity] @ pen 1 False [Print row 15 name] @
        pen 4 False [Print row 37 (clip width status)])"

text \<open>\<open>for (i = 0; i < all_user_count && row < rows - 2; i++) { ...; row++; }\<close>\<close>

fun user_lines :: "int \<Rightarrow> int \<Rightarrow> ui \<Rightarrow> nat list \<Rightarrow> int \<Rightarrow> call list" where
  "user_lines rows cols u [] row = []"
| "user_lines rows cols u (i # is) row =
     (if row < rows - 2 then user_line cols u row i @ user_lines rows cols u is (row + 1) else [])"

definition draw_users :: "int \<Rightarrow> int \<Rightarrow> ui \<Rightarrow> call list" where
  "draw_users rows cols u =
     (let online = length (filter (\<lambda>i. al_online (all_users u ! i) \<noteq> 0) [0..<all_user_count u]) in
      [Erase] @ top_bar cols '' ALL USERS'' u @
      pen 7 True [Print 2 3 (''ONLINE ('' @ decimal (int online) @ '')'')] @
      pen 6 False [Hline 3 0 ACS_HLINE cols] @
      pen 9 True [Print 4 3 (pad 10 ''ACTIVITY'' @ ''  '' @ pad 20 ''USERNAME'' @ ''  STATUS'')] @
      user_lines rows cols u [0..<all_user_count u] 6 @
      status_bar rows cols 2 '' UP/DOWN: navigate      ESC: logout     F1: Command     F2: Server List'' @
      [Refresh])"

section \<open>A channel\<close>

abbreviation (input) SIDEBAR_W :: int where "SIDEBAR_W \<equiv> 20"
abbreviation (input) MAIN_X :: int where "MAIN_X \<equiv> 21"

text \<open>A member's name, behind a label for administrators, and the two loops over the members.\<close>

definition member_line :: "int \<Rightarrow> nat \<Rightarrow> ui_member \<Rightarrow> int \<Rightarrow> call list" where
  "member_line right_x pair m row =
     (if mb_admin m then pen 8 True [Print row (right_x + 2) ''Admin:''] else []) @
     pen pair False [Print row (right_x + (if mb_admin m then 9 else 2))
       (clip (SIDEBAR_W - (if mb_admin m then 11 else 4)) (mb_name m))]"

fun member_lines :: "int \<Rightarrow> int \<Rightarrow> nat \<Rightarrow> bool \<Rightarrow> ui_member list \<Rightarrow> int \<Rightarrow> call list \<times> int" where
  "member_lines rows right_x pair online [] row = ([], row)"
| "member_lines rows right_x pair online (m # ms) row =
     (if row < rows - 2 then
        if mb_online m \<noteq> online then member_lines rows right_x pair online ms row
        else case member_lines rows right_x pair online ms (row + 1) of
          (cs, row') \<Rightarrow> (member_line right_x pair m row @ cs, row')
      else ([], row))"

definition draw_members :: "int \<Rightarrow> int \<Rightarrow> ui_server \<Rightarrow> call list" where
  "draw_members rows right_x sv =
     (let count = sint (us_member_count sv); ms = take (nat (min count (int MAX_USERS))) (us_members sv);
          online_count = int (length (filter mb_online ms)); offline_count = max 0 (count - online_count);
          (online, row) = member_lines rows right_x 5 True ms 6;
          row1 = (if row < rows - 2 then row + 1 else row);
          header = (if row1 < rows - 1
            then pen 4 False [Print row1 (right_x + 2) (''OFFLINE ('' @ decimal offline_count @ '')'')] else []);
          row2 = (if row1 < rows - 1 then row1 + 2 else row1);
          (offline, _) = member_lines rows right_x 4 False ms row2 in
      pen 3 False (
        map (\<lambda>r. Hline r right_x blank SIDEBAR_W) [0..rows - 2] @
        pen 4 False [Print 2 (right_x + 2) (''MEMBERS ('' @ decimal count @ '')'')] @
        pen 4 False [Print 4 (right_x + 2) (''ONLINE ('' @ decimal online_count @ '')'')] @
        online @ header @ offline))"

definition channel_label :: "nat \<Rightarrow> ui_server \<Rightarrow> nat \<Rightarrow> call list" where
  "channel_label active sv i =
     (let text = '' # '' @ fit 15 (uc_name (us_channels sv ! i)) in
      pen (if i = active then 2 else 3) (i = active) [Print (4 + int i * 2) 1 text])"

text \<open>
  The time of a message. Where \<open>localtime\<close> fails, nothing is printed: \<open>strftime\<close> gets a NULL
  pointer, \<open>redraw\<close> is stuck and \<open>draw_screen\<close> has no frame.
\<close>

definition shown_time :: "(i64 \<Rightarrow> string option) \<Rightarrow> i64 \<Rightarrow> string" where
  "shown_time clock t = (case clock t of None \<Rightarrow> [] | Some s \<Rightarrow> s)"

definition chat_line :: "(i64 \<Rightarrow> string option) \<Rightarrow> int \<Rightarrow> int \<Rightarrow> ui_message \<Rightarrow> call list" where
  "chat_line clock width row m =
     pen 4 False [Print row (MAIN_X + 1) (shown_time clock (msg_ts m))] @
     pen 5 True [Print row (MAIN_X + 7) (fit 7 (msg_sender m))] @
     pen 1 False [Print row (MAIN_X + 15) (clip width (msg_body m))]"

text \<open>The newest messages that the area has room for, a row each.\<close>

definition message_lines :: "(int \<Rightarrow> ui_message \<Rightarrow> call list) \<Rightarrow> int \<Rightarrow> ui_message list \<Rightarrow> call list" where
  "message_lines line rows ms =
     (let start = first_shown rows (int (length ms)) in
      concat (map (\<lambda>i. line (2 + (i - start)) (ms ! nat i)) [start..int (length ms) - 1]))"

text \<open>\<open>snprintf\<close> of the prompt, into 36 bytes.\<close>

definition prompt :: "char \<Rightarrow> string \<Rightarrow> string" where
  "prompt sign name = take (MAX_NAME_LEN + 3) (CHR ''['' # sign # name @ ''] '')"

definition draw_channel :: "(i64 \<Rightarrow> string option) \<Rightarrow> int \<Rightarrow> int \<Rightarrow> ui \<Rightarrow> call list" where
  "draw_channel clock rows cols u =
     (let sv = ui_servers u ! nat (active_server u); chan = us_channels sv ! active_channel u;
          right_x = cols - SIDEBAR_W; main_w = right_x - 1 - MAIN_X;
          uname = lu_name (my_login u); ux = right_x - strlen uname - 2;
          prompt_buf = prompt (CHR ''#'') (uc_name chan); input_col = MAIN_X + 1 + strlen prompt_buf;
          input_w = max 1 (main_w - strlen prompt_buf - 1);
          cx = input_col + strlen (chat_input u) in
      [Erase] @
      pen 3 False (map (\<lambda>r. Hline r 0 blank SIDEBAR_W) [0..rows - 2]) @
      pen 10 True [Hline 0 0 blank SIDEBAR_W, Print 0 1 ('' '' @ fit 17 (us_name sv))] @
      pen 4 False [Print 2 2 ''CHANNELS''] @
      concat (map (channel_label (active_channel u) sv) [0..<us_channel_count sv]) @
      pen 6 False (map (\<lambda>r. Put r SIDEBAR_W ACS_VLINE) [0..rows - 2]) @
      pen 6 False (map (\<lambda>r. Put r (right_x - 1) ACS_VLINE) [0..rows - 2]) @
      draw_members rows right_x sv @
      pen 10 True ([Hline 0 MAIN_X blank main_w, Print 0 (MAIN_X + 1) ('' # '' @ uc_name chan)] @
        (if 0 \<le> current_user u \<and> MAIN_X + 1 < ux then [Print 0 ux (uname @ '' '')] else [])) @
      pen 1 False (map (\<lambda>r. Hline r MAIN_X blank main_w) [1..rows - 3]) @
      message_lines (chat_line clock (max 1 (main_w - 16))) rows (uc_messages chan) @
      pen 6 False [Hline (rows - 3) MAIN_X ACS_HLINE main_w] @
      pen 1 False ([Hline (rows - 2) MAIN_X blank main_w] @
        pen 4 False [Print (rows - 2) (MAIN_X + 1) prompt_buf] @
        [Print (rows - 2) input_col (clip input_w (chat_input u))]) @
      status_bar rows cols 1 '' TAB: Channels  ENTER: Send  F1: Command  F2: Server List'' @
      [Move (rows - 2) (if right_x \<le> cx then right_x - 1 else cx), Refresh])"

section \<open>Direct messages\<close>

text \<open>The friends' messages stand on the left, the user's own on the right.\<close>

definition incoming_line :: "(i64 \<Rightarrow> string option) \<Rightarrow> int \<Rightarrow> int \<Rightarrow> ui_message \<Rightarrow> call list" where
  "incoming_line clock main_w row m =
     pen 4 False [Print row (MAIN_X + 1) (shown_time clock (msg_ts m))] @
     pen 5 True [Print row (MAIN_X + 7) (fit 7 (msg_sender m))] @
     pen 1 False [Print row (MAIN_X + 15) (clip (main_w - 16) (msg_body m))]"

definition outgoing_line :: "(i64 \<Rightarrow> string option) \<Rightarrow> int \<Rightarrow> int \<Rightarrow> ui_message \<Rightarrow> call list" where
  "outgoing_line clock main_w row m =
     (let slen = min 7 (strlen (msg_sender m)); blen = min (main_w - 10 - slen) (strlen (msg_body m));
          time_x = MAIN_X + main_w - 6; sender_x = time_x - 1 - slen in
      pen 1 False [Print row (sender_x - 1 - blen) (clip blen (msg_body m))] @
      pen 7 True [Print row sender_x (clip slen (msg_sender m))] @
      pen 4 False [Print row time_x (shown_time clock (msg_ts m))])"

definition dm_text :: "(i64 \<Rightarrow> string option) \<Rightarrow> int \<Rightarrow> string \<Rightarrow> int \<Rightarrow> ui_message \<Rightarrow> call list" where
  "dm_text clock main_w own row m =
     (if msg_sender m = own then outgoing_line clock main_w row m else incoming_line clock main_w row m)"

fun dm_labels :: "int \<Rightarrow> ui \<Rightarrow> nat list \<Rightarrow> int \<Rightarrow> call list" where
  "dm_labels active u [] row = []"
| "dm_labels active u (i # is) row =
     (if fr_type (ui_friends u ! i) = 2
      then pen (if int i = active then 2 else 3) (int i = active)
          [Print row 1 ('' @ '' @ fit 15 (fr_name (ui_friends u ! i)))] @ dm_labels active u is (row + 1)
      else dm_labels active u is row)"

definition draw_dm_screen :: "(i64 \<Rightarrow> string option) \<Rightarrow> int \<Rightarrow> int \<Rightarrow> ui \<Rightarrow> call list" where
  "draw_dm_screen clock rows cols u =
     (let main_w = cols - MAIN_X; active = pick_dm u; f = ui_friends u ! nat active;
          prompt_buf = prompt (CHR ''@'') (fr_name f); input_col = MAIN_X + 1 + strlen prompt_buf in
      [Erase] @
      pen 10 True [Hline 0 0 blank SIDEBAR_W, Print 0 1 '' DIRECT MESSAGES''] @
      pen 6 False (map (\<lambda>r. Put r SIDEBAR_W ACS_VLINE) [0..rows - 2]) @
      status_bar rows cols 1 '' TAB: Select Friends  ENTER: Send  F2: Server List'' @
      dm_labels active u [0..<friend_count u] 2 @
      (if active = -1 then pen 4 False [Print 4 2 ''No friends yet.'']
       else
         pen 10 True [Hline 0 MAIN_X blank main_w, Print 0 (MAIN_X + 1) ('' @ '' @ fr_name f)] @
         message_lines (dm_text clock main_w (lu_name (my_login u))) rows (fr_messages f) @
         pen 6 False [Hline (rows - 3) MAIN_X ACS_HLINE main_w] @
         pen 4 False [Print (rows - 2) (MAIN_X + 1) prompt_buf] @
         pen 1 False [Print (rows - 2) input_col (clip (main_w - strlen prompt_buf - 1) (dm_input u))] @
         [Move (rows - 2) (input_col + strlen (dm_input u))]) @
      [Refresh])"

section \<open>The screen\<close>

text \<open>
  The switch of \<open>start_ui\<close>: the calls of a redraw that has a result, and the state after it.
\<close>

definition frame_of_screen :: "(i64 \<Rightarrow> string option) \<Rightarrow> int \<Rightarrow> int \<Rightarrow> ui \<Rightarrow> call list" where
  "frame_of_screen clock rows cols u =
     (case current_screen u of
        SCREEN_LOGIN \<Rightarrow> draw_auth rows cols False u
      | SCREEN_SIGNUP \<Rightarrow> draw_auth rows cols True u
      | SCREEN_SERVERS \<Rightarrow> draw_server_list rows cols u
      | SCREEN_FRIENDS \<Rightarrow> draw_friends rows cols u
      | SCREEN_CHAT \<Rightarrow> draw_channel clock rows cols u
      | SCREEN_COMMAND \<Rightarrow> draw_command rows cols u
      | SCREEN_DMS \<Rightarrow> draw_dm_screen clock rows cols u
      | SCREEN_USERS \<Rightarrow> draw_users rows cols u)"

definition draw_screen :: "(i64 \<Rightarrow> string option) \<Rightarrow> int \<Rightarrow> int \<Rightarrow> ui \<Rightarrow> (ui \<times> call list) result" where
  "draw_screen clock rows cols u = and_then (redraw clock rows u) (\<lambda>u'. Inr (u', frame_of_screen clock rows cols u))"

end
