(* ===== verification/DrawingLaws.thy ===== *)
theory DrawingLaws
  imports Drawing
begin

text \<open>
  What the drawing functions guarantee. They share the interface \<open>painter\<close>: a frame erases
  first and refreshes last, so nothing of an earlier frame stays, and it does not depend on
  any password. Then what stands where: the messages of a channel, the texts of direct
  messages, the rows of the list of users.
\<close>

section \<open>Frames\<close>

definition frames :: "call list \<Rightarrow> call list" where
  "frames cs = filter (\<lambda>c. c = Erase \<or> c = Refresh) cs"

definition framed :: "call list \<Rightarrow> bool" where
  "framed cs \<longleftrightarrow> frames cs = [Erase, Refresh] \<and> hd cs = Erase \<and> last cs = Refresh"

lemma frames_simps [simp]:
  "frames [] = []" "frames (Erase # cs) = Erase # frames cs" "frames (Refresh # cs) = Refresh # frames cs"
  "frames (Attron p b # cs) = frames cs" "frames (Attroff p b # cs) = frames cs"
  "frames (Print r c t # cs) = frames cs" "frames (Hline r c ch n # cs) = frames cs"
  "frames (Put r c ch # cs) = frames cs" "frames (Move r c # cs) = frames cs"
  "frames (as @ cs) = frames as @ frames cs" "frames (pen p b cs) = frames cs"
  by (simp_all add: frames_def pen_def)

lemma frames_concat [simp]: "frames (concat css) = concat (map frames css)"
  by (induction css) simp_all

lemma frames_map: "(\<And>x. x \<in> set xs \<Longrightarrow> frames [f x] = []) \<Longrightarrow> frames (map f xs) = []"
proof (induction xs)
  case (Cons x xs)
  then have "frames ([f x] @ map f xs) = []" unfolding frames_simps by simp
  then show ?case by simp
qed simp

lemma concat_Nils: "(\<And>x. x \<in> set xs \<Longrightarrow> f x = []) \<Longrightarrow> concat (map f xs) = []"
  by simp

lemma frames_draw_box [simp]: "frames (draw_box y x h w p) = []"
  by (simp add: draw_box_def comp_def)

lemma frames_draw_logo [simp]: "frames (draw_logo r cols p) = []"
  by (simp add: draw_logo_def Let_def comp_def)

lemma frames_bars [simp]:
  "frames (top_bar cols t u) = []" "frames (status_bar rows cols x t) = []"
  by (simp_all add: top_bar_def status_bar_def name_tag_def Let_def)

lemma frames_lines [simp]:
  "frames (server_line cols u i) = []" "frames (friend_line cols u k r i) = []" "frames (user_line cols u r i) = []"
  "frames (member_line x p m r) = []" "frames (channel_label a sv i) = []" "frames (chat_line clock w r msg) = []"
  "frames (dm_text clock w own r msg) = []"
  by (simp_all add: server_line_def friend_line_def user_line_def member_line_def channel_label_def
      chat_line_def dm_text_def incoming_line_def outgoing_line_def Let_def)

lemma frames_loops [simp]:
  "frames (fst (friend_lines cols u P kind is y)) = []"
  "frames (user_lines rows cols u is y) = []"
  "frames (fst (member_lines rows x p online ms y)) = []"
  "frames (dm_labels a u is y) = []"
proof -
  show "frames (fst (friend_lines cols u P kind is y)) = []"
    by (induction "is" arbitrary: y) (simp_all add: Let_def case_prod_beta)
  show "frames (user_lines rows cols u is y) = []" by (induction "is" arbitrary: y) simp_all
  show "frames (fst (member_lines rows x p online ms y)) = []"
    by (induction ms arbitrary: y) (simp_all add: case_prod_beta)
  show "frames (dm_labels a u is y) = []" by (induction "is" arbitrary: y) simp_all
qed

lemma frames_messages [simp]:
  "(\<And>r m. frames (line r m) = []) \<Longrightarrow> frames (message_lines line rows ms) = []"
  by (simp add: message_lines_def Let_def comp_def)

lemma framed_intro: "frames cs = [Refresh] \<Longrightarrow> cs \<noteq> [] \<Longrightarrow> last cs = Refresh \<Longrightarrow> framed (Erase # cs)"
  by (simp add: framed_def)

lemma framed_screens:
  "framed (draw_auth rows cols b u)" "framed (draw_server_list rows cols u)" "framed (draw_command rows cols u)"
  "framed (draw_friends rows cols u)" "framed (draw_users rows cols u)" "framed (draw_channel clock rows cols u)"
  "framed (draw_dm_screen clock rows cols u)"
proof -
  show "framed (draw_auth rows cols b u)"
    unfolding draw_auth_def Let_def append_Cons append_Nil by (rule framed_intro) (auto simp: frames_map)
  show "framed (draw_server_list rows cols u)"
    unfolding draw_server_list_def append_Cons append_Nil by (rule framed_intro) simp_all
  have helps: "frames (map2 (\<lambda>i s. Print (y + i) x s) is ss) = []" for y x "is" ss
    by (rule frames_map) (auto split: prod.split)
  show "framed (draw_command rows cols u)"
    unfolding draw_command_def Let_def append_Cons append_Nil by (rule framed_intro) (auto simp: helps)
  show "framed (draw_friends rows cols u)"
    unfolding draw_friends_def Let_def case_prod_beta append_Cons append_Nil by (rule framed_intro) simp_all
  show "framed (draw_users rows cols u)"
    unfolding draw_users_def Let_def append_Cons append_Nil by (rule framed_intro) simp_all
  have members: "frames (draw_members rows x sv) = []" for x sv
    by (simp add: draw_members_def Let_def case_prod_beta frames_map)
  show "framed (draw_channel clock rows cols u)"
    unfolding draw_channel_def Let_def append_Cons append_Nil
    by (rule framed_intro) (auto simp: members frames_map)
  show "framed (draw_dm_screen clock rows cols u)"
    unfolding draw_dm_screen_def Let_def append_Cons append_Nil
    by (rule framed_intro) (auto simp: frames_map)
qed

section \<open>Secrets\<close>

text \<open>The state with every password replaced: stars for the one being typed, nothing for the stored ones.\<close>

definition conceal :: "ui \<Rightarrow> ui" where
  "conceal u = u\<lparr>form_password := replicate (length (form_password u)) (CHR ''*''),
     ui_users := map (\<lambda>a. a\<lparr>lu_password := []\<rparr>) (ui_users u), requests := []\<rparr>"

lemma conceal_fields [simp]:
  "length (form_password (conceal u)) = length (form_password u)" "current_user (conceal u) = current_user u"
  "length (ui_users (conceal u)) = length (ui_users u)" "current_screen (conceal u) = current_screen u"
  "form_username (conceal u) = form_username u" "form_field (conceal u) = form_field u"
  "form_error (conceal u) = form_error u" "form_success (conceal u) = form_success u"
  "server_count (conceal u) = server_count u" "ui_servers (conceal u) = ui_servers u"
  "server_cursor (conceal u) = server_cursor u" "show_help (conceal u) = show_help u"
  "cmd_input (conceal u) = cmd_input u" "cmd_input_len (conceal u) = cmd_input_len u"
  "command_status_msg (conceal u) = command_status_msg u" "ui_friends (conceal u) = ui_friends u"
  "friend_count (conceal u) = friend_count u" "friend_cursor (conceal u) = friend_cursor u"
  "all_users (conceal u) = all_users u" "all_user_count (conceal u) = all_user_count u"
  "user_list_cursor (conceal u) = user_list_cursor u" "active_server (conceal u) = active_server u"
  "active_channel (conceal u) = active_channel u" "chat_input (conceal u) = chat_input u"
  "active_dm_friend (conceal u) = active_dm_friend u" "dm_input (conceal u) = dm_input u"
  "pick_dm (conceal u) = pick_dm u"
  by (simp_all add: conceal_def pick_dm_def)

lemma conceal_name: "ui_inv u \<Longrightarrow> lu_name (my_login (conceal u)) = lu_name (my_login u)"
  by (auto simp: my_login_def conceal_def ui_inv_def accounts_ok_def)

lemma conceal_tag: "ui_inv u \<Longrightarrow> name_tag cols (conceal u) = name_tag cols u"
  by (simp add: name_tag_def conceal_name)

lemma conceal_bar: "ui_inv u \<Longrightarrow> top_bar cols t (conceal u) = top_bar cols t u"
  by (simp add: top_bar_def conceal_tag)

lemma conceal_lines:
  "server_line cols (conceal u) = server_line cols u"
  "friend_lines cols (conceal u) P kind is y = friend_lines cols u P kind is y"
  "user_lines rows cols (conceal u) is y = user_lines rows cols u is y"
  "dm_labels a (conceal u) is y = dm_labels a u is y"
proof -
  show "server_line cols (conceal u) = server_line cols u" by (simp add: server_line_def fun_eq_iff)
  show "friend_lines cols (conceal u) P kind is y = friend_lines cols u P kind is y"
    by (induction "is" arbitrary: y) (simp_all add: friend_line_def Let_def)
  show "user_lines rows cols (conceal u) is y = user_lines rows cols u is y"
    by (induction "is" arbitrary: y) (simp_all add: user_line_def Let_def)
  show "dm_labels a (conceal u) is y = dm_labels a u is y" by (induction "is" arbitrary: y) simp_all
qed

lemma conceal_screens:
  "draw_auth rows cols b (conceal u) = draw_auth rows cols b u"
  "ui_inv u \<Longrightarrow> draw_server_list rows cols (conceal u) = draw_server_list rows cols u"
  "draw_command rows cols (conceal u) = draw_command rows cols u"
  "ui_inv u \<Longrightarrow> draw_friends rows cols (conceal u) = draw_friends rows cols u"
  "ui_inv u \<Longrightarrow> draw_users rows cols (conceal u) = draw_users rows cols u"
  "ui_inv u \<Longrightarrow> draw_channel clock rows cols (conceal u) = draw_channel clock rows cols u"
  "ui_inv u \<Longrightarrow> draw_dm_screen clock rows cols (conceal u) = draw_dm_screen clock rows cols u"
proof -
  note same = conceal_fields conceal_lines strlen_def
  show "draw_auth rows cols b (conceal u) = draw_auth rows cols b u" by (simp only: draw_auth_def same)
  show "draw_command rows cols (conceal u) = draw_command rows cols u" by (simp only: draw_command_def same)
  assume inv: "ui_inv u"
  note same = same conceal_bar [OF inv] conceal_name [OF inv]
  show "draw_server_list rows cols (conceal u) = draw_server_list rows cols u" by (simp only: draw_server_list_def same)
  show "draw_friends rows cols (conceal u) = draw_friends rows cols u" by (simp only: draw_friends_def same)
  show "draw_users rows cols (conceal u) = draw_users rows cols u" by (simp only: draw_users_def same)
  show "draw_channel clock rows cols (conceal u) = draw_channel clock rows cols u" by (simp only: draw_channel_def same)
  show "draw_dm_screen clock rows cols (conceal u) = draw_dm_screen clock rows cols u" by (simp only: draw_dm_screen_def same)
qed

section \<open>The interface of the drawing functions\<close>

text \<open>What is on the terminal after some calls: what the calls since the last \<open>erase\<close> drew.\<close>

definition on_screen :: "call list \<Rightarrow> call list" where
  "on_screen cs = rev (takeWhile (\<lambda>c. c \<noteq> Erase) (rev cs))"

locale painter =
  fixes draw :: "int \<Rightarrow> int \<Rightarrow> ui \<Rightarrow> call list"
  assumes frame: "framed (draw rows cols u)"
    and secret: "ui_inv u \<Longrightarrow> draw rows cols (conceal u) = draw rows cols u"
begin

lemma no_leak:
  assumes "ui_inv u" and "ui_inv v" and "conceal u = conceal v"
  shows "draw rows cols u = draw rows cols v"
  using secret [OF assms(1), of rows cols] secret [OF assms(2), of rows cols] assms(3) by simp

lemma replaces: "on_screen (old @ draw rows cols u) = tl (draw rows cols u)"
proof -
  obtain cs where cs: "draw rows cols u = Erase # cs" "Erase \<notin> set cs"
  proof (cases "draw rows cols u")
    case Nil
    with frame [of rows cols u] show thesis by (simp add: framed_def)
  next
    case (Cons c cs)
    then have c: "c = Erase" "frames cs = [Refresh]" using frame [of rows cols u] by (auto simp: framed_def)
    have "Erase \<in> set cs \<Longrightarrow> Erase \<in> set (frames cs)" by (simp add: frames_def)
    with c(2) have "Erase \<notin> set cs" by auto
    with that Cons c(1) show thesis by blast
  qed
  then have "takeWhile (\<lambda>c. c \<noteq> Erase) (rev cs @ [Erase] @ rev old) = rev cs"
    by (subst takeWhile_append2) auto
  with cs show ?thesis by (simp add: on_screen_def)
qed

end

text \<open>Every drawing function of the code is one.\<close>

interpretation form: painter "\<lambda>rows cols. draw_auth rows cols signup" for signup
  by unfold_locales (simp_all add: framed_screens conceal_screens)

interpretation servers: painter draw_server_list
  by unfold_locales (simp_all add: framed_screens conceal_screens)

interpretation command: painter draw_command
  by unfold_locales (simp_all add: framed_screens conceal_screens)

interpretation friends: painter draw_friends
  by unfold_locales (simp_all add: framed_screens conceal_screens)

interpretation everybody: painter draw_users
  by unfold_locales (simp_all add: framed_screens conceal_screens)

interpretation chat: painter "draw_channel clock" for clock
  by unfold_locales (simp_all add: framed_screens conceal_screens)

interpretation dms: painter "draw_dm_screen clock" for clock
  by unfold_locales (simp_all add: framed_screens conceal_screens)

text \<open>
  C11: No password gets to the terminal: two states that differ only in the passwords (the
  one in the form with the same length) and in what was sent draw the same on every screen,
  and fail alike; and the calls leave nothing of an earlier frame visible.
\<close>

theorem password_never_drawn:
  assumes "ui_inv u" and "ui_inv v" and "conceal u = conceal v"
  shows "frame_of_screen clock rows cols u = frame_of_screen clock rows cols v \<and>
    (fails (redraw clock rows u) \<longleftrightarrow> fails (redraw clock rows v)) \<and>
    on_screen (old @ frame_of_screen clock rows cols u) = tl (frame_of_screen clock rows cols u)"
proof (intro conjI)
  have same: "current_screen u = current_screen v" "active_dm_friend u = active_dm_friend v" "current_user u = current_user v"
      "ui_friends u = ui_friends v" "ui_servers u = ui_servers v" "active_server u = active_server v"
      "active_channel u = active_channel v" "pick_dm u = pick_dm v" "length (ui_users u) = length (ui_users v)"
    using conceal_fields [of u] conceal_fields [of v] assms(3) by simp_all
  show "frame_of_screen clock rows cols u = frame_of_screen clock rows cols v"
    unfolding frame_of_screen_def same(1)
    using form.no_leak [OF assms] servers.no_leak [OF assms] friends.no_leak [OF assms] chat.no_leak [OF assms]
      command.no_leak [OF assms] dms.no_leak [OF assms] everybody.no_leak [OF assms]
    by (simp split: screen.split)
  show "fails (redraw clock rows u) \<longleftrightarrow> fails (redraw clock rows v)"
    by (simp add: redraw_def draw_chat_def draw_dms_def Let_def same split: screen.split)
  show "on_screen (old @ frame_of_screen clock rows cols u) = tl (frame_of_screen clock rows cols u)"
    unfolding frame_of_screen_def
    by (simp add: form.replaces servers.replaces friends.replaces chat.replaces command.replaces dms.replaces
        everybody.replaces split: screen.split)
qed

text \<open>An instance: two passwords of three letters on the login form.\<close>

lemma password_never_drawn_witness:
  "frame_of_screen (\<lambda>t. Some ''12:00'') 24 80 (initial_ui 3\<lparr>form_password := ''abc''\<rparr>) =
   frame_of_screen (\<lambda>t. Some ''12:00'') 24 80 (initial_ui 3\<lparr>form_password := ''xyz''\<rparr>)"
proof -
  have "ui_inv (initial_ui 3\<lparr>form_password := s\<rparr>)" if "length s = 3" for s
    using inv_initial [of 3] that by (simp add: ui_inv_def line_ok_def)
  then show ?thesis
    by (intro password_never_drawn [THEN conjunct1]) (simp_all add: conceal_def)
qed

section \<open>Texts and where they stand\<close>

definition texts :: "(int \<Rightarrow> int \<Rightarrow> bool) \<Rightarrow> call list \<Rightarrow> (int \<times> int \<times> string) list" where
  "texts P cs = concat (map (\<lambda>x. case x of Print r c t \<Rightarrow> if P r c then [(r, c, t)] else [] | _ \<Rightarrow> []) cs)"

lemma texts_simps [simp]:
  "texts P [] = []" "texts P (Print r c t # cs) = (if P r c then (r, c, t) # texts P cs else texts P cs)"
  "texts P (Attron p b # cs) = texts P cs" "texts P (Attroff p b # cs) = texts P cs" "texts P (Erase # cs) = texts P cs"
  "texts P (Refresh # cs) = texts P cs" "texts P (Hline r c ch n # cs) = texts P cs"
  "texts P (Put r c ch # cs) = texts P cs" "texts P (Move r c # cs) = texts P cs"
  "texts P (as @ cs) = texts P as @ texts P cs" "texts P (pen p b cs) = texts P cs"
  by (simp_all add: texts_def pen_def)

lemma texts_concat [simp]: "texts P (concat css) = concat (map (texts P) css)"
  by (induction css) simp_all

lemma texts_map: "(\<And>x. x \<in> set xs \<Longrightarrow> texts P [f x] = []) \<Longrightarrow> texts P (map f xs) = []"
  by (induction xs) (simp_all add: texts_def)

text \<open>The rows of the messages.\<close>

definition newest :: "nat \<Rightarrow> 'a list \<Rightarrow> 'a list" where
  "newest k xs = drop (length xs - k) xs"

lemma message_lines_newest:
  assumes "5 \<le> rows"
  shows "message_lines line rows ms = concat (map2 line [2..rows - 4] (newest (nat (rows - 5)) ms))"
proof -
  let ?n = "int (length ms)"
  have "map (\<lambda>i. line (2 + (i - first_shown rows ?n)) (ms ! nat i)) [first_shown rows ?n..?n - 1] =
      map2 line [2..rows - 4] (newest (nat (rows - 5)) ms)" (is "?l = ?r")
  proof (rule nth_equalityI)
    show len: "length ?l = length ?r"
      using assms by (auto simp: first_shown_def newest_def)
    show "?l ! i = ?r ! i" if "i < length ?l" for i
    proof -
      from that len have i: "i < length ?l" "i < length ?r" by simp_all
      have "nat (first_shown rows ?n + int i) = length ms - nat (rows - 5) + i"
        using assms by (auto simp: first_shown_def)
      with i show ?thesis by (simp add: newest_def nth_upto)
    qed
  qed
  then show ?thesis by (simp add: message_lines_def Let_def)
qed

lemma concat_map2_cong:
  assumes "\<And>x y. x \<in> set xs \<Longrightarrow> y \<in> set ys \<Longrightarrow> f x y = g x y"
  shows "concat (map2 f xs ys) = concat (map2 g xs ys)"
proof -
  have "map2 f xs ys = map2 g xs ys" by (rule map_cong) (auto dest: set_zip_leftD set_zip_rightD intro: assms)
  then show ?thesis by (rule arg_cong)
qed

lemma texts_messages:
  assumes "5 \<le> rows"
  shows "texts P (message_lines line rows ms) =
    concat (map2 (\<lambda>r m. texts P (line r m)) [2..rows - 4] (newest (nat (rows - 5)) ms))"
  unfolding message_lines_newest [OF assms] texts_concat map_map by (simp add: comp_def case_prod_unfold)

lemma length_clip: "0 \<le> n \<Longrightarrow> strlen (clip n s) \<le> n"
  by (simp add: clip_def strlen_def)

lemma length_shown_time:
  "(\<And>t s. clock t = Some s \<Longrightarrow> length s = 5) \<Longrightarrow> length (shown_time clock t) \<le> 5"
  by (cases "clock t") (simp_all add: shown_time_def)

lemma length_fit [simp]: "length (fit n s) = n"
  by (simp add: fit_def pad_def)

section \<open>The messages of a channel\<close>

text \<open>The part of the screen between the sidebars, below the top bar and above the input.\<close>

definition message_area :: "int \<Rightarrow> int \<Rightarrow> int \<Rightarrow> int \<Rightarrow> bool" where
  "message_area rows cols r c \<longleftrightarrow> 2 \<le> r \<and> r < rows - 3 \<and> MAIN_X \<le> c \<and> c < cols - 21"

lemma texts_member_lines:
  assumes "\<And>r. \<not> P r (x + 2)" and "\<And>r. \<not> P r (x + 9)"
  shows "texts P (fst (member_lines rows x p online ms y)) = []"
  using assms by (induction ms arbitrary: y) (simp_all add: case_prod_beta member_line_def)

lemma texts_members:
  assumes "\<And>r. \<not> P r (x + 2)" and "\<And>r. \<not> P r (x + 9)"
  shows "texts P (draw_members rows x sv) = []"
  using assms by (simp add: draw_members_def Let_def case_prod_beta texts_member_lines texts_map)

text \<open>
  C14: On the chat screen of a terminal with at least 60 columns the texts between the
  sidebars are exactly the newest \<open>rows - 5\<close> messages of the open channel, in order from the
  third row down, a row each: time, the first seven letters of the sender, and as much of the
  text as fits; and no text reaches the line before the right sidebar.
\<close>

theorem chat_shows_newest:
  assumes "60 \<le> cols" and "5 \<le> rows" and "\<And>t s. clock t = Some s \<Longrightarrow> length s = 5" and "current_screen u = SCREEN_CHAT"
  shows "texts (message_area rows cols) (frame_of_screen clock rows cols u) =
      concat (map2 (\<lambda>r m. [(r, 22, shown_time clock (msg_ts m)), (r, 28, fit 7 (msg_sender m)), (r, 36, clip (cols - 58) (msg_body m))])
        [2..rows - 4] (newest (nat (rows - 5))
          (uc_messages (us_channels (ui_servers u ! nat (active_server u)) ! active_channel u)))) \<and>
    (\<forall>(r, c, t) \<in> set (texts (message_area rows cols) (frame_of_screen clock rows cols u)). c + strlen t \<le> cols - 21)"
proof (intro conjI)
  let ?P = "message_area rows cols"
  let ?ms = "uc_messages (us_channels (ui_servers u ! nat (active_server u)) ! active_channel u)"
  let ?row = "\<lambda>r m. [(r, 22, shown_time clock (msg_ts m)), (r, 28, fit 7 (msg_sender m)), (r, 36, clip (cols - 58) (msg_body m))]"
  have labels: "texts ?P (channel_label a sv i) = []" for a sv i
    by (simp add: channel_label_def Let_def message_area_def)
  have members: "texts ?P (draw_members rows (cols - 20) sv) = []" for sv
    by (rule texts_members) (simp_all add: message_area_def)
  have bar: "texts ?P (status_bar rows cols x t) = []" for x t
    by (simp add: status_bar_def message_area_def)
  have lines: "concat (map2 (\<lambda>r m. texts ?P (chat_line clock (cols - 58) r m)) [2..rows - 4] ms) =
      concat (map2 ?row [2..rows - 4] ms)" for ms
    by (rule concat_map2_cong) (use assms(1) in \<open>auto simp: chat_line_def message_area_def\<close>)
  have width: "max 1 (cols - 20 - 1 - 21 - 16) = cols - 58" using assms(1) by simp
  show eq: "texts ?P (frame_of_screen clock rows cols u) = concat (map2 ?row [2..rows - 4] (newest (nat (rows - 5)) ?ms))"
    unfolding frame_of_screen_def assms(4) screen.case draw_channel_def Let_def width
    by (simp add: labels members bar texts_map message_area_def texts_messages [OF assms(2)] flip: lines)
  show "\<forall>(r, c, t) \<in> set (texts ?P (frame_of_screen clock rows cols u)). c + strlen t \<le> cols - 21"
  proof -
    have "57 + int (length (clip (cols - 58) s)) \<le> cols" for s
      using length_clip [of "cols - 58" s] assms(1) by (simp add: strlen_def)
    moreover have "length (shown_time clock t) \<le> 5" for t
      by (rule length_shown_time) (erule assms(3))
    then have "22 + int (length (shown_time clock t)) \<le> cols - 21" for t
    proof -
      have "int (length (shown_time clock t)) \<le> 5" using \<open>\<And>t. length (shown_time clock t) \<le> 5\<close> [of t] by simp
      with assms(1) show ?thesis by simp
    qed
    ultimately show ?thesis unfolding eq using assms(1) by (fastforce simp: strlen_def dest!: set_zip_leftD)
  qed
qed

text \<open>An instance: a terminal of six rows shows the second of two messages.\<close>

lemma chat_shows_newest_witness:
  "texts (message_area 6 80) (frame_of_screen (\<lambda>t. Some ''12:00'') 6 80 (initial_ui 3\<lparr>current_screen := SCREEN_CHAT,
      active_server := 0, ui_servers := [zero_ui_server\<lparr>us_channels := [\<lparr>uc_name = ''all'', uc_messages =
        [\<lparr>msg_sender = ''ann'', msg_body = ''one'', msg_ts = 0\<rparr>, \<lparr>msg_sender = ''barbara'', msg_body = ''two'', msg_ts = 0\<rparr>],
        uc_id = 1\<rparr>]\<rparr>]\<rparr>)) =
    [(2, 22, ''12:00''), (2, 28, ''barbara''), (2, 36, ''two'')]"
  by (subst chat_shows_newest [THEN conjunct1])
    (auto simp: initial_ui_def newest_def clip_def fit_def pad_def shown_time_def)

section \<open>Direct messages\<close>

definition dm_area :: "int \<Rightarrow> int \<Rightarrow> int \<Rightarrow> bool" where
  "dm_area rows r c \<longleftrightarrow> 2 \<le> r \<and> r < rows - 3"

lemma dm_area_out [simp]: "\<not> dm_area rows 0 c" "\<not> dm_area rows (rows - 1) c" "\<not> dm_area rows (rows - 2) c"
  by (simp_all add: dm_area_def)

text \<open>The columns of a text: inside the list of friends, or inside the messages.\<close>

definition in_columns :: "int \<Rightarrow> int \<times> int \<times> string \<Rightarrow> bool" where
  "in_columns cols x \<longleftrightarrow> (case x of (r, c, t) \<Rightarrow>
     1 \<le> c \<and> c + strlen t \<le> SIDEBAR_W \<or> MAIN_X < c \<and> c + strlen t \<le> cols - 1)"

lemma in_columns_labels: "\<forall>x \<in> set (texts P (dm_labels a u is y)). in_columns cols x"
  by (induction "is" arbitrary: y) (auto simp: in_columns_def strlen_def)

lemma in_columns_line:
  assumes "38 \<le> cols" and "\<And>t s. clock t = Some s \<Longrightarrow> length s = 5"
  shows "\<forall>x \<in> set (texts P (dm_text clock (cols - MAIN_X) own r m)). in_columns cols x"
proof -
  have shown: "length (shown_time clock t) \<le> 5" for t
    by (rule length_shown_time) (erule assms(2))
  have inc: "\<forall>x \<in> set (texts P (incoming_line clock (cols - MAIN_X) r m)). in_columns cols x"
    using assms(1) length_clip [of "cols - 37" "msg_body m"] shown [of "msg_ts m"]
    by (auto simp: incoming_line_def in_columns_def strlen_def)
  define slen where "slen = min 7 (strlen (msg_sender m))"
  define blen where "blen = min (cols - MAIN_X - 10 - slen) (strlen (msg_body m))"
  have len: "0 \<le> slen" "slen \<le> 7" "0 \<le> blen" "blen \<le> cols - MAIN_X - 10 - slen"
    using assms(1) by (simp_all add: slen_def blen_def strlen_def)
  have parts: "in_columns cols (r, MAIN_X + (cols - MAIN_X) - 6, shown_time clock t)"
      "in_columns cols (r, MAIN_X + (cols - MAIN_X) - 6 - 1 - slen, clip slen a)"
      "in_columns cols (r, MAIN_X + (cols - MAIN_X) - 6 - 1 - slen - 1 - blen, clip blen b)" for t a b
    using assms(1) len length_clip [OF len(1), of a] length_clip [OF len(3), of b] shown [of t]
    by (simp_all add: in_columns_def strlen_def)
  have out: "\<forall>x \<in> set (texts P (outgoing_line clock (cols - MAIN_X) r m)). in_columns cols x"
    unfolding outgoing_line_def Let_def slen_def [symmetric] blen_def [symmetric]
    using parts by (simp only: texts_simps set_append append_Nil2 split: if_split) simp
  show ?thesis using inc out by (simp add: dm_text_def)
qed

text \<open>
  C39: On the screen of direct messages of a terminal with at least 38 columns no text in the
  rows of the messages crosses the line between the friends and the messages or the right
  margin, the user's own messages, which end at the right, included.
\<close>

theorem dm_texts_stay_in_columns:
  assumes "38 \<le> cols" and "5 \<le> rows" and "\<And>t s. clock t = Some s \<Longrightarrow> length s = 5" and "current_screen u = SCREEN_DMS"
    and "x \<in> set (texts (dm_area rows) (frame_of_screen clock rows cols u))"
  shows "in_columns cols x"
proof -
  let ?P = "dm_area rows"
  have bar: "texts ?P (status_bar rows cols c t) = []" for c t by (simp add: status_bar_def)
  have none: "in_columns cols (4, 2, ''No friends yet.'')" by (simp add: in_columns_def strlen_def)
  from assms(5) consider "x \<in> set (texts ?P (dm_labels (pick_dm u) u [0..<friend_count u] 2))"
    | "x = (4, 2, ''No friends yet.'')"
    | r m where "x \<in> set (texts ?P (dm_text clock (cols - MAIN_X) (lu_name (my_login u)) r m))"
    unfolding frame_of_screen_def assms(4) screen.case draw_dm_screen_def Let_def
    by (auto simp: bar texts_map texts_messages [OF assms(2)] split: if_splits)
  then show ?thesis
  proof cases
    case 1
    then show ?thesis using in_columns_labels by blast
  next
    case 2
    then show ?thesis using none by simp
  next
    case 3
    moreover have "\<forall>x \<in> set (texts ?P (dm_text clock (cols - MAIN_X) (lu_name (my_login u)) r m)). in_columns cols x"
      by (rule in_columns_line [OF assms(1)]) (erule assms(3))
    ultimately show ?thesis by blast
  qed
qed

text \<open>An instance: an answer of the user's own.\<close>

lemma dm_texts_stay_in_columns_witness:
  "in_columns 80 (2, 74, ''12:00'')"
proof (rule dm_texts_stay_in_columns)
  let ?u = "initial_ui 3\<lparr>current_screen := SCREEN_DMS, active_dm_friend := 0, current_user := 0,
    ui_users := [\<lparr>lu_name = ''ann'', lu_password = [], lu_server = -1\<rparr>],
    ui_friends := [\<lparr>fr_id = 2, fr_name = ''bob'', fr_type = 2, fr_messages = [\<lparr>msg_sender = ''ann'', msg_body = ''hi'', msg_ts = 0\<rparr>]\<rparr>]\<rparr>"
  show "(2, 74, ''12:00'') \<in> set (texts (dm_area 6) (frame_of_screen (\<lambda>t. Some ''12:00'') 6 80 ?u))"
    by (simp add: frame_of_screen_def draw_dm_screen_def Let_def texts_messages newest_def dm_text_def
        outgoing_line_def my_login_def pick_dm_def strlen_def dm_area_def shown_time_def)
qed auto

section \<open>The list of users\<close>

definition user_area :: "int \<Rightarrow> int \<Rightarrow> int \<Rightarrow> bool" where
  "user_area rows r c \<longleftrightarrow> 6 \<le> r \<and> r < rows - 1 \<and> c = 3"

lemma user_area_out [simp]: "\<not> user_area rows 0 c" "\<not> user_area rows 2 c" "\<not> user_area rows 4 c" "\<not> user_area rows (rows - 1) c"
  by (simp_all add: user_area_def)

text \<open>The text a row begins with.\<close>

definition user_text :: "int \<Rightarrow> ui \<Rightarrow> nat \<Rightarrow> string" where
  "user_text cols u i =
     (let x = all_users u ! i; activity = pad 10 (if al_online x \<noteq> 0 then ''ONLINE'' else ''offline'') in
      if i = user_list_cursor u
      then activity @ ''  '' @ fit 20 (al_name x) @ ''  '' @
        clip (max 1 (cols - 39)) (if al_status x \<noteq> [] then al_status x else ''-'')
      else activity)"

lemma user_lines_window:
  "user_lines rows cols u [m..<n] row =
     concat (map (\<lambda>i. user_line cols u (row + int (i - m)) i) [m..<min n (m + nat (rows - 2 - row))])"
proof (induction "n - m" arbitrary: m row)
  case 0
  then show ?case by simp
next
  case (Suc k)
  then have "m < n" by simp
  show ?case
  proof (cases "row < rows - 2")
    case False
    with \<open>m < n\<close> show ?thesis by (simp add: upt_rec [of m n])
  next
    case True
    then have shift: "m + nat (rows - 2 - row) = Suc m + nat (rows - 2 - (row + 1))" by simp
    then have "m < min n (m + nat (rows - 2 - row))" using \<open>m < n\<close> by simp
    then have "[m..<min n (m + nat (rows - 2 - row))] = m # [Suc m..<min n (Suc m + nat (rows - 2 - (row + 1)))]"
      unfolding shift by (rule upt_conv_Cons)
    moreover have "map (\<lambda>i. user_line cols u (row + 1 + int (i - Suc m)) i) L = map (\<lambda>i. user_line cols u (row + int (i - m)) i) L"
      if "L = [Suc m..<min n (Suc m + nat (rows - 2 - (row + 1)))]" for L
      using that by (auto simp: of_nat_diff intro!: arg_cong [where f = "\<lambda>r. user_line cols u r _"])
    moreover have "user_lines rows cols u [m..<n] row = user_line cols u row m @ user_lines rows cols u [Suc m..<n] (row + 1)"
      using True \<open>m < n\<close> by (simp add: upt_rec [of m n])
    ultimately show ?thesis using Suc(1) [of "Suc m" "row + 1"] Suc(2) by (simp del: map_eq_conv)
  qed
qed

text \<open>
  The screen of users shows the first \<open>rows - 8\<close> users, a row each from the seventh down,
  whatever the position of the cursor; so the highlighted entry is on the screen only while
  the cursor is below \<open>rows - 8\<close>.
\<close>

theorem user_screen_window:
  assumes "8 \<le> rows" and "current_screen u = SCREEN_USERS"
  shows "texts (user_area rows) (frame_of_screen clock rows cols u) =
    map (\<lambda>i. (6 + int i, 3, user_text cols u i)) [0..<min (all_user_count u) (nat (rows - 8))]"
proof -
  have tag: "texts (user_area rows) (top_bar cols t u) = []" for t
    by (simp add: top_bar_def name_tag_def Let_def)
  have bar: "texts (user_area rows) (status_bar rows cols x t) = []" for x t by (simp add: status_bar_def)
  have line: "texts (user_area rows) (user_line cols u (6 + int i) i) = [(6 + int i, 3, user_text cols u i)]"
    if "int i < rows - 8" for i
    using that by (simp add: user_line_def user_text_def user_area_def Let_def)
  have singles: "concat (map f is) = map g is" if "\<forall>i \<in> set is. f i = [g i]"
    for f :: "nat \<Rightarrow> (int \<times> int \<times> string) list" and g "is" using that by (induction "is") simp_all
  have "texts (user_area rows) (user_lines rows cols u [0..<all_user_count u] 6) =
      map (\<lambda>i. (6 + int i, 3, user_text cols u i)) [0..<min (all_user_count u) (nat (rows - 8))]"
    unfolding user_lines_window texts_concat map_map
    by (subst singles [where g = "\<lambda>i. (6 + int i, 3, user_text cols u i)"]) (auto simp: line)
  then show ?thesis
    unfolding frame_of_screen_def assms(2) screen.case draw_users_def Let_def
    by (simp add: tag bar)
qed

text \<open>An instance: ten rows have room for two of three users; the cursor is on the third.\<close>

lemma user_screen_window_witness:
  "map fst (texts (user_area 10) (frame_of_screen (\<lambda>t. Some ''12:00'') 10 80
     (initial_ui 3\<lparr>current_screen := SCREEN_USERS, all_user_count := 3, user_list_cursor := 2\<rparr>))) = [6, 7]"
  by (subst user_screen_window) (simp_all add: upt_rec)

section \<open>The logo\<close>

text \<open>
  The logo puts each cell of nine rows of seven letters once, in the rows above the form and
  inside 55 columns.
\<close>

definition cells :: "call list \<Rightarrow> (int \<times> int) list" where
  "cells cs = concat (map (\<lambda>x. case x of Put r c _ \<Rightarrow> [(r, c)] | _ \<Rightarrow> []) cs)"

lemma cells_simps [simp]:
  "cells [] = []" "cells (Put r c ch # cs) = (r, c) # cells cs" "cells (as @ cs) = cells as @ cells cs"
  "cells (pen p b cs) = cells cs"
  by (simp_all add: cells_def pen_def)

lemma cells_concat [simp]: "cells (concat css) = concat (map cells css)"
  by (induction css) simp_all

lemma logo_cells:
  "cells (draw_logo start cols pair) =
     concat (map (\<lambda>r. map (\<lambda>c. (start + int r, max 0 (half (cols - 55)) + int c))
       (concat (map (\<lambda>g. map (\<lambda>c. g * 8 + c) [0..<7]) [0..<7]))) [0..<9])"
  by (simp add: draw_logo_def Let_def comp_def TIZCORD_GLYPHS_def upt_rec)

lemma logo_above_form:
  assumes "(r, c) \<in> set (cells (draw_logo (max 0 (form_top rows - 10)) cols pair))"
  shows "1 \<le> r \<and> r < form_top rows - 1 \<and> 0 \<le> c \<and> c - max 0 (half (cols - 55)) < 55"
  using assms unfolding logo_cells by (auto simp: form_top_def)

end
