(* ===== verification/UiTexts.thy ===== *)
theory UiTexts
  imports UiUsers
begin

text \<open>
  What the arrays of the client hold: every text it keeps, whoever sent it, is shorter than
  the array of characters it is copied into, so the NUL behind it fits, and the server an
  account is at is one of the eight or none. Together with \<open>ui_inv\<close>, which has the counts and
  positions, this is the well-formedness of the client's state.
\<close>

section \<open>Texts and their arrays\<close>

definition message_texts :: "ui_message \<Rightarrow> bool" where
  "message_texts m \<longleftrightarrow> line_ok MAX_NAME_LEN (msg_sender m) \<and> line_ok MAX_MSG_LEN (msg_body m)"

definition login_texts :: "login_user \<Rightarrow> bool" where
  "login_texts a \<longleftrightarrow> line_ok MAX_NAME_LEN (lu_name a) \<and> line_ok MAX_PASS_LEN (lu_password a) \<and>
     -1 \<le> lu_server a \<and> lu_server a < int UI_MAX_SERVERS"

definition channel_texts :: "ui_channel \<Rightarrow> bool" where
  "channel_texts c \<longleftrightarrow> line_ok MAX_NAME_LEN (uc_name c) \<and> Ball (set (uc_messages c)) message_texts"

definition member_texts :: "ui_member \<Rightarrow> bool" where
  "member_texts m \<longleftrightarrow> line_ok MAX_NAME_LEN (mb_name m)"

definition server_texts :: "ui_server \<Rightarrow> bool" where
  "server_texts sv \<longleftrightarrow> line_ok MAX_NAME_LEN (us_name sv) \<and> line_ok 80 (us_description sv) \<and> line_ok 4 (us_icon sv) \<and>
     Ball (set (us_members sv)) member_texts \<and> Ball (set (us_channels sv)) channel_texts"

definition friend_texts :: "ui_friend \<Rightarrow> bool" where
  "friend_texts f \<longleftrightarrow> line_ok MAX_NAME_LEN (fr_name f) \<and> Ball (set (fr_messages f)) message_texts"

definition user_texts :: "ui_user \<Rightarrow> bool" where
  "user_texts x \<longleftrightarrow> line_ok MAX_NAME_LEN (al_name x) \<and> line_ok (PROFILE_STATUS_LEN + 1) (al_status x)"

definition texts_ok :: "ui \<Rightarrow> bool" where
  "texts_ok u \<longleftrightarrow> Ball (set (ui_users u)) login_texts \<and> Ball (set (ui_servers u)) server_texts \<and>
     Ball (set (ui_friends u)) friend_texts \<and> Ball (set (all_users u)) user_texts \<and>
     line_ok 80 (form_error u) \<and> line_ok 80 (form_success u)"

lemma line_copy: "n < m \<Longrightarrow> line_ok m (strncpy0 n s)" "n < m \<Longrightarrow> line_ok m (take n s)"
  using length_strncpy0 [of n s] by (simp_all add: line_ok_def)

lemma line_short: "line_ok m s \<longleftrightarrow> length s < m"
  by (simp add: line_ok_def)

text \<open>What leaves these variables alone.\<close>

definition same_texts :: "ui \<Rightarrow> ui \<Rightarrow> bool" where
  "same_texts u u' \<longleftrightarrow> ui_users u' = ui_users u \<and> ui_servers u' = ui_servers u \<and> ui_friends u' = ui_friends u \<and>
     all_users u' = all_users u \<and> form_error u' = form_error u \<and> form_success u' = form_success u"

lemma texts_same: "texts_ok u \<Longrightarrow> same_texts u u' \<Longrightarrow> texts_ok u'"
  by (simp add: texts_ok_def same_texts_def)

lemma same_texts_simps [simp]:
  "same_texts u (submit env p u') = same_texts u u'" "same_texts u (send_logout env u') = same_texts u u'"
  "same_texts u (request_dm_history env i u') = same_texts u u'"
  "same_texts u (open_command u') = same_texts u u'" "same_texts u (close_command u') = same_texts u u'"
  "same_texts u (clear_command u') = same_texts u u'" "same_texts u (status_msg m u') = same_texts u u'"
  "same_texts u (permission_denied u') = same_texts u u'" "same_texts u (command_done u') = same_texts u u'"
  "same_texts u u"
  by (simp_all add: same_texts_def submit_eq send_logout_eq request_dm_history_def open_command_def close_command_def
      clear_command_def status_msg_def permission_denied_def command_done_def)

section \<open>Keys\<close>

lemma texts_auth_input: "texts_ok u \<Longrightarrow> texts_ok (handle_auth_input env k b u)"
  by (auto simp: handle_auth_input_def Let_def put_field_def submit_form_def send_register_eq send_login_eq submit_eq
      texts_ok_def line_short split: option.split)

lemma texts_accounts:
  assumes "texts_ok u" and "set_at (ui_users u) i f = Inr us" and "\<And>a. login_texts a \<Longrightarrow> login_texts (f a)"
  shows "Ball (set us) login_texts"
proof -
  have i: "nat i < length (ui_users u)" and us: "us = (ui_users u)[nat i := f (ui_users u ! nat i)]"
    using assms(2) by (auto simp: set_at_Inr)
  have "login_texts (ui_users u ! nat i)" using assms(1) nth_mem [OF i] by (simp add: texts_ok_def)
  then show ?thesis unfolding us using assms(1,3) by (intro all_set_update) (simp_all add: texts_ok_def)
qed

lemma texts_with_accounts:
  assumes "texts_ok u" and "set_at (ui_users u) i f = Inr us" and "\<And>a. login_texts a \<Longrightarrow> login_texts (f a)"
    and "same_texts (u\<lparr>ui_users := us\<rparr>) u'"
  shows "texts_ok u'"
  using texts_accounts [OF assms(1-3)] assms(1,4) by (simp add: texts_ok_def same_texts_def)

lemma texts_server_input:
  assumes "ui_inv u" and "texts_ok u"
  shows "holds texts_ok (handle_server_input env k u)"
proof -
  have enter: "texts_ok u'" if "set_at (ui_users u) i (\<lambda>a. a\<lparr>lu_server := int (server_cursor u)\<rparr>) = Inr us"
      "same_texts (u\<lparr>ui_users := us\<rparr>) u'" for i us u'
    by (rule texts_with_accounts [OF assms(2) that(1) _ that(2)])
      (use ui_inv_bounds(7) [OF assms(1)] in \<open>simp add: login_texts_def\<close>)
  have "holds texts_ok (enter_server env u)"
    unfolding enter_server_def Let_def request_defs
    by (intro steps assms(2); erule enter; simp add: same_texts_def submit_eq)
  then show ?thesis
    unfolding handle_server_input_def request_defs
    by (intro steps) (auto intro!: texts_same [OF assms(2)] simp: same_texts_def submit_eq open_command_def send_logout_eq)
qed

lemma texts_menus:
  assumes "texts_ok u"
  shows "texts_ok (handle_friends_input env k u)" "texts_ok (handle_users_input env k u)"
  by (auto intro!: texts_same [OF assms] simp: handle_friends_input_def handle_users_input_def request_defs
      same_texts_def submit_eq open_command_def send_logout_eq)

lemma texts_chat_input:
  assumes "texts_ok u"
  shows "holds texts_ok (handle_chat_input env k u)"
proof -
  have f2: "texts_ok (u\<lparr>chat_input := [], current_screen := SCREEN_SERVERS, active_server := -1, ui_users := us\<rparr>)"
    if "set_at (ui_users u) i (\<lambda>a. a\<lparr>lu_server := -1\<rparr>) = Inr us" for i us
    by (rule texts_with_accounts [OF assms that]) (simp_all add: login_texts_def same_texts_def)
  show ?thesis
    unfolding handle_chat_input_def Let_def request_defs
    by (intro steps; (erule f2 | rule texts_same [OF assms], simp add: same_texts_def submit_eq open_command_def))
qed

lemma friend_at:
  assumes "texts_ok u" and "entry_at (ui_friends u) i = Inr f"
  shows "friend_texts f"
  using assms by (auto simp: texts_ok_def entry_at_Inr)

lemma texts_friend:
  assumes "texts_ok u" and "friend_texts f" and "same_texts (u\<lparr>ui_friends := (ui_friends u)[i := f]\<rparr>) u'"
  shows "texts_ok u'"
  using assms all_set_update [of "ui_friends u" friend_texts f i] by (simp add: texts_ok_def same_texts_def)

lemma login_at:
  assumes "texts_ok u" and "entry_at (ui_users u) i = Inr a"
  shows "line_ok MAX_NAME_LEN (lu_name a)"
  using assms by (auto simp: texts_ok_def login_texts_def entry_at_Inr)

lemma texts_dms_input:
  assumes "texts_ok u"
  shows "holds texts_ok (handle_dms_input env k u)"
proof -
  have "holds texts_ok (send_dm env f u)" if "entry_at (ui_friends u) i = Inr f" for f i
  proof -
    have new: "friend_texts (f\<lparr>fr_messages := fr_messages f @ [\<lparr>msg_sender = strncpy0 (MAX_NAME_LEN - 1) a,
        msg_body = strncpy0 (MAX_MSG_LEN - 1) b, msg_ts = t\<rparr>]\<rparr>)" for a b t
      using friend_at [OF assms that] by (simp add: friend_texts_def message_texts_def line_copy)
    show ?thesis
    proof (cases "length (fr_messages f) < MAX_MESSAGES")
      case True
      then show ?thesis unfolding send_dm_def Let_def request_defs if_P [OF True]
        by (intro steps texts_friend [OF assms new]) (simp add: same_texts_def submit_eq)
    next
      case False
      then show ?thesis
        by (simp add: send_dm_def Let_def request_defs texts_same [OF assms] same_texts_def submit_eq)
    qed
  qed
  moreover have "holds texts_ok (next_dm env u)"
    unfolding next_dm_def request_defs
    by (intro steps; rule texts_same [OF assms], simp add: same_texts_def submit_eq)
  ultimately show ?thesis
    unfolding handle_dms_input_def
    by (intro steps) (auto intro!: texts_same [OF assms] simp: same_texts_def)
qed

lemma texts_command_input:
  assumes "texts_ok u"
  shows "holds texts_ok (handle_command_input env k u)"
proof -
  note same = texts_same [OF assms]
  have stay: "holds (\<lambda>(_, u'). same_texts u u') (and_then r (\<lambda>u. Inr (False, u)))" if "holds (same_texts u) r" for r
    using that by (cases r) simp_all
  have "holds (same_texts u) (kick_command env t u)" "holds (same_texts u) (create_channel_command env t u)"
    "holds (same_texts u) (delete_server_command env t u)" "holds (same_texts u) (delete_channel_command env t u)" for t
    unfolding kick_command_def create_channel_command_def delete_server_command_def delete_channel_command_def Let_def
      request_defs
    by (intro steps; simp)+
  moreover have "holds (\<lambda>(_, u'). same_texts u u') (leave_command env u)"
    unfolding leave_command_def request_defs by (intro steps) simp_all
  ultimately have run: "holds (\<lambda>(_, u'). same_texts u u') (run_command env c u)" for c
    unfolding run_command_def Let_def
    by (intro holds_if stay) (simp_all add: friend_command_def create_server_command_def status_command_def request_defs
        same_texts_def submit_eq status_msg_def)
  have "holds texts_ok (and_then (run_command env (cstr (cmd_input u)) u) (\<lambda>(c, v).
      Inr (if c then (close_command v)\<lparr>command_status_msg := [], show_help := False\<rparr> else v)))"
    using run [of "cstr (cmd_input u)"]
    by (cases "run_command env (cstr (cmd_input u)) u")
      (auto intro!: same simp: same_texts_def close_command_def clear_command_def)
  then show ?thesis
    unfolding handle_command_input_def
    by (intro holds_if holds_option holds_Inr) (auto intro!: same simp: same_texts_def)
qed

section \<open>Packets\<close>

lemma texts_auth_response:
  assumes "texts_ok u"
  shows "holds texts_ok (ui_handle_auth_response env a u)"
proof -
  have "texts_ok (u\<lparr>form_error := e, form_success := s\<rparr>)" if "length e < 80" "length s < 80" for e s
    using assms that by (simp add: texts_ok_def line_short)
  moreover have "texts_ok (sign_out st u)" for st
    using assms by (simp add: texts_ok_def sign_out_def line_short)
  moreover have "holds texts_ok (auth_success env u)"
  proof -
    have "texts_ok (u\<lparr>ui_users := us\<rparr>)" if "set_at (ui_users u) i (\<lambda>_. \<lparr>lu_name = strncpy0 (MAX_NAME_LEN - 1) n,
        lu_password = strncpy0 (MAX_PASS_LEN - 1) q, lu_server = -1\<rparr>) = Inr us" for i n q us
      by (rule texts_with_accounts [OF assms that]) (simp_all add: login_texts_def line_copy same_texts_def)
    then show ?thesis
      unfolding auth_success_def request_defs submit_eq
      by (intro steps) (fastforce simp: texts_ok_def line_short)
  qed
  ultimately show ?thesis
    using assms unfolding ui_handle_auth_response_def by (intro holds_if) simp_all
qed

lemma message_shown:
  assumes "Ball (set ms) message_texts" and "line_ok MAX_NAME_LEN sender"
  shows "Ball (set (show_message p sender body ms)) message_texts"
  using assms by (auto simp: show_message_def message_texts_def line_copy)

lemma server_at:
  assumes "texts_ok u" and "entry_at (ui_servers u) i = Inr sv"
  shows "server_texts sv" "0 \<le> i" "nat i < length (ui_servers u)" "sv = ui_servers u ! nat i"
  using assms by (auto simp: texts_ok_def entry_at_Inr)

lemma texts_server:
  assumes "texts_ok u" and "server_texts (f (ui_servers u ! i))"
  shows "texts_ok (upd_server i f u)"
  using assms all_set_update [of "ui_servers u" server_texts "f (ui_servers u ! i)" i]
  by (simp add: texts_ok_def upd_server_def)

lemma texts_channel_message:
  assumes "texts_ok u"
  shows "holds texts_ok (ui_receive_channel_message p c u)"
proof -
  have sender: "line_ok MAX_NAME_LEN (channel_sender p c)" by (simp add: channel_sender_def line_copy)
  have "server_texts (upd_channel j (\<lambda>ch. ch\<lparr>uc_messages := show_message p (channel_sender p c) b (uc_messages ch)\<rparr>) sv)"
    if "server_texts sv" "entry_at (us_channels sv) (int j) = Inr ch" for sv j ch b
  proof -
    have "channel_texts (us_channels sv ! j)" using that by (auto simp: server_texts_def entry_at_Inr)
    then have ms: "Ball (set (uc_messages (us_channels sv ! j))) message_texts" "line_ok MAX_NAME_LEN (uc_name (us_channels sv ! j))"
      by (simp_all add: channel_texts_def)
    then have "channel_texts ((us_channels sv ! j)\<lparr>uc_messages :=
        show_message p (channel_sender p c) b (uc_messages (us_channels sv ! j))\<rparr>)"
      by (simp add: channel_texts_def message_shown [OF ms(1) sender])
    with that(1) all_set_update [of "us_channels sv" channel_texts _ j] show ?thesis
      by (simp add: server_texts_def upd_channel_def)
  qed
  then show ?thesis unfolding ui_receive_channel_message_def
    by (intro steps assms texts_server [OF assms]) (use server_at [OF assms] in blast)
qed

lemma texts_dm_message:
  assumes "texts_ok u"
  shows "holds texts_ok (ui_receive_dm_message p d u)"
proof -
  have own: "line_ok MAX_NAME_LEN n" if "own_name u = Inr n" for n
    using that by (auto simp: own_name_def results line_copy line_ok_def [of _ "''Me''"] split: if_splits)
  have "friend_texts (f\<lparr>fr_messages := show_message p n b (fr_messages f)\<rparr>)"
    if "entry_at (ui_friends u) i = Inr f"
      "(if sender_id p = fr_id f then Inr (strncpy0 (MAX_NAME_LEN - 1) (fr_name f)) else own_name u) = Inr n" for f i n b
    using friend_at [OF assms that(1)] message_shown [of "fr_messages f" n p b] that(2) own
    by (auto simp: friend_texts_def line_copy split: if_splits)
  then show ?thesis unfolding ui_receive_dm_message_def
    by (intro steps assms) (rule texts_friend [OF assms], auto simp: same_texts_def)
qed

lemma texts_server_reply:
  assumes "texts_ok u"
  shows "holds texts_ok (ui_update_server_state env p v u)"
proof -
  note same = texts_same [OF assms]
  have away: "texts_ok u'" if "set_at (ui_users w) i (\<lambda>a. a\<lparr>lu_server := -1\<rparr>) = Inr us" "same_texts u w"
      "same_texts (w\<lparr>ui_users := us\<rparr>) u'" for w i us u'
    by (rule texts_with_accounts [OF same [OF that(2)] that(1) _ that(3)]) (simp add: login_texts_def)
  have "holds texts_ok (leave_reply env u)"
  proof (cases "current_user u = -1")
    case True
    then show ?thesis by (simp add: leave_reply_def request_defs same same_texts_def submit_eq)
  next
    case False
    show ?thesis unfolding leave_reply_def request_defs if_P [OF False]
      by (intro steps; erule away; simp add: same_texts_def submit_eq)
  qed
  moreover have "holds texts_ok (delete_reply env w u)" for w
    unfolding delete_reply_def request_defs Let_def
    by (intro steps; (erule away | rule same); simp add: same_texts_def submit_eq command_done_def close_command_def clear_command_def)
  moreover have "holds texts_ok (kick_reply env v u)"
    unfolding kick_reply_def request_defs Let_def by (intro steps same) simp_all
  moreover have "texts_ok (server_item p v u)"
  proof -
    have "server_texts (zero_ui_server\<lparr>us_id := a, us_member_count := b, us_name := strncpy0 (MAX_NAME_LEN - 1) n,
        us_description := ''Public Server'', us_icon := ''[]''\<rparr>)" for a b n
      using line_copy(1) [of "MAX_NAME_LEN - 1" MAX_NAME_LEN n]
      by (simp add: server_texts_def zero_ui_server_def line_short member_texts_def zero_ui_member_def
          channel_texts_def zero_ui_channel_def)
    note set = all_set_update [of "ui_servers u" server_texts, OF _ this]
    show ?thesis using assms set by (simp add: server_item_def Let_def texts_ok_def)
  qed
  moreover have "holds texts_ok (channel_list_reply env p v u)"
  proof -
    have item: "server_texts (channel_item p v sv)" if "server_texts sv" for sv
    proof -
      have "channel_texts \<lparr>uc_name = strncpy0 (MAX_NAME_LEN - 1) n, uc_messages = [], uc_id = i\<rparr>" for n i
        by (simp add: channel_texts_def line_copy)
      note set = all_set_update [of "us_channels sv" channel_texts, OF _ this]
      show ?thesis using that set by (simp add: channel_item_def Let_def server_texts_def)
    qed
    have "texts_ok (upd_server (nat (active_server u)) (channel_item p v) u)"
      if "entry_at (ui_servers u) (active_server u) = Inr old" for old
      using server_at [OF assms that] by (intro texts_server [OF assms] item) simp
    then show ?thesis unfolding channel_list_reply_def request_defs Let_def
      by (intro steps assms) (auto intro: texts_same)
  qed
  moreover have "holds texts_ok (member_list_reply p v u)"
  proof -
    have item: "server_texts sv" if "member_item p v old = Inr sv" "server_texts old" for old sv
    proof -
      have "member_texts \<lparr>mb_name = strncpy0 (MAX_NAME_LEN - 1) n, mb_admin = a, mb_online = b, mb_id = i\<rparr>" for n a b i
        by (simp add: member_texts_def line_copy)
      note set = all_set_update [of "us_members old" member_texts, OF _ this]
      show ?thesis using that set by (auto simp: member_item_def Let_def server_texts_def set_at_Inr and_then_Inr split: if_splits)
    qed
    show ?thesis unfolding member_list_reply_def
      by (intro steps assms texts_server [OF assms]) (use item server_at [OF assms] in blast)
  qed
  ultimately show ?thesis
    unfolding ui_update_server_state_def Let_def request_defs
    by (auto intro: assms same split: option.split server_action.split)
qed

lemma texts_channel_reply:
  assumes "texts_ok u"
  shows "holds texts_ok (channel_reply env b c u)"
  unfolding channel_reply_def request_defs Let_def
  by (intro steps texts_same [OF assms])
    (simp_all add: same_texts_def submit_eq command_done_def close_command_def clear_command_def permission_denied_def status_msg_def)

lemma texts_friend_list:
  assumes "texts_ok u"
  shows "texts_ok (friend_list_packet env p w u)"
proof -
  have sel: "texts_ok (select_first_friend env u)"
    by (rule texts_same [OF assms]) (simp add: select_first_friend_def same_texts_def request_defs submit_eq split: option.split)
  have item: "texts_ok (friend_item w u)"
  proof (cases "friend_count u < length (ui_friends u)")
    case True
    with assms have "friend_texts (ui_friends u ! friend_count u)" by (simp add: texts_ok_def)
    then show ?thesis unfolding friend_item_def
      by (intro texts_friend [OF assms, where i = "friend_count u"]) (auto simp: friend_texts_def line_copy same_texts_def)
  next
    case False
    then have "(ui_friends u)[friend_count u := f] = ui_friends u" for f by (intro list_update_beyond leI)
    then show ?thesis by (intro texts_same [OF assms]) (simp add: friend_item_def same_texts_def)
  qed
  show ?thesis using sel item by (simp add: friend_list_packet_def texts_same [OF assms] same_texts_def)
qed

lemma texts_users:
  "texts_ok u \<Longrightarrow> Ball (set xs) user_texts \<Longrightarrow> texts_ok (u\<lparr>all_users := xs\<rparr>)"
  by (simp add: texts_ok_def)

lemma set_sort_users:
  assumes "n \<le> length xs"
  shows "set (sort_users n xs) = set xs"
proof -
  have "set (take n (sort_users n xs)) = set (take n xs)"
    by (rule mset_eq_setD [OF sort_users_correct(2) [OF assms]])
  with sort_users_correct(3) [OF assms] show ?thesis by (metis append_take_drop_id set_append)
qed

lemma texts_user_list:
  assumes "ui_inv u" and "texts_ok u"
  shows "texts_ok (user_list_packet p w u)"
proof -
  have all: "Ball (set (all_users u)) user_texts" using assms(2) by (simp add: texts_ok_def)
  have "all_user_count u \<le> length (all_users u)" using assms(1) by (simp add: ui_inv_def list_ok_def)
  then have sorted: "texts_ok (u\<lparr>all_users := sort_users (all_user_count u) (all_users u)\<rparr>)"
    using all by (intro texts_users [OF assms(2)]) (simp add: set_sort_users)
  have "user_texts \<lparr>al_id = soc_target w, al_name = strncpy0 (MAX_NAME_LEN - 1) (soc_username w),
      al_status = strncpy0 PROFILE_STATUS_LEN (soc_status_text w), al_online = soc_status_code w\<rparr>"
    by (simp add: user_texts_def line_copy)
  then have item: "texts_ok (user_item w u)"
    using texts_users [OF assms(2) all_set_update [OF all]] by (simp add: user_item_def texts_ok_def)
  show ?thesis
    using sorted item by (simp add: user_list_packet_def texts_same [OF assms(2)] same_texts_def)
qed

lemma upd_first_all:
  "Ball (set xs) Q \<Longrightarrow> (\<And>x. Q x \<Longrightarrow> Q (f x)) \<Longrightarrow> Ball (set (upd_first P f xs)) Q"
  by (induction xs) auto

lemma texts_status:
  assumes "texts_ok u"
  shows "holds texts_ok (status_packet env w u)"
proof -
  let ?n = "all_user_count u"
  have all: "Ball (set (all_users u)) user_texts" using assms by (simp add: texts_ok_def)
  have "Ball (set (set_profile w (take ?n (all_users u)))) user_texts"
    unfolding set_profile_def
    by (rule upd_first_all) (use all in \<open>auto simp: user_texts_def line_copy dest: in_set_takeD\<close>)
  then have prof: "texts_ok (u\<lparr>all_users := set_profile w (take ?n (all_users u)) @ drop ?n (all_users u)\<rparr>)"
    using all by (intro texts_users [OF assms]) (auto dest: in_set_dropD)
  have "texts_ok (status_msg m u)" for m by (rule texts_same [OF assms]) simp
  with texts_same [OF prof] show ?thesis
    unfolding status_packet_def request_defs Let_def
    by (intro steps) (auto intro: prof)
qed

lemma texts_packet:
  assumes "ui_inv u" and "texts_ok u"
  shows "holds texts_ok (process_network_packet env p u)"
  using assms texts_channel_message [OF assms(2)] texts_dm_message [OF assms(2)] texts_server_reply [OF assms(2)]
    texts_channel_reply [OF assms(2)] texts_auth_response [OF assms(2)] texts_friend_list [OF assms(2)]
    texts_user_list [OF assms] texts_status [OF assms(2)]
  by (simp add: process_network_packet_def split: payload.split option.split channel_action.split social_action.split)

section \<open>The reachable states\<close>

lemma texts_step:
  assumes "ui_inv u" and "texts_ok u"
  shows "holds texts_ok (ui_step env ev u)"
proof (cases ev)
  case (Key_pressed k)
  then show ?thesis
    using texts_auth_input [OF assms(2)] texts_server_input [OF assms] texts_menus [OF assms(2)]
      texts_chat_input [OF assms(2)] texts_dms_input [OF assms(2)] texts_command_input [OF assms(2)]
    by (simp add: handle_key_def split: screen.split)
next
  case (Packet_arrived p)
  then show ?thesis using assms texts_packet [OF assms] by simp
next
  case Server_gone
  then show ?thesis by (simp add: texts_same [OF assms(2)] same_texts_def)
next
  case (Redraw rows)
  have "holds texts_ok (draw_dms clock rows u)" "holds texts_ok (draw_chat clock rows u)" for clock
    unfolding draw_dms_def draw_chat_def Let_def by (intro steps texts_same [OF assms(2)]; simp add: same_texts_def)+
  with Redraw assms(2) show ?thesis by (simp add: redraw_def split: screen.split)
qed

lemma texts_initial: "texts_ok (initial_ui fd)"
  by (auto simp: initial_ui_def texts_ok_def login_texts_def server_texts_def friend_texts_def user_texts_def
      zero_ui_server_def member_texts_def zero_ui_member_def channel_texts_def zero_ui_channel_def line_short)

lemma reach_texts: "ui_reach fd u \<Longrightarrow> texts_ok u"
proof (induction rule: ui_reach.induct)
  case start
  show ?case by (rule texts_initial)
next
  case (step u env ev u')
  with texts_step [OF reach_inv_ui [OF step(1)], of env ev] show ?case by simp
qed

text \<open>
  C8: The client keeps its state in order whatever is typed and whatever a server sends. In
  every reachable state the arrays have their sizes; the numbers of accounts, servers,
  channels, messages, friends and users are at most the sizes of their arrays, and the
  positions lie inside them or are -1; a server is open where the chat is shown, and somebody
  is logged in while one is (\<open>ui_inv\<close>). Every text that is kept, in the input lines and the
  status lines and in every entry of every array (names, passwords, descriptions, messages
  and their senders, profiles), is shorter than the array of characters that holds it, and
  the server of an account is one of the eight or none (\<open>texts_ok\<close>). The one number without a
  bound is that of a server's members, which a list of servers sets to what the packet says.
\<close>

theorem client_state_wellformed:
  assumes "ui_reach fd u"
  shows "ui_inv u \<and> texts_ok u"
  using reach_inv_ui [OF assms] reach_texts [OF assms] by simp

theorem client_state_wellformed_witness:
  "\<exists>u. ui_run opening_run (initial_ui 3) = Inr u \<and> current_screen u = SCREEN_CHAT \<and> ui_inv u \<and> texts_ok u"
proof -
  obtain u where u: "ui_run opening_run (initial_ui 3) = Inr u" "current_screen u = SCREEN_CHAT"
    using opening_run_result by blast
  from ui_run_reach [OF ui_reach.start u(1)] have "ui_reach 3 u" .
  from client_state_wellformed [OF this] u show ?thesis by blast
qed

end
