(* ===== verification/Spec2Isabelle.thy ===== *)
theory Spec2Isabelle
  imports Startup CommandLine Partners DrawingLaws UiTexts
begin

text \<open>
  A model of Tizcord, a chat server with a terminal client in C, and the theorems that make
  both programs correct.

  The programs. Client and server exchange fixed-size packets (\<^verbatim>\<open>shared/protocol.h\<close>) over TCP
  (\<^verbatim>\<open>shared/packet_helper.c\<close>). The server (\<^verbatim>\<open>server/server.c\<close>) is one loop around \<open>select\<close>: it
  accepts connections, collects each client's bytes until a packet is complete and hands
  the packet to a handler: accounts (\<^verbatim>\<open>auth.c\<close>), chat servers and their members
  (\<^verbatim>\<open>tizcord_server.c\<close>), friends and profiles (\<^verbatim>\<open>tizcord_social.c\<close>), channel and direct messages
  (\<^verbatim>\<open>tizcord_chat.c\<close>). Handlers read and write the SQLite database through \<^verbatim>\<open>db.c\<close>, reply
  through \<^verbatim>\<open>client_helper.c\<close> and notify other clients. The client (\<^verbatim>\<open>client/ui.c\<close>) is a loop
  around \<open>select\<close> too: a key goes to the handler of the screen that is open, a packet from the
  server updates the lists and messages it keeps, and the screen is drawn anew; its requests
  are built by \<^verbatim>\<open>client/client.c\<close>.

  The theories, in the order in which they build on each other.
  \<^item> \<open>Prelude\<close>: integer types, the loop shapes of the C code, lemmas on lists and folds.
  \<^item> \<open>Bytes\<close>, \<open>Protocol\<close>, \<open>Wire\<close>, \<open>Transport\<close>: byte order, the enumerations and structs of
    \<^verbatim>\<open>protocol.h\<close>, the memory image of a packet, \<open>swap_packet\<close>, and the bytes on the wire.
  \<^item> \<open>SocketIO\<close>, \<open>Receive\<close>: \<open>packet_send\<close>, \<open>packet_receive\<close>, \<open>packet_receive_partial\<close>. The
    kernel is a script of outcomes of \<open>send\<close> and \<open>recv\<close>; the loops recurse over it.
  \<^item> \<open>Database\<close>, \<open>Friends\<close>: the tables of \<^verbatim>\<open>db/schema.sql\<close> and every statement of \<^verbatim>\<open>db.c\<close>;
    \<open>DbInvariant\<close>: the constraints of the schema, kept by all of them; \<open>DbLaws\<close>: what
    queries and statements promise the handlers.
  \<^item> \<open>Responses\<close>: the server's state and \<^verbatim>\<open>client_helper.c\<close>.
  \<^item> \<open>TizServer\<close>, \<open>Social\<close>, \<open>Chat\<close>, \<open>Auth\<close>: the handlers, one theory per source file, with
    their laws in \<open>TizServerLaws\<close>, \<open>SocialLaws\<close>, \<open>ChatLaws\<close>, \<open>Sessions\<close>.
  \<^item> \<open>EventLoop\<close>, \<open>Runs\<close>: \<^verbatim>\<open>server.c\<close>, its runs and their invariants.
  \<^item> \<open>Client\<close>: the requests of \<^verbatim>\<open>client.c\<close>.
  \<^item> \<open>UiState\<close>, \<open>UiInput\<close>, \<open>UiCommand\<close>, \<open>UiNet\<close>, \<open>UiLoop\<close>: the global variables of \<^verbatim>\<open>ui.c\<close>, its
    keyboard handlers, the command line, the handling of packets, and the events of its loop.
  \<^item> \<open>UiInv\<close>, \<open>UiSafety\<close>: the client's invariant, and exactly when an event goes wrong;
    \<open>UiUsers\<close>: the sorting of the list of users; \<open>UiTexts\<close>: every text the client stores fits its
    array; \<open>UiSends\<close>: what the client sends is well-formed.
  \<^item> \<open>ListViews\<close>, \<open>TableViews\<close>: what the client shows after the server has streamed a list or a
    history, or replied with a table (servers, channels, members); \<open>EndToEnd\<close>: a login and a
    direct message from key to screen.
  \<^item> \<open>Partners\<close>: what this server can send at all, and that such packets break the client only
    as the 17th login.
  \<^item> \<open>CommandLine\<close>: commands typed on the raw buffer \<open>cmd_input\<close>, a new status from key to screen.
  \<^item> \<open>ClientLoop\<close>: the passes of \<open>start_ui\<close> with the blocking receive.
  \<^item> \<open>Startup\<close>: both \<open>main\<close> functions, \<open>start_server\<close>, \<open>db_connect\<close>.
  \<^item> \<open>Drawing\<close>, \<open>DrawingLaws\<close>: the functions that draw, as the \<^verbatim>\<open>ncurses\<close> calls they make.
  \<^item> This theory: whose session a packet can touch.

  The model of the server. \<open>srv\<close> is \<open>ServerContext\<close>; the first \<open>client_count\<close> entries of its
  array are a list, and a \<open>ClientNode*\<close> is an index into it. A handler maps states to states;
  the packets it hands to \<open>packet_send\<close> are appended to the log \<open>out\<close>. A loop over the array or
  over the rows of a query is a \<open>fold\<close>; loops that scan for an entry are \<open>find\<close> and
  \<open>upd_first\<close>; the loop over the clients that removes entries while it runs is a function on
  the index, which ends because the number of entries behind the index falls. No fuel is
  used: the loops over scripts recurse on the script, and what a call returns while it still
  waits is a value of its own (\<open>None\<close>, \<open>Pending\<close>). Character arrays are the strings they
  hold, integers are words of their C width, enum fields the raw integers that arrive.

  The model of the client. \<open>ui\<close> has every global variable of \<^verbatim>\<open>ui.c\<close>. Arrays have their
  declared length, and an operation that would leave one, divide by zero, use a NULL pointer or
  never return has the result \<open>Inl\<close> with the reason (\<open>stuck\<close>). The text fields are strings; \<open>cmd_input\<close> is kept
  as the whole array, because opening the command line leaves old bytes behind its first one
  that later count as text. The search for the next friend is a \<open>partial_function\<close>, whose
  value \<open>None\<close> is not returning. Drawing is two definitions for a screen: what it writes to the
  state and can fail with (\<open>redraw\<close>: a \<open>localtime\<close> that returns NULL, an array left), and the
  calls it makes when it does not fail (\<open>frame_of_screen\<close>; \<open>draw_screen\<close> is both).

  The world outside is an argument. \<open>env\<close> says which SQL statements can be prepared and when
  they fail, which row id comes next, whether a send succeeds, what \<open>crypt\<close> and
  \<open>crypt_gensalt\<close> return, what time it is and what \<open>localtime\<close> makes of a time; \<open>round\<close> adds what \<open>select\<close>, \<open>accept\<close> and \<open>recv\<close>
  answer to the server, \<open>ui_round\<close> what \<open>select\<close>, \<open>recv\<close> and \<open>getch\<close> answer to the client.
  Within one round the answers of \<open>env\<close> are the same for the same question. Rows of a query
  without ORDER BY come in table order, rows with equal sort keys too.

  The interfaces, as locales with the code's definitions as instances: \<open>c_enum\<close> (decoding an
  enumeration), \<open>framing\<close> (packets in a byte stream), \<open>friendship\<close> (what the friend statements
  do to the relation of two users), \<open>membership\<close> (who is a member and an administrator),
  \<open>speaker\<close> (operations that only send), \<open>courier\<close> (operations that send only packets harmless
  to the client), \<open>session_keeper\<close> (handlers that touch no session),
  \<open>list_view\<close> and \<open>table_view\<close> (a list of the client filled from packets), \<open>painter\<close> (a drawing function).

  What the properties show. The wire: packets survive any fragmentation and any pair of byte
  orders, buffers are never overrun. The database: the schema's constraints, friendship as a
  state machine with consent, message histories complete, ordered and bounded, cascading
  deletion. The handlers: nothing but an error reply without a login, administrators only for
  deletion, kicking and channels, no escalation, nobody speaks in another's name. The runs of
  the server: one session for an account, at most 64 clients, sessions are accounts, closed
  connections are dropped. The client: well-formed in every reachable state, an exact list of
  the events that break it, its requests arrive as sent, its lists are the database's, and
  what it draws stands where it belongs and shows no password. Both together: the server's
  packets do not break the client, but for the 17th login in one run; a login, a direct
  message and a status from the key that is pressed to the screen that changes.

  What is not modelled. Logging with \<open>printf\<close>; the guards against NULL arguments, which no
  caller passes; fields that nothing reads (\<open>membership\<close>, \<open>tizcord_servers\<close>); character arrays
  without a terminating NUL, which a hostile peer can send and which the C code then reads
  beyond; the wrap of \<open>next_list_id\<close>, undefined in C, is the two's complement one. Of
  \<^verbatim>\<open>ncurses\<close> only the calls are modelled, not what a terminal makes of them (clipping at the
  margins, control characters), nor the set-up of the terminal and its colours. The variable
  \<open>recv_status\<close> of \<open>start_ui\<close> is declared nowhere; the model reads the result of
  \<open>packet_receive\<close> in its place. \<^verbatim>\<open>shared/tls.h\<close> declares functions that nothing implements.
\<close>

section \<open>Whose session a packet can touch\<close>

lemma keeper_session:
  assumes "sessions s' = sessions s" and "j < length (clients s)"
  shows "session (clients s' ! j) = session (clients s ! j)"
proof -
  have "length (clients s') = length (clients s)" using assms(1) by (metis length_map sessions_def)
  then show ?thesis
    using arg_cong [OF assms(1), of "\<lambda>xs. xs ! j"] assms(2) by (simp add: sessions_def)
qed

text \<open>An update of the entry with the requesting socket leaves the other entries alone.\<close>

lemma other_entry:
  assumes "srv_inv s" and "i < length (clients s)" and "j < length (clients s)" and "i \<noteq> j"
    and "map socket_fd cs = map socket_fd (clients s)"
  shows "upd_first (\<lambda>c. socket_fd c = socket_fd (clients s ! i)) f cs ! j = cs ! j"
proof -
  have d: "distinct (map socket_fd (clients s))" using assms(1) by (simp add: srv_inv_def clients_ok_def)
  then have other: "socket_fd (clients s ! j) \<noteq> socket_fd (clients s ! i)"
    using assms(2-4) by (auto simp: distinct_conv_nth)
  have "distinct (map socket_fd cs)" and len: "length cs = length (clients s)"
    using d assms(5) by (simp, metis length_map assms(5))
  moreover have "socket_fd (cs ! j) = socket_fd (clients s ! j)"
    using arg_cong [OF assms(5), of "\<lambda>xs. xs ! j"] assms(3) len by simp
  ultimately show ?thesis
    using other assms(3) upd_first_distinct [of socket_fd cs "socket_fd (clients s ! i)" f] by simp
qed

lemma login_touches:
  assumes "srv_inv s" and "i < length (clients s)" and "j < length (clients s)" and "i \<noteq> j"
  shows "clients (login_account env (socket_fd (clients s ! i)) a s) ! j = clients s ! j \<or>
    (\<exists>hash. is_authenticated (clients s ! j) \<and>
       db_get_password_hash env (database s) (auth_username a) = Some (cid (clients s ! j), hash) \<and>
       crypt env (auth_password a) hash = Some hash \<and>
       clients (login_account env (socket_fd (clients s ! i)) a s) ! j = clear_client_session (clients s ! j))"
proof (cases "\<exists>u hash. db_get_password_hash env (database s) (auth_username a) = Some (u, hash) \<and>
    crypt env (auth_password a) hash = Some hash")
  case False
  then have "clients (login_account env (socket_fd (clients s ! i)) a s) = clients s"
    by (auto simp: login_effect split: option.split)
  then show ?thesis by simp
next
  case True
  then obtain u hash where h: "db_get_password_hash env (database s) (auth_username a) = Some (u, hash)"
      "crypt env (auth_password a) hash = Some hash" by blast
  let ?r = "\<lambda>c. if revoked (socket_fd (clients s ! i)) u c then clear_client_session c else c"
  have "map socket_fd (map ?r (clients s)) = map socket_fd (clients s)" by simp
  from other_entry [OF assms this] h assms(3)
  have "clients (login_account env (socket_fd (clients s ! i)) a s) ! j = ?r (clients s ! j)"
    by (simp add: login_effect)
  with h show ?thesis by (auto simp: revoked_def)
qed

text \<open>
  C4: A client's packet leaves the sessions of all other clients alone, with one exception:
  a login with the right password ends the session that another client has of that account.
\<close>

theorem packet_touches_own_session:
  assumes "srv_inv s" and "i < length (clients s)" and "j < length (clients s)" and "i \<noteq> j"
  shows "session (clients (process_client_packet env i p s) ! j) = session (clients s ! j) \<or>
    (\<exists>a hash. payload p = Auth a \<and> auth_action_of (auth_action a) = Some AUTH_LOGIN \<and>
       is_authenticated (clients s ! j) \<and>
       db_get_password_hash env (database s) (auth_username a) = Some (cid (clients s ! j), hash) \<and>
       crypt env (auth_password a) hash = Some hash \<and>
       clients (process_client_packet env i p s) ! j = clear_client_session (clients s ! j))"
proof (cases "payload p")
  case (Auth a)
  let ?fd = "socket_fd (clients s ! i)"
  have reg: "clients (register_account env ?fd a s) ! j = clients s ! j"
    using register_effect [of env ?fd a s] other_entry [OF assms, of "clients s"] by (auto split: option.splits prod.splits)
  have logout: "clients (logout_account env ?fd s) ! j = clients s ! j"
    using other_entry [OF assms, of "clients s"] by (auto simp: logout_effect split: option.split)
  have handler: "process_client_packet env i p s = handle_auth_packet env ?fd a s"
    by (simp add: process_client_packet_def Auth)
  show ?thesis
    using login_touches [OF assms, of env a] reg logout unfolding handler Auth
    by (auto simp: handle_auth_packet_def Let_def split: option.split auth_action.split)
next
  case (Server v)
  then show ?thesis
    using keeper_session [OF sessions_handle_server assms(3)] by (simp add: process_client_packet_def)
next
  case (Social v)
  then show ?thesis
    using keeper_session [OF sessions_handle_social assms(3)] by (simp add: process_client_packet_def)
qed (use keeper_session [OF sessions_handle_chat assms(3)] in \<open>simp_all add: process_client_packet_def Let_def\<close>)

theorem packet_touches_own_session_witness:
  "session (clients (process_client_packet sample_env 0 sample_chat sample_srv) ! 1) = session (clients sample_srv ! 1)"
proof -
  have "0 < length (clients sample_srv)" "1 < length (clients sample_srv)" by (simp_all add: sample_srv_def)
  from packet_touches_own_session [OF sample_srv_inv this, of sample_env sample_chat]
  show ?thesis by (simp add: sample_chat_def)
qed

end
